theory Spec2Isabelle
  imports Complex_Main
begin

section \<open>JavaScript numbers\<close>

text \<open>
  Every numeric value of \<^verbatim>\<open>buildBurnupModel.ts\<close> is a JavaScript \<^verbatim>\<open>number\<close>. The model keeps
  the three non-finite values, because the code tests for them (\<^verbatim>\<open>Number.isFinite\<close>) and
  comparisons with \<^verbatim>\<open>NaN\<close> decide whether its loops stop. A finite value is an exact
  rational, and \<open>+\<close>, \<open>-\<close>, \<open>*\<close>, \<open>/\<close> are exact. Timestamps and counts are integers far
  below \<^verbatim>\<open>2^53\<close>, where the arithmetic of the code is exact as well; a quotient such as
  \<^verbatim>\<open>doneThisSprint / fte\<close> is exact here and rounded there. In two places the rounding to
  53 bits is written out with \<open>rounded\<close> (below), because a whole number that steers a loop
  comes out of it: the count of working days \<^verbatim>\<open>Math.round((sprintLenDays * 5) / 7)\<close>, which
  the sprint length makes any number, and the counter \<^verbatim>\<open>left -= 1\<close> that counts it down. The
  sign of zero is not modelled: a division by zero yields the infinity that a positive
  zero gives.
\<close>

datatype number = NaN | NegInf | Fin rat | PosInf

fun isFinite :: "number \<Rightarrow> bool" where
  "isFinite (Fin x) = True"
| "isFinite NaN = False"
| "isFinite NegInf = False"
| "isFinite PosInf = False"

fun signum :: "number \<Rightarrow> int" where
  "signum (Fin x) = (if x < 0 then - 1 else if x = 0 then 0 else 1)"
| "signum NaN = 0"
| "signum NegInf = - 1"
| "signum PosInf = 1"

definition ofSign :: "int \<Rightarrow> number" where
  "ofSign s = (if s = 0 then NaN else if 0 < s then PosInf else NegInf)"

instantiation number :: "{plus, minus, uminus, times, inverse, ord}"
begin

fun uminus_number :: "number \<Rightarrow> number" where
  "uminus_number (Fin x) = Fin (- x)"
| "uminus_number NaN = NaN"
| "uminus_number NegInf = PosInf"
| "uminus_number PosInf = NegInf"

fun plus_number :: "number \<Rightarrow> number \<Rightarrow> number" where
  "plus_number (Fin x) (Fin y) = Fin (x + y)"
| "plus_number NaN b = NaN"
| "plus_number a NaN = NaN"
| "plus_number PosInf NegInf = NaN"
| "plus_number NegInf PosInf = NaN"
| "plus_number PosInf b = PosInf"
| "plus_number a PosInf = PosInf"
| "plus_number NegInf b = NegInf"
| "plus_number a NegInf = NegInf"

definition minus_number :: "number \<Rightarrow> number \<Rightarrow> number" where
  "minus_number a b = a + (- b)"

fun times_number :: "number \<Rightarrow> number \<Rightarrow> number" where
  "times_number (Fin x) (Fin y) = Fin (x * y)"
| "times_number NaN b = NaN"
| "times_number a NaN = NaN"
| "times_number a b = ofSign (signum a * signum b)"

fun divide_number :: "number \<Rightarrow> number \<Rightarrow> number" where
  "divide_number (Fin x) (Fin y) = (if y = 0 then ofSign (signum (Fin x)) else Fin (x / y))"
| "divide_number NaN b = NaN"
| "divide_number a NaN = NaN"
| "divide_number (Fin x) b = Fin 0"
| "divide_number a (Fin y) = ofSign (signum a * (if y < 0 then - 1 else 1))"
| "divide_number a b = NaN"

definition inverse_number :: "number \<Rightarrow> number" where
  "inverse_number a = divide (Fin 1) a"

fun less_number :: "number \<Rightarrow> number \<Rightarrow> bool" where
  "less_number (Fin x) (Fin y) = (x < y)"
| "less_number NaN b = False"
| "less_number a NaN = False"
| "less_number a NegInf = False"
| "less_number PosInf b = False"
| "less_number a b = True"

fun less_eq_number :: "number \<Rightarrow> number \<Rightarrow> bool" where
  "less_eq_number (Fin x) (Fin y) = (x \<le> y)"
| "less_eq_number NaN b = False"
| "less_eq_number a NaN = False"
| "less_eq_number NegInf b = True"
| "less_eq_number a PosInf = True"
| "less_eq_number a b = False"

instance ..

end

text \<open>\<^verbatim>\<open>a === b\<close> on numbers: \<^verbatim>\<open>NaN\<close> equals nothing, itself included.\<close>

definition strictEq :: "number \<Rightarrow> number \<Rightarrow> bool" where
  "strictEq a b = (a \<noteq> NaN \<and> a = b)"

text \<open>ToBoolean of a number: \<^verbatim>\<open>0\<close> and \<^verbatim>\<open>NaN\<close> are falsy.\<close>

definition truthy :: "number \<Rightarrow> bool" where
  "truthy a = (a \<noteq> NaN \<and> a \<noteq> Fin 0)"

text \<open>
  \<^verbatim>\<open>Math.max\<close> and \<^verbatim>\<open>Math.min\<close> return \<^verbatim>\<open>NaN\<close> as soon as one argument is \<^verbatim>\<open>NaN\<close>; with no
  argument they return \<^verbatim>\<open>-Infinity\<close> and \<^verbatim>\<open>Infinity\<close>.
\<close>

definition Math_max2 :: "number \<Rightarrow> number \<Rightarrow> number" where
  "Math_max2 a b = (if a = NaN \<or> b = NaN then NaN else if a < b then b else a)"

definition Math_min2 :: "number \<Rightarrow> number \<Rightarrow> number" where
  "Math_min2 a b = (if a = NaN \<or> b = NaN then NaN else if b < a then b else a)"

definition Math_max :: "number list \<Rightarrow> number" where
  "Math_max xs = foldl Math_max2 NegInf xs"

definition Math_min :: "number list \<Rightarrow> number" where
  "Math_min xs = foldl Math_min2 PosInf xs"

fun Math_floor :: "number \<Rightarrow> number" where
  "Math_floor (Fin x) = Fin (of_int \<lfloor>x\<rfloor>)"
| "Math_floor a = a"

fun Math_ceil :: "number \<Rightarrow> number" where
  "Math_ceil (Fin x) = Fin (of_int \<lceil>x\<rceil>)"
| "Math_ceil a = a"

text \<open>\<^verbatim>\<open>Math.round\<close> rounds a half towards \<^verbatim>\<open>+Infinity\<close>: \<^verbatim>\<open>floor(x + 0.5)\<close>.\<close>

fun Math_round :: "number \<Rightarrow> number" where
  "Math_round (Fin x) = Fin (of_int \<lfloor>x + 1 / 2\<rfloor>)"
| "Math_round a = a"

text \<open>
  The result of an arithmetic operation of the code is the double nearest to the exact
  result, a tie going to the even significand (IEEE 754 binary64, round to nearest).
  \<open>bitLength k\<close> is the number of binary digits of a positive integer; \<open>exponentOf x\<close> is the
  \<open>e\<close> with \<open>2^e \<le> |x| < 2^(e+1)\<close>; \<open>twoTo k\<close> is \<open>2^k\<close> for an integer \<open>k\<close>. The doubles next to
  \<open>x\<close> are the multiples of \<open>2^(e - 52)\<close>, and of \<open>2^(-1074)\<close> below the normal range; a
  result of \<open>2^1024\<close> or more is an infinity.
\<close>

function bitLength :: "int \<Rightarrow> nat" where
  "bitLength k = (if k \<le> 0 then 0 else Suc (bitLength (k div 2)))"
  by pat_completeness auto

termination
  by (relation "measure nat") auto

declare bitLength.simps [simp del]

definition exponentOf :: "rat \<Rightarrow> int" where
  "exponentOf x =
     (if 1 \<le> \<bar>x\<bar> then int (bitLength \<lfloor>\<bar>x\<bar>\<rfloor>) - 1
      else - int (bitLength (\<lceil>1 / \<bar>x\<bar>\<rceil> - 1)))"

definition twoTo :: "int \<Rightarrow> rat" where
  "twoTo k = (if 0 \<le> k then 2 ^ nat k else 1 / 2 ^ nat (- k))"

definition roundTiesToEven :: "rat \<Rightarrow> int" where
  "roundTiesToEven q =
     (let n = \<lfloor>q\<rfloor>; r = q - of_int n
      in if r < 1 / 2 then n else if 1 / 2 < r then n + 1 else if even n then n else n + 1)"

definition toDouble :: "rat \<Rightarrow> number" where
  "toDouble x =
     (if x = 0 then Fin 0
      else (let e = max (exponentOf x) (- 1022);
                u = twoTo (e - 52);
                m = roundTiesToEven (x / u)
            in if 1023 < e \<or> (e = 1023 \<and> \<bar>m\<bar> = 9007199254740992)
               then (if 0 < x then PosInf else NegInf)
               else Fin (of_int m * u)))"

fun rounded :: "number \<Rightarrow> number" where
  "rounded (Fin x) = toDouble x"
| "rounded a = a"

definition DAY_MS :: number where
  "DAY_MS = Fin 24 * Fin 60 * Fin 60 * Fin 1000"


section \<open>Strings\<close>

text \<open>
  A string is a list of characters with the codes 0 to 255. \<^verbatim>\<open>trim\<close> removes the white space
  among them: tab, line feed, vertical tab, form feed, carriage return, space and the
  no-break space (code 160). \<^verbatim>\<open>toUpperCase\<close> maps \<^verbatim>\<open>a\<close>..\<^verbatim>\<open>z\<close> to \<^verbatim>\<open>A\<close>..\<^verbatim>\<open>Z\<close>; a character
  above 127 is kept as it is (JavaScript maps none of them to a letter that the code
  looks for).
\<close>

definition isWhiteSpace :: "char \<Rightarrow> bool" where
  "isWhiteSpace c = (of_char c \<in> {9, 10, 11, 12, 13, 32, 160 :: nat})"

definition trim :: "string \<Rightarrow> string" where
  "trim s = rev (dropWhile isWhiteSpace (rev (dropWhile isWhiteSpace s)))"

definition upperChar :: "char \<Rightarrow> char" where
  "upperChar c =
     (case map_of (zip ''abcdefghijklmnopqrstuvwxyz'' ''ABCDEFGHIJKLMNOPQRSTUVWXYZ'') c of
        None \<Rightarrow> c
      | Some u \<Rightarrow> u)"

definition toUpperCase :: "string \<Rightarrow> string" where
  "toUpperCase s = map upperChar s"

definition startsWith :: "string \<Rightarrow> string \<Rightarrow> bool" where
  "startsWith s t = (take (length t) s = t)"

fun str_includes :: "string \<Rightarrow> string \<Rightarrow> bool" where
  "str_includes [] t = (t = [])"
| "str_includes (c # cs) t = (startsWith (c # cs) t \<or> str_includes cs t)"

text \<open>\<^verbatim>\<open>s.split(c)\<close> for a one-character separator; the result is never empty.\<close>

fun splitOn :: "char \<Rightarrow> string \<Rightarrow> string list" where
  "splitOn c [] = [[]]"
| "splitOn c (x # xs) =
     (if x = c then [] # splitOn c xs
      else (case splitOn c xs of [] \<Rightarrow> [[x]] | p # ps \<Rightarrow> (x # p) # ps))"

definition nth_opt :: "'a list \<Rightarrow> nat \<Rightarrow> 'a option" where
  "nth_opt xs i = (if i < length xs then Some (xs ! i) else None)"

section \<open>The platform\<close>

text \<open>
  The built-ins that read a string or the clock are parameters of the model:
  \<^verbatim>\<open>Date.parse\<close>, \<^verbatim>\<open>Number\<close> applied to a string, and \<^verbatim>\<open>Date.now()\<close>.
\<close>

record Platform =
  Date_parse :: "string \<Rightarrow> number"
  Number_of_string :: "string \<Rightarrow> number"
  Date_now :: number

text \<open>\<^verbatim>\<open>Number(x)\<close> where \<^verbatim>\<open>x\<close> may be \<^verbatim>\<open>undefined\<close>: \<^verbatim>\<open>Number(undefined)\<close> is \<^verbatim>\<open>NaN\<close>.\<close>

definition Number_of :: "Platform \<Rightarrow> string option \<Rightarrow> number" where
  "Number_of P x = (case x of None \<Rightarrow> NaN | Some s \<Rightarrow> Number_of_string P s)"

text \<open>
  \<^verbatim>\<open>Date.UTC(y, m, d)\<close> and \<^verbatim>\<open>new Date(ms).getUTCDay()\<close> are functions of their arguments
  alone (ECMA-262, MakeDay, MakeDate, TimeClip, WeekDay). \<open>toInteger\<close> is ToIntegerOrInfinity
  on a finite value; \<open>daysFromCivil y m\<close> is the day number, counted from 1970-01-01, of the
  first day of month \<open>m\<close> (0 = January) of year \<open>y\<close> in the proleptic Gregorian calendar.
\<close>

definition toInteger :: "rat \<Rightarrow> int" where
  "toInteger x = (if x < 0 then \<lceil>x\<rceil> else \<lfloor>x\<rfloor>)"

definition daysFromCivil :: "int \<Rightarrow> int \<Rightarrow> int" where
  "daysFromCivil y m =
     (let y' = (if m < 2 then y - 1 else y);
          era = y' div 400;
          yoe = y' - era * 400;
          doy = (153 * (if m < 2 then m + 10 else m - 2) + 2) div 5;
          doe = yoe * 365 + yoe div 4 - yoe div 100 + doy
      in era * 146097 + doe - 719468)"

definition maxTimeValue :: rat where
  "maxTimeValue = 8640000000000000"

fun Date_UTC :: "number \<Rightarrow> number \<Rightarrow> number \<Rightarrow> number" where
  "Date_UTC (Fin y) (Fin m) (Fin d) =
     (let yi = toInteger y;
          yr = (if 0 \<le> yi \<and> yi \<le> 99 then 1900 + yi else yi);
          mi = toInteger m;
          ym = yr + mi div 12;
          mn = mi mod 12;
          day = daysFromCivil ym mn + toInteger d - 1;
          tv = of_int (day * 86400000)
      in if maxTimeValue < \<bar>tv\<bar> then NaN else Fin tv)"
| "Date_UTC y m d = NaN"

fun getUTCDay :: "number \<Rightarrow> number" where
  "getUTCDay (Fin t) =
     (if maxTimeValue < \<bar>t\<bar> then NaN
      else Fin (of_int ((\<lfloor>of_int (toInteger t) / (86400000 :: rat)\<rfloor> + 4) mod 7)))"
| "getUTCDay t = NaN"

section \<open>Types of the burn-up logic\<close>

datatype StatusCategory = ToDo | InProgress | Done

record BurnupIssue =
  key :: "string option"
  created :: string
  resolutiondate :: "string option"
  statusCategory :: "StatusCategory option"
  status :: "string option"

record SprintSummary =
  index :: number
  startMs :: number
  endMs :: number
  scopeAtEnd :: number
  scopeAtStart :: number
  doneThisSprint :: number
  cumDoneEnd :: number
  isClosed :: bool

record BurnupProjection =
  hasSignal :: bool
  fromSprintIndex :: "number option"
  fromTimeMs :: "number option"
  fromDone :: "number option"
  projectedDonePerSprint :: "number option"
  avgVelPerFTE :: "number option"
  projectedCompletionMs :: "number option"
  projectedCompletionEarlyMs :: "number option"
  projectedCompletionLateMs :: "number option"
  requiredFTEToHitTarget :: "number option"
  suggestedMaxFTE :: "number option"
  remainingStoriesFromAnchor :: "number option"
  sprintsRemainingToTarget :: "number option"
  requiredStoriesPerSprintToHitTarget :: "number option"
  recentStoriesPerSprint :: "number option"

record BurnupModel =
  sprintLengthDays :: number
  originMs :: number
  targetDateMs :: number
  targetScope :: number
  latestScope :: number
  todayMs :: number
  currentSprintStartMs :: number
  currentSprintEndMs :: number
  sprints :: "SprintSummary list"
  projection :: BurnupProjection
  totalDoneStories :: number
  hasAnyDone :: bool
  isOnTrack :: "bool option"
  daysDeltaFromTarget :: "number option"

text \<open>
  \<^verbatim>\<open>BuildBurnupInput\<close>; its optional sprint length is the field \<open>sprintLengthDaysOpt\<close>, the
  name \<open>sprintLengthDays\<close> being the model's field.
\<close>

record BuildBurnupInput =
  stories :: "BurnupIssue list"
  sprintStartISO :: string
  devCompletionISO :: string
  sprintFTE :: number
  todayISO :: "string option"
  sprintLengthDaysOpt :: "number option"

record NormalisedIssue =
  createdMs :: number
  resolvedMs :: "number option"
  isDone :: bool
  isCancelled :: bool

section \<open>Internal helpers\<close>

definition epochDayFloorMs :: "number \<Rightarrow> number" where
  "epochDayFloorMs ms = (if \<not> isFinite ms then NaN else Math_floor (ms / DAY_MS) * DAY_MS)"

text \<open>
  The loop of \<^verbatim>\<open>subtractWorkingDaysUTC\<close>. It runs while \<^verbatim>\<open>left > 0\<close>, so it may not return:
  not returning is the value \<open>None\<close>. The counter \<^verbatim>\<open>left\<close> is a double: \<^verbatim>\<open>left -= 1\<close> is the
  rounded difference, which above \<^verbatim>\<open>2^53\<close> may be \<^verbatim>\<open>left\<close> itself.
\<close>

partial_function (option) subtractLoop :: "number \<Rightarrow> number \<Rightarrow> number option" where
  "subtractLoop ms left =
     (if Fin 0 < left then
        (let ms' = ms - DAY_MS;
             dow = getUTCDay ms'
         in subtractLoop ms'
              (if \<not> strictEq dow (Fin 0) \<and> \<not> strictEq dow (Fin 6)
               then rounded (left - Fin 1) else left))
      else Some ms)"

declare subtractLoop.simps [code]

definition subtractWorkingDaysUTC :: "number \<Rightarrow> number \<Rightarrow> number option" where
  "subtractWorkingDaysUTC endMs' workingDays =
     subtractLoop (epochDayFloorMs endMs') (Math_max2 (Fin 0) (Math_floor workingDays))"

definition parseJiraDate :: "Platform \<Rightarrow> string \<Rightarrow> number" where
  "parseJiraDate P v =
     (if v = [] then NaN
      else (let ms = Date_parse P v in if \<not> isFinite ms then NaN else epochDayFloorMs ms))"

definition parseISODate :: "Platform \<Rightarrow> string \<Rightarrow> number" where
  "parseISODate P isoStr =
     (if isoStr = [] then NaN
      else (let parts = splitOn (CHR ''-'') isoStr;
                y = Number_of P (nth_opt parts 0);
                m = Number_of P (nth_opt parts 1) - Fin 1;
                d = Number_of P (nth_opt parts 2)
            in if \<not> isFinite y \<or> \<not> isFinite m \<or> \<not> isFinite d then NaN
               else Date_UTC y m d))"

text \<open>\<^verbatim>\<open>!resolvedMs\<close> on a \<^verbatim>\<open>number | null\<close>: \<^verbatim>\<open>null\<close>, \<^verbatim>\<open>0\<close> and \<^verbatim>\<open>NaN\<close> are falsy.\<close>

definition truthyOpt :: "number option \<Rightarrow> bool" where
  "truthyOpt r = (case r of None \<Rightarrow> False | Some v \<Rightarrow> truthy v)"

definition normaliseIssue :: "Platform \<Rightarrow> BurnupIssue \<Rightarrow> NormalisedIssue option" where
  "normaliseIssue P issue =
     (if created issue = [] then None
      else (let createdMs' = parseJiraDate P (created issue) in
        if \<not> isFinite createdMs' then None
        else (let rawStatus = toUpperCase (trim (case status issue of None \<Rightarrow> [] | Some s \<Rightarrow> s));
                  categoryDone = (statusCategory issue = Some Done);
                  isCancelled' = (str_includes rawStatus ''WITHDRAWN'' \<or> str_includes rawStatus ''CANCELLED'');
                  resolved0 = (case resolutiondate issue of
                                 None \<Rightarrow> None
                               | Some r \<Rightarrow> if r = [] then None
                                           else (let parsed = parseJiraDate P r
                                                 in if isFinite parsed then Some parsed else None));
                  resolved1 = (if \<not> truthyOpt resolved0 \<and> (categoryDone \<or> rawStatus = ''DONE'')
                               then Some createdMs' else resolved0);
                  isDone' = (truthyOpt resolved1 \<and> \<not> isCancelled' \<and>
                             (categoryDone \<or> rawStatus = ''DONE'' \<or> startsWith rawStatus ''DONE ''))
              in Some \<lparr> createdMs = createdMs', resolvedMs = resolved1,
                        isDone = isDone', isCancelled = isCancelled' \<rparr>)))"

text \<open>The projection with no signal and every field \<^verbatim>\<open>null\<close>, written out three times in the source.\<close>

definition nullProjection :: BurnupProjection where
  "nullProjection =
     \<lparr> hasSignal = False, fromSprintIndex = None, fromTimeMs = None, fromDone = None,
       projectedDonePerSprint = None, avgVelPerFTE = None, projectedCompletionMs = None,
       projectedCompletionEarlyMs = None, projectedCompletionLateMs = None,
       requiredFTEToHitTarget = None, suggestedMaxFTE = None,
       remainingStoriesFromAnchor = None, sprintsRemainingToTarget = None,
       requiredStoriesPerSprintToHitTarget = None, recentStoriesPerSprint = None \<rparr>"

definition emptyModel :: "number \<Rightarrow> number \<Rightarrow> number \<Rightarrow> number \<Rightarrow> BurnupModel" where
  "emptyModel sprintLenDays originMs' targetDateMs' todayMs' =
     (let safeOrigin = (if isFinite originMs' then originMs' else todayMs') in
      \<lparr> sprintLengthDays = sprintLenDays,
        originMs = safeOrigin,
        targetDateMs = (if isFinite targetDateMs' then targetDateMs' else todayMs'),
        targetScope = Fin 0,
        latestScope = Fin 0,
        todayMs = todayMs',
        currentSprintStartMs = safeOrigin,
        currentSprintEndMs = safeOrigin,
        sprints = [],
        projection = nullProjection,
        totalDoneStories = Fin 0,
        hasAnyDone = False,
        isOnTrack = None,
        daysDeltaFromTarget = None \<rparr>)"

text \<open>The \<^verbatim>\<open>for\<close> loop of \<^verbatim>\<open>computeScopeAtDate\<close>: the first sprint with \<^verbatim>\<open>dateMs <= s.endMs\<close>.\<close>

fun chosenSprint :: "SprintSummary list \<Rightarrow> number \<Rightarrow> SprintSummary option" where
  "chosenSprint [] dateMs = None"
| "chosenSprint (s # ss) dateMs = (if dateMs \<le> endMs s then Some s else chosenSprint ss dateMs)"

definition computeScopeAtDate :: "SprintSummary list \<Rightarrow> number \<Rightarrow> number" where
  "computeScopeAtDate sps dateMs =
     (if sps = [] then Fin 0
      else (case chosenSprint sps dateMs of
              None \<Rightarrow> scopeAtEnd (last sps)
            | Some s \<Rightarrow> scopeAtEnd s))"

text \<open>
  The downward loops over \<^verbatim>\<open>sprints\<close> count \<^verbatim>\<open>i\<close> from an index down to \<^verbatim>\<open>0\<close>: the argument
  \<open>Suc i\<close> stands for the loop variable \<^verbatim>\<open>i\<close>, and \<open>0\<close> for \<^verbatim>\<open>i < 0\<close>. The index is within the
  array wherever the source calls them.
\<close>

fun findLastClosed :: "SprintSummary list \<Rightarrow> nat \<Rightarrow> nat option" where
  "findLastClosed sps 0 = None"
| "findLastClosed sps (Suc i) = (if isClosed (sps ! i) then Some i else findLastClosed sps i)"

fun lastNClosedVals :: "SprintSummary list \<Rightarrow> nat \<Rightarrow> nat \<Rightarrow> number list \<Rightarrow> number list" where
  "lastNClosedVals sps 0 n vals = vals"
| "lastNClosedVals sps (Suc i) n vals =
     (if length vals < n then
        (if \<not> isClosed (sps ! i) then lastNClosedVals sps i n vals
         else lastNClosedVals sps i n (vals @ [doneThisSprint (sps ! i)]))
      else vals)"

text \<open>\<^verbatim>\<open>xs.reduce((sum, v) => sum + v, 0) / xs.length\<close>\<close>

definition averageOf :: "number list \<Rightarrow> number" where
  "averageOf xs = foldl (+) (Fin 0) xs / Fin (of_nat (length xs))"

definition avgStoriesLastNClosed :: "SprintSummary list \<Rightarrow> nat \<Rightarrow> nat \<Rightarrow> number option" where
  "avgStoriesLastNClosed sps lastClosedIndex n =
     (let vals = lastNClosedVals sps (Suc lastClosedIndex) n []
      in if vals = [] then None else Some (averageOf vals))"

definition LOOKBACK_CLOSED :: nat where
  "LOOKBACK_CLOSED = 8"

text \<open>The look-back loop of \<^verbatim>\<open>computeProjection\<close>, with its two counters.\<close>

fun nonZeroVelLoop ::
  "SprintSummary list \<Rightarrow> number \<Rightarrow> nat \<Rightarrow> nat \<Rightarrow> number list \<Rightarrow> number list" where
  "nonZeroVelLoop sps fte 0 takenClosed acc = acc"
| "nonZeroVelLoop sps fte (Suc i) takenClosed acc =
     (if takenClosed < LOOKBACK_CLOSED then
        (if \<not> isClosed (sps ! i) then nonZeroVelLoop sps fte i takenClosed acc
         else (let doneThis = doneThisSprint (sps ! i) in
               if Fin 0 < doneThis then
                 (let acc' = acc @ [doneThis / fte] in
                  if 2 \<le> length acc' then acc'
                  else nonZeroVelLoop sps fte i (Suc takenClosed) acc')
               else nonZeroVelLoop sps fte i (Suc takenClosed) acc))
      else acc)"

definition computeProjection ::
  "SprintSummary list \<Rightarrow> number \<Rightarrow> number \<Rightarrow> number \<Rightarrow> number \<Rightarrow> number \<Rightarrow> BurnupProjection" where
  "computeProjection sps sprintLenMs sprintFTE' latestScope' targetScope' targetDateMs' =
     (if sps = [] then nullProjection
      else (case findLastClosed sps (length sps) of
        None \<Rightarrow> nullProjection
      | Some lastClosedIndex \<Rightarrow>
         (let fromT = endMs (sps ! lastClosedIndex);
              fromD = cumDoneEnd (sps ! lastClosedIndex);
              remainingStories = Math_max2 (Fin 0) (latestScope' - fromD);
              remainingToTarget = Math_max2 (Fin 0) (targetScope' - fromD);
              (sprintsRemaining, requiredStories) =
                 (if isFinite targetDateMs' \<and> fromT < targetDateMs' then
                    (let msToTarget = targetDateMs' - fromT;
                         sprintsFloat = msToTarget / sprintLenMs
                     in if Fin 0 < sprintsFloat then
                          (Some (Math_ceil sprintsFloat),
                           Some (if Fin 0 < remainingToTarget
                                 then remainingToTarget / sprintsFloat else Fin 0))
                        else (None, None))
                  else (None, None));
              fte = Math_max2 (Fin (1 / 10)) (if isFinite sprintFTE' then sprintFTE' else Fin 0);
              recent = avgStoriesLastNClosed sps lastClosedIndex 2;
              nonZeroVelPerFTE = nonZeroVelLoop sps fte (Suc lastClosedIndex) 0 []
          in if nonZeroVelPerFTE = [] then
               \<lparr> hasSignal = False, fromSprintIndex = Some (Fin (of_nat lastClosedIndex)),
                 fromTimeMs = Some fromT, fromDone = Some fromD,
                 projectedDonePerSprint = None, avgVelPerFTE = None,
                 projectedCompletionMs = None, projectedCompletionEarlyMs = None,
                 projectedCompletionLateMs = None,
                 requiredFTEToHitTarget = None, suggestedMaxFTE = None,
                 remainingStoriesFromAnchor = Some remainingStories,
                 sprintsRemainingToTarget = sprintsRemaining,
                 requiredStoriesPerSprintToHitTarget = requiredStories,
                 recentStoriesPerSprint = recent \<rparr>
             else
              (let avgVel = averageOf nonZeroVelPerFTE;
                   (requiredFTE, suggestedMax) =
                      (if Fin 0 < avgVel \<and> isFinite targetDateMs' then
                         (if remainingToTarget \<le> Fin 0 then
                            (Some (Fin 0), Some (Math_max2 sprintFTE' (Fin 0) + Fin 1))
                          else if fromT < targetDateMs' then
                            (let sprintsFloat = (targetDateMs' - fromT) / sprintLenMs in
                             if Fin 0 < sprintsFloat then
                               (let requiredPerSprint = remainingToTarget / sprintsFloat;
                                    fteRequired = requiredPerSprint / avgVel
                                in if isFinite fteRequired \<and> Fin 0 < fteRequired
                                   then (Some fteRequired, Some (fteRequired + Fin 1))
                                   else (None, None))
                             else (None, None))
                          else (None, None))
                       else (None, None));
                   projectedDone = avgVel * fte
               in if \<not> (Fin 0 < projectedDone) then
                    \<lparr> hasSignal = False, fromSprintIndex = Some (Fin (of_nat lastClosedIndex)),
                      fromTimeMs = Some fromT, fromDone = Some fromD,
                      projectedDonePerSprint = None, avgVelPerFTE = Some avgVel,
                      projectedCompletionMs = None, projectedCompletionEarlyMs = None,
                      projectedCompletionLateMs = None,
                      requiredFTEToHitTarget = requiredFTE, suggestedMaxFTE = suggestedMax,
                      remainingStoriesFromAnchor = Some remainingStories,
                      sprintsRemainingToTarget = sprintsRemaining,
                      requiredStoriesPerSprintToHitTarget = requiredStories,
                      recentStoriesPerSprint = recent \<rparr>
                  else
                   (let remaining = Math_max2 (Fin 0) (latestScope' - fromD) in
                    if strictEq remaining (Fin 0) then
                      \<lparr> hasSignal = True, fromSprintIndex = Some (Fin (of_nat lastClosedIndex)),
                        fromTimeMs = Some fromT, fromDone = Some fromD,
                        projectedDonePerSprint = Some projectedDone, avgVelPerFTE = Some avgVel,
                        projectedCompletionMs = Some fromT,
                        projectedCompletionEarlyMs = Some fromT,
                        projectedCompletionLateMs = Some fromT,
                        requiredFTEToHitTarget = requiredFTE, suggestedMaxFTE = suggestedMax,
                        remainingStoriesFromAnchor = Some remainingStories,
                        sprintsRemainingToTarget = sprintsRemaining,
                        requiredStoriesPerSprintToHitTarget = requiredStories,
                        recentStoriesPerSprint = recent \<rparr>
                    else
                     (let projectedSprints = remaining / projectedDone;
                          completion = fromT + projectedSprints * sprintLenMs;
                          fastDonePerSprint = projectedDone * Fin (12 / 10);
                          slowDonePerSprint = projectedDone * Fin (8 / 10);
                          completionEarly =
                            (if Fin 0 < fastDonePerSprint
                             then fromT + (remaining / fastDonePerSprint) * sprintLenMs
                             else completion);
                          completionLate =
                            (if Fin 0 < slowDonePerSprint
                             then fromT + (remaining / slowDonePerSprint) * sprintLenMs
                             else completion)
                      in \<lparr> hasSignal = True,
                           fromSprintIndex = Some (Fin (of_nat lastClosedIndex)),
                           fromTimeMs = Some fromT, fromDone = Some fromD,
                           projectedDonePerSprint = Some projectedDone,
                           avgVelPerFTE = Some avgVel,
                           projectedCompletionMs = Some completion,
                           projectedCompletionEarlyMs = Some completionEarly,
                           projectedCompletionLateMs = Some completionLate,
                           requiredFTEToHitTarget = requiredFTE,
                           suggestedMaxFTE = suggestedMax,
                           remainingStoriesFromAnchor = Some remainingStories,
                           sprintsRemainingToTarget = sprintsRemaining,
                           requiredStoriesPerSprintToHitTarget = requiredStories,
                           recentStoriesPerSprint = recent \<rparr>))))))"

section \<open>Public API\<close>

text \<open>
  \<^verbatim>\<open>buildBurnupModel\<close>, split where its comments split it: the origin (first sprint start),
  the horizon, one sprint bucket, the bucketing loop, and the model assembled from the
  sprints.
\<close>

definition deriveOrigin ::
  "number \<Rightarrow> number \<Rightarrow> number \<Rightarrow> NormalisedIssue list \<Rightarrow> number option" where
  "deriveOrigin sprintLenDays uiOriginMs todayMs' sts =
     (if sts = [] then Some (if isFinite uiOriginMs then uiOriginMs else todayMs')
      else (let validDone = filter (\<lambda>s. isDone s \<and> \<not> isCancelled s \<and> resolvedMs s \<noteq> None) sts;
                allCreated = map createdMs sts
            in if validDone \<noteq> [] then
                 (let earliestDoneMs = Math_min (map (\<lambda>s. the (resolvedMs s)) validDone);
                      workingDaysBack =
                        Math_max2 (Fin 1)
                          (Math_round (rounded (rounded (sprintLenDays * Fin 5) / Fin 7)))
                  in subtractWorkingDaysUTC earliestDoneMs workingDaysBack)
               else (let earliestCreatedMs = Math_min allCreated
                     in Some (if isFinite uiOriginMs
                              then Math_min2 uiOriginMs earliestCreatedMs
                              else earliestCreatedMs))))"

definition horizonOf ::
  "NormalisedIssue list \<Rightarrow> number \<Rightarrow> number \<Rightarrow> number \<Rightarrow> number \<Rightarrow> number" where
  "horizonOf sts originMs' todayMs' targetDateMs' sprintLenMs =
     (let lastStoryCreatedMs = (if sts \<noteq> [] then Math_max (map createdMs sts) else originMs');
          lastStoryResolvedMsArr =
            map (\<lambda>s. the (resolvedMs s)) (filter (\<lambda>s. resolvedMs s \<noteq> None) sts);
          lastStoryMs =
            (if lastStoryResolvedMsArr \<noteq> []
             then Math_max2 lastStoryCreatedMs (Math_max lastStoryResolvedMsArr)
             else lastStoryCreatedMs);
          baseHorizonMs = Math_max [todayMs', targetDateMs', lastStoryMs]
      in baseHorizonMs + sprintLenMs * Fin 6)"

definition scopeAtEndOf :: "NormalisedIssue list \<Rightarrow> number \<Rightarrow> number" where
  "scopeAtEndOf sts endMs' =
     Fin (of_nat (length (filter (\<lambda>s. createdMs s < endMs' \<and> \<not> isCancelled s) sts)))"

definition doneByEndRawOf :: "NormalisedIssue list \<Rightarrow> number \<Rightarrow> number" where
  "doneByEndRawOf sts endMs' =
     Fin (of_nat (length (filter
       (\<lambda>s. isDone s \<and> resolvedMs s \<noteq> None \<and> the (resolvedMs s) < endMs' \<and>
            createdMs s < endMs' \<and> \<not> isCancelled s) sts)))"

definition sprintBucket ::
  "NormalisedIssue list \<Rightarrow> number \<Rightarrow> number \<Rightarrow> number \<Rightarrow> nat \<Rightarrow> number \<Rightarrow> number \<Rightarrow> SprintSummary" where
  "sprintBucket sts originMs' sprintLenMs todayMs' i prevScopeAtEnd prevCumDone =
     (let startMs' = originMs' + Fin (of_nat i) * sprintLenMs;
          endMs' = startMs' + sprintLenMs;
          isClosed' = (endMs' \<le> todayMs');
          scopeAtEnd' = scopeAtEndOf sts endMs';
          scopeAtStart' = (if i = 0 then Fin 0 else prevScopeAtEnd);
          doneByEndRaw = doneByEndRawOf sts endMs';
          cumDoneEnd' = Math_min2 doneByEndRaw scopeAtEnd';
          doneThisSprint' =
            (if i = 0 then cumDoneEnd' else Math_max2 (Fin 0) (cumDoneEnd' - prevCumDone))
      in \<lparr> index = Fin (of_nat i), startMs = startMs', endMs = endMs',
           scopeAtEnd = scopeAtEnd', scopeAtStart = scopeAtStart',
           doneThisSprint = doneThisSprint', cumDoneEnd = cumDoneEnd',
           isClosed = isClosed' \<rparr>)"

text \<open>
  \<^verbatim>\<open>while (true) { ... if (startMs > horizonMs) break; ... i += 1; }\<close>: the loop leaves only
  through its \<^verbatim>\<open>break\<close>, so it may not return (\<open>None\<close>). The counter \<^verbatim>\<open>i\<close> is a natural number.
\<close>

partial_function (option) sprintLoop ::
  "NormalisedIssue list \<Rightarrow> number \<Rightarrow> number \<Rightarrow> number \<Rightarrow> number \<Rightarrow>
   nat \<Rightarrow> number \<Rightarrow> number \<Rightarrow> SprintSummary list \<Rightarrow> SprintSummary list option" where
  "sprintLoop sts originMs' sprintLenMs horizonMs todayMs' i prevScopeAtEnd prevCumDone acc =
     (if horizonMs < originMs' + Fin (of_nat i) * sprintLenMs then Some acc
      else (let s = sprintBucket sts originMs' sprintLenMs todayMs' i prevScopeAtEnd prevCumDone
            in sprintLoop sts originMs' sprintLenMs horizonMs todayMs' (Suc i)
                 (scopeAtEnd s) (cumDoneEnd s) (acc @ [s])))"

declare sprintLoop.simps [code]

definition assembleModel ::
  "number \<Rightarrow> number \<Rightarrow> number \<Rightarrow> number \<Rightarrow> number \<Rightarrow> number \<Rightarrow> SprintSummary list \<Rightarrow> BurnupModel" where
  "assembleModel sprintLenDays sprintLenMs originMs' targetDateMs' todayMs' sprintFTE' sps =
     (let latestScope' = (if sps \<noteq> [] then scopeAtEnd (last sps) else Fin 0);
          targetScope' = computeScopeAtDate sps targetDateMs';
          totalDone = (if sps \<noteq> [] then cumDoneEnd (last sps) else Fin 0);
          hasAnyDone' = (Fin 0 < totalDone);
          projection' =
            computeProjection sps sprintLenMs sprintFTE' latestScope' targetScope' targetDateMs';
          (curStart, curEnd) =
            (if isFinite originMs' \<and> isFinite todayMs' \<and> Fin 0 < sprintLenMs then
               (let deltaMs = todayMs' - originMs';
                    idx = Math_max2 (Fin 0) (Math_floor (deltaMs / sprintLenMs));
                    cs = originMs' + idx * sprintLenMs
                in (cs, cs + (sprintLenDays - Fin 1) * DAY_MS))
             else (originMs', originMs'));
          (onTrack, daysDelta) =
            (if hasSignal projection' \<and> projectedCompletionMs projection' \<noteq> None then
               (let dd = Math_round
                           ((the (projectedCompletionMs projection') - targetDateMs') / DAY_MS)
                in (if isFinite dd then Some (dd \<le> Fin 0) else None, Some dd))
             else (None, None))
      in \<lparr> sprintLengthDays = sprintLenDays,
           originMs = originMs',
           targetDateMs = targetDateMs',
           targetScope = targetScope',
           latestScope = latestScope',
           todayMs = todayMs',
           currentSprintStartMs = curStart,
           currentSprintEndMs = curEnd,
           sprints = sps,
           projection = projection',
           totalDoneStories = totalDone,
           hasAnyDone = hasAnyDone',
           isOnTrack = onTrack,
           daysDeltaFromTarget = daysDelta \<rparr>)"

definition buildBurnupModel :: "Platform \<Rightarrow> BuildBurnupInput \<Rightarrow> BurnupModel option" where
  "buildBurnupModel P inp =
     (let sprintLenDays = (case sprintLengthDaysOpt inp of None \<Rightarrow> Fin 14 | Some d \<Rightarrow> d);
          sprintLenMs = sprintLenDays * DAY_MS;
          uiOriginMs = parseISODate P (sprintStartISO inp);
          targetDateMs' = parseISODate P (devCompletionISO inp);
          todayMs' = (case todayISO inp of
                        None \<Rightarrow> epochDayFloorMs (Date_now P)
                      | Some t \<Rightarrow> if t = [] then epochDayFloorMs (Date_now P)
                                  else parseISODate P t)
      in if \<not> isFinite targetDateMs' then
           Some (emptyModel sprintLenDays uiOriginMs targetDateMs' todayMs')
         else
          (let sprintFTE' = Math_max2 (Fin 0) (if isFinite (sprintFTE inp) then sprintFTE inp else Fin 0);
               sts = List.map_filter (normaliseIssue P) (stories inp)
           in case deriveOrigin sprintLenDays uiOriginMs todayMs' sts of
                None \<Rightarrow> None
              | Some origin0 \<Rightarrow>
                 (let origin1 = (if \<not> isFinite origin0 then todayMs' else origin0);
                      originMs' = epochDayFloorMs origin1;
                      horizonMs = horizonOf sts originMs' todayMs' targetDateMs' sprintLenMs
                  in case sprintLoop sts originMs' sprintLenMs horizonMs todayMs' 0 (Fin 0) (Fin 0) [] of
                       None \<Rightarrow> None
                     | Some sps \<Rightarrow>
                         Some (assembleModel sprintLenDays sprintLenMs originMs' targetDateMs'
                                 todayMs' sprintFTE' sps))))"

definition recomputeProjectionWithFTE :: "BurnupModel \<Rightarrow> number \<Rightarrow> BurnupModel" where
  "recomputeProjectionWithFTE model sprintFTE' =
     (let safeFte = Math_max2 (Fin 0) (if isFinite sprintFTE' then sprintFTE' else Fin 0);
          pr = projection model
      in if sprints model = [] \<or> \<not> hasSignal pr \<or> fromSprintIndex pr = None \<or>
            fromTimeMs pr = None \<or> fromDone pr = None \<or> avgVelPerFTE pr = None \<or>
            the (avgVelPerFTE pr) \<le> Fin 0
         then model
         else
          (let sprintLenMs = sprintLengthDays model * DAY_MS;
               fromT = the (fromTimeMs pr);
               fromD = the (fromDone pr);
               avgVel = the (avgVelPerFTE pr);
               fte = Math_max2 (Fin (1 / 10)) (if truthy safeFte then safeFte else Fin 0);
               projectedDone = avgVel * fte
           in if projectedDone \<le> Fin 0 then
                model \<lparr> projection :=
                          pr \<lparr> projectedDonePerSprint := None,
                               projectedCompletionMs := None,
                               projectedCompletionEarlyMs := None,
                               projectedCompletionLateMs := None \<rparr>,
                        isOnTrack := None,
                        daysDeltaFromTarget := None,
                        currentSprintStartMs := currentSprintStartMs model,
                        currentSprintEndMs := currentSprintEndMs model \<rparr>
              else
               (let remaining = Math_max2 (Fin 0) (latestScope model - fromD);
                    (completion, completionEarly, completionLate) =
                      (if strictEq remaining (Fin 0) then (fromT, fromT, fromT)
                       else
                        (let projectedSprints = remaining / projectedDone;
                             c = fromT + projectedSprints * sprintLenMs;
                             fastDonePerSprint = projectedDone * Fin (12 / 10);
                             slowDonePerSprint = projectedDone * Fin (8 / 10)
                         in (c,
                             if Fin 0 < fastDonePerSprint
                             then fromT + (remaining / fastDonePerSprint) * sprintLenMs else c,
                             if Fin 0 < slowDonePerSprint
                             then fromT + (remaining / slowDonePerSprint) * sprintLenMs else c)));
                    newProjection =
                      pr \<lparr> hasSignal := True,
                           projectedDonePerSprint := Some projectedDone,
                           projectedCompletionMs := Some completion,
                           projectedCompletionEarlyMs := Some completionEarly,
                           projectedCompletionLateMs := Some completionLate \<rparr>;
                    (onTrack, daysDelta) =
                      (if isFinite (targetDateMs model) then
                         (let dd = Math_round ((completion - targetDateMs model) / DAY_MS)
                          in (if isFinite dd then Some (dd \<le> Fin 0) else None, Some dd))
                       else (None, None))
                in model \<lparr> projection := newProjection,
                           isOnTrack := onTrack,
                           daysDeltaFromTarget := daysDelta,
                           currentSprintStartMs := currentSprintStartMs model,
                           currentSprintEndMs := currentSprintEndMs model \<rparr>)))"

section \<open>A platform for the examples\<close>

text \<open>
  The concrete examples run on this platform. Its \<^verbatim>\<open>Number\<close> reads a string of decimal
  digits (and the empty string as \<^verbatim>\<open>0\<close>), its \<^verbatim>\<open>Date.parse\<close> reads the date-only form
  \<^verbatim>\<open>YYYY-MM-DD\<close> as UTC midnight; both yield \<^verbatim>\<open>NaN\<close> on every other string. Its clock reads
  2025-03-01T12:00:00Z.
\<close>

definition digitOf :: "char \<Rightarrow> int option" where
  "digitOf c = (if 48 \<le> (of_char c :: int) \<and> (of_char c :: int) \<le> 57
                then Some (of_char c - 48) else None)"

fun digitsValue :: "int \<Rightarrow> string \<Rightarrow> int option" where
  "digitsValue acc [] = Some acc"
| "digitsValue acc (c # cs) =
     (case digitOf c of None \<Rightarrow> None | Some d \<Rightarrow> digitsValue (10 * acc + d) cs)"

definition decimalNumber :: "string \<Rightarrow> number" where
  "decimalNumber s = (case digitsValue 0 s of None \<Rightarrow> NaN | Some n \<Rightarrow> Fin (of_int n))"

definition isoDateOnly :: "string \<Rightarrow> number" where
  "isoDateOnly s =
     (if length s = 10 \<and> s ! 4 = CHR ''-'' \<and> s ! 7 = CHR ''-'' then
        (case (digitsValue 0 (take 4 s), digitsValue 0 (take 2 (drop 5 s)),
               digitsValue 0 (drop 8 s)) of
           (Some y, Some m, Some d) \<Rightarrow>
             if 1 \<le> m \<and> m \<le> 12 \<and> 1 \<le> d \<and> d \<le> 31
             then Date_UTC (Fin (of_int y)) (Fin (of_int (m - 1))) (Fin (of_int d))
             else NaN
         | _ \<Rightarrow> NaN)
      else NaN)"

definition examplePlatform :: Platform where
  "examplePlatform =
     \<lparr> Date_parse = isoDateOnly, Number_of_string = decimalNumber,
       Date_now = Fin 1740830400000 \<rparr>"

section \<open>Names for the locals of \<^verbatim>\<open>buildBurnupModel\<close>\<close>

text \<open>
  The local variables of \<^verbatim>\<open>buildBurnupModel\<close> as functions of its input, so that theorems
  can speak of them; \<open>buildBurnupModel_unfold\<close> shows that they are what the function
  computes. \<open>endOfSprint\<close> is the \<^verbatim>\<open>endMs\<close> of window \<open>k\<close>, and \<open>bucketAt\<close> the summary the
  loop pushes for window \<open>k\<close>, its two carried values being those of window \<open>k - 1\<close>.
\<close>

definition sprintLenDaysOf :: "BuildBurnupInput \<Rightarrow> number" where
  "sprintLenDaysOf inp = (case sprintLengthDaysOpt inp of None \<Rightarrow> Fin 14 | Some d \<Rightarrow> d)"

definition todayMsOf :: "Platform \<Rightarrow> BuildBurnupInput \<Rightarrow> number" where
  "todayMsOf P inp =
     (case todayISO inp of
        None \<Rightarrow> epochDayFloorMs (Date_now P)
      | Some t \<Rightarrow> if t = [] then epochDayFloorMs (Date_now P) else parseISODate P t)"

definition sprintFTEOf :: "BuildBurnupInput \<Rightarrow> number" where
  "sprintFTEOf inp = Math_max2 (Fin 0) (if isFinite (sprintFTE inp) then sprintFTE inp else Fin 0)"

definition normalisedStories :: "Platform \<Rightarrow> BuildBurnupInput \<Rightarrow> NormalisedIssue list" where
  "normalisedStories P inp = List.map_filter (normaliseIssue P) (stories inp)"

definition originOf :: "Platform \<Rightarrow> BuildBurnupInput \<Rightarrow> number option" where
  "originOf P inp =
     map_option (\<lambda>origin0. epochDayFloorMs (if \<not> isFinite origin0 then todayMsOf P inp else origin0))
       (deriveOrigin (sprintLenDaysOf inp) (parseISODate P (sprintStartISO inp))
          (todayMsOf P inp) (normalisedStories P inp))"

definition sprintsOf :: "Platform \<Rightarrow> BuildBurnupInput \<Rightarrow> number \<Rightarrow> SprintSummary list option" where
  "sprintsOf P inp orig =
     sprintLoop (normalisedStories P inp) orig (sprintLenDaysOf inp * DAY_MS)
       (horizonOf (normalisedStories P inp) orig (todayMsOf P inp)
          (parseISODate P (devCompletionISO inp)) (sprintLenDaysOf inp * DAY_MS))
       (todayMsOf P inp) 0 (Fin 0) (Fin 0) []"

definition endOfSprint :: "number \<Rightarrow> number \<Rightarrow> nat \<Rightarrow> number" where
  "endOfSprint orig len k = orig + Fin (of_nat k) * len + len"

definition bucketAt :: "NormalisedIssue list \<Rightarrow> number \<Rightarrow> number \<Rightarrow> number \<Rightarrow> nat \<Rightarrow> SprintSummary" where
  "bucketAt sts orig len t k =
     sprintBucket sts orig len t k
       (scopeAtEndOf sts (endOfSprint orig len (k - 1)))
       (Math_min2 (doneByEndRawOf sts (endOfSprint orig len (k - 1)))
                  (scopeAtEndOf sts (endOfSprint orig len (k - 1))))"

section \<open>The velocity signal in the words of the specification\<close>

text \<open>
  \<open>lastClosedAt sps k\<close>: index \<open>k\<close> is the last closed sprint. \<open>closedBackFrom sps k\<close>: the
  closed sprints met when walking backward from index \<open>k\<close>. \<open>velocitySamples\<close>: among the
  first eight of them, those with \<^verbatim>\<open>doneThisSprint > 0\<close>, cut after two, each divided by the
  FTE. \<open>effectiveFTE\<close> is the FTE floored at 0.1.
\<close>

definition lastClosedAt :: "SprintSummary list \<Rightarrow> nat \<Rightarrow> bool" where
  "lastClosedAt sps k =
     (k < length sps \<and> isClosed (sps ! k) \<and> (\<forall>j. k < j \<and> j < length sps \<longrightarrow> \<not> isClosed (sps ! j)))"

definition closedBackFrom :: "SprintSummary list \<Rightarrow> nat \<Rightarrow> SprintSummary list" where
  "closedBackFrom sps k = filter isClosed (rev (take (Suc k) sps))"

definition velocitySamples :: "SprintSummary list \<Rightarrow> nat \<Rightarrow> number \<Rightarrow> number list" where
  "velocitySamples sps k fte =
     map (\<lambda>s. doneThisSprint s / fte)
       (take 2 (filter (\<lambda>s. Fin 0 < doneThisSprint s)
                  (take 8 (closedBackFrom sps k))))"

definition effectiveFTE :: "number \<Rightarrow> number" where
  "effectiveFTE f = Math_max2 (Fin (1 / 10)) (if isFinite f then f else Fin 0)"

text \<open>
  The three completion timestamps (central, early, late), as \<^verbatim>\<open>recomputeProjectionWithFTE\<close>
  and the end of \<^verbatim>\<open>computeProjection\<close> both compute them from the anchor time, the remaining
  stories, the projected velocity and the sprint length.
\<close>

definition completionCone :: "number \<Rightarrow> number \<Rightarrow> number \<Rightarrow> number \<Rightarrow> number \<times> number \<times> number" where
  "completionCone fromT remaining projectedDone sprintLenMs =
     (if strictEq remaining (Fin 0) then (fromT, fromT, fromT)
      else
       (let projectedSprints = remaining / projectedDone;
            c = fromT + projectedSprints * sprintLenMs;
            fastDonePerSprint = projectedDone * Fin (12 / 10);
            slowDonePerSprint = projectedDone * Fin (8 / 10)
        in (c,
            if Fin 0 < fastDonePerSprint
            then fromT + (remaining / fastDonePerSprint) * sprintLenMs else c,
            if Fin 0 < slowDonePerSprint
            then fromT + (remaining / slowDonePerSprint) * sprintLenMs else c)))"

section \<open>Working days in the words of the specification\<close>

text \<open>
  Days are numbered from 1970-01-01 (day 0, a Thursday). \<open>isWeekend d\<close>: day \<open>d\<close> is a
  Saturday or a Sunday. \<open>previousWorkingDay d\<close> is the latest Monday-to-Friday day before
  \<open>d\<close>, and \<open>workingDaysBefore n d\<close> goes back \<open>n\<close> such days. \<open>validDay d\<close>: the day lies
  within the time values a \<^verbatim>\<open>Date\<close> can hold (100,000,000 days either side of the epoch).
\<close>

definition isWeekend :: "int \<Rightarrow> bool" where
  "isWeekend d = ((d + 4) mod 7 = 0 \<or> (d + 4) mod 7 = 6)"

definition previousWorkingDay :: "int \<Rightarrow> int" where
  "previousWorkingDay d =
     (if \<not> isWeekend (d - 1) then d - 1 else if \<not> isWeekend (d - 2) then d - 2 else d - 3)"

fun workingDaysBefore :: "nat \<Rightarrow> int \<Rightarrow> int" where
  "workingDaysBefore 0 d = d"
| "workingDaysBefore (Suc n) d = workingDaysBefore n (previousWorkingDay d)"

definition validDay :: "int \<Rightarrow> bool" where
  "validDay d = (- 100000000 \<le> d \<and> d \<le> 100000000)"

definition msOfDay :: "int \<Rightarrow> number" where
  "msOfDay d = Fin (of_int d * 86400000)"

text \<open>
  \<open>validDoneOf\<close> is the \<^verbatim>\<open>validDone\<close> of \<^verbatim>\<open>buildBurnupModel\<close>; \<open>dayOf\<close> reads the day number of
  a timestamp, and \<open>earliestDoneDay\<close> is the earliest resolution day among the valid done
  stories.
\<close>

definition validDoneOf :: "NormalisedIssue list \<Rightarrow> NormalisedIssue list" where
  "validDoneOf sts = filter (\<lambda>s. isDone s \<and> \<not> isCancelled s \<and> resolvedMs s \<noteq> None) sts"

fun dayOf :: "number \<Rightarrow> int" where
  "dayOf (Fin x) = \<lfloor>x / 86400000\<rfloor>"
| "dayOf a = 0"

definition earliestDoneDay :: "NormalisedIssue list \<Rightarrow> int" where
  "earliestDoneDay sts = Min (set (map (\<lambda>s. dayOf (the (resolvedMs s))) (validDoneOf sts)))"

text \<open>
  \<open>workingDaysCount l\<close> is \<^verbatim>\<open>max(1, round(l * 5 / 7))\<close> for a sprint of \<open>l\<close> days, the product
  and the quotient being doubles.
\<close>

definition workingDaysCount :: "rat \<Rightarrow> number" where
  "workingDaysCount l = Math_max2 (Fin 1) (Math_round (rounded (rounded (Fin l * Fin 5) / Fin 7)))"

section \<open>Concrete inputs of the examples\<close>

definition badTargetInput :: BuildBurnupInput where
  "badTargetInput =
     \<lparr> stories = [], sprintStartISO = ''2025-01-06'', devCompletionISO = ''soon'',
       sprintFTE = Fin 5, todayISO = Some ''2025-03-01'', sprintLengthDaysOpt = None \<rparr>"



definition twoStoryInput :: BuildBurnupInput where
  "twoStoryInput =
     \<lparr> stories =
         [\<lparr> key = Some ''BU-1'', created = ''2025-01-01'', resolutiondate = Some ''2025-01-20'',
            statusCategory = Some Done, status = Some ''Done'' \<rparr>,
          \<lparr> key = Some ''BU-2'', created = ''2025-01-10'', resolutiondate = None,
            statusCategory = Some InProgress, status = Some ''In Progress'' \<rparr>],
       sprintStartISO = ''2025-01-06'', devCompletionISO = ''2025-02-01'',
       sprintFTE = Fin 1, todayISO = Some ''2025-02-05'', sprintLengthDaysOpt = Some (Fin 14) \<rparr>"

definition threeStoryInput :: BuildBurnupInput where
  "threeStoryInput =
     \<lparr> stories =
         [\<lparr> key = Some ''BU-1'', created = ''2025-01-01'', resolutiondate = Some ''2025-01-20'',
            statusCategory = Some Done, status = Some ''Done'' \<rparr>,
          \<lparr> key = Some ''BU-2'', created = ''2025-01-10'', resolutiondate = None,
            statusCategory = Some InProgress, status = Some ''In Progress'' \<rparr>,
          \<lparr> key = Some ''BU-3'', created = ''2025-02-10'', resolutiondate = None,
            statusCategory = Some ToDo, status = Some ''To Do'' \<rparr>],
       sprintStartISO = ''2025-01-06'', devCompletionISO = ''2025-02-01'',
       sprintFTE = Fin 2, todayISO = None, sprintLengthDaysOpt = None \<rparr>"

text \<open>Three closed sprints that completed 4, 0 and 6 stories (the most recent last).\<close>

definition closedSprint :: "nat \<Rightarrow> rat \<Rightarrow> rat \<Rightarrow> rat \<Rightarrow> SprintSummary" where
  "closedSprint i scope doneThis cumDone =
     \<lparr> index = Fin (of_nat i),
       startMs = Fin (1736121600000 + of_nat i * 1209600000),
       endMs = Fin (1737331200000 + of_nat i * 1209600000),
       scopeAtEnd = Fin scope, scopeAtStart = Fin scope,
       doneThisSprint = Fin doneThis, cumDoneEnd = Fin cumDone, isClosed = True \<rparr>"

definition sprints406 :: "SprintSummary list" where
  "sprints406 = [closedSprint 0 20 4 4, closedSprint 1 20 0 4, closedSprint 2 20 6 10]"

text \<open>One closed sprint in which nothing was completed.\<close>

definition idleSprints :: "SprintSummary list" where
  "idleSprints = [closedSprint 0 3 0 0]"

text \<open>One closed sprint in which all ten stories were completed.\<close>

definition finishedSprints :: "SprintSummary list" where
  "finishedSprints = [closedSprint 0 10 10 10]"

definition oneDoneInput :: BuildBurnupInput where
  "oneDoneInput =
     \<lparr> stories =
         [\<lparr> key = Some ''BU-1'', created = ''2025-01-01'', resolutiondate = Some ''2025-01-20'',
            statusCategory = Some Done, status = Some ''Done'' \<rparr>],
       sprintStartISO = ''2025-01-06'', devCompletionISO = ''2025-03-01'',
       sprintFTE = Fin 1, todayISO = Some ''2025-02-05'', sprintLengthDaysOpt = Some (Fin 14) \<rparr>"

text \<open>
  The same story and sprint length with a target date that does not parse and a sprint
  start of 2025-02-03 entered in the UI.
\<close>

definition oneDoneNoTargetInput :: BuildBurnupInput where
  "oneDoneNoTargetInput =
     \<lparr> stories =
         [\<lparr> key = Some ''BU-1'', created = ''2025-01-01'', resolutiondate = Some ''2025-01-20'',
            statusCategory = Some Done, status = Some ''Done'' \<rparr>],
       sprintStartISO = ''2025-02-03'', devCompletionISO = ''soon'',
       sprintFTE = Fin 1, todayISO = Some ''2025-02-05'', sprintLengthDaysOpt = Some (Fin 14) \<rparr>"

text \<open>
  A story created on 1970-01-01 whose status category is Done and that carries no
  resolution date; and an input whose \<^verbatim>\<open>todayISO\<close> is a date written with slashes.
\<close>

definition epochIssue :: BurnupIssue where
  "epochIssue =
     \<lparr> key = Some ''BU-0'', created = ''1970-01-01'', resolutiondate = None,
       statusCategory = Some Done, status = Some ''Done'' \<rparr>"

definition badTodayInput :: BuildBurnupInput where
  "badTodayInput =
     \<lparr> stories = [], sprintStartISO = ''2025-01-06'', devCompletionISO = ''2025-06-01'',
       sprintFTE = Fin 5, todayISO = Some ''2025/03/01'', sprintLengthDaysOpt = None \<rparr>"

section \<open>Facts about numbers\<close>

lemma DAY_MS_value: "DAY_MS = Fin 86400000"
  by (simp add: DAY_MS_def)

lemma less_NaN_right [simp]: "\<not> a < (NaN :: number)"
  by (cases a) simp_all

lemma le_NaN_right [simp]: "\<not> a \<le> (NaN :: number)"
  by (cases a) simp_all

lemma plus_NaN_right [simp]: "a + NaN = (NaN :: number)"
  by (cases a) simp_all

lemma times_NaN_right [simp]: "a * NaN = (NaN :: number)"
  by (cases a) simp_all

lemma divide_NaN_right [simp]: "a / NaN = (NaN :: number)"
  by (cases a) simp_all

lemma minus_Fin [simp]: "Fin x - Fin y = Fin (x - y)"
  by (simp add: minus_number_def)

lemma less_Fin_mono: "a < Fin x \<Longrightarrow> x \<le> y \<Longrightarrow> a < Fin y"
  by (cases a) simp_all

section \<open>The sprint loop\<close>

lemma sprintLoop_horizon_not_NaN:
  assumes "sprintLoop sts orig len h t i ps pc acc = Some r"
  shows "h \<noteq> NaN"
proof (rule sprintLoop.raw_induct [where P = "\<lambda>_ _ _ h _ _ _ _ _ _. h \<noteq> NaN", OF _ assms])
  fix loop sts orig len h t i ps pc acc r
  assume IH: "\<And>sts orig len h t i ps pc acc y.
      loop sts orig len h t i ps pc acc = Some y \<Longrightarrow> h \<noteq> NaN"
    and body: "(if h < orig + Fin (of_nat i) * len then Some acc
      else let s = sprintBucket sts orig len t i ps pc
           in loop sts orig len h t (Suc i) (scopeAtEnd s) (cumDoneEnd s) (acc @ [s])) = Some r"
  show "h \<noteq> NaN"
  proof (cases "h < orig + Fin (of_nat i) * len")
    case True
    then show ?thesis by auto
  next
    case False
    with body have "loop sts orig len h t (Suc i)
        (scopeAtEnd (sprintBucket sts orig len t i ps pc))
        (cumDoneEnd (sprintBucket sts orig len t i ps pc))
        (acc @ [sprintBucket sts orig len t i ps pc]) = Some r"
      by (simp add: Let_def)
    then show ?thesis by (rule IH)
  qed
qed

lemma sprintLoop_NaN_horizon: "sprintLoop sts orig len NaN t i ps pc acc = None"
  using sprintLoop_horizon_not_NaN [of sts orig len NaN t i ps pc acc]
  by (cases "sprintLoop sts orig len NaN t i ps pc acc") auto

lemma sprintBucket_fields [simp]:
  "index (sprintBucket sts orig len t i ps pc) = Fin (of_nat i)"
  "startMs (sprintBucket sts orig len t i ps pc) = orig + Fin (of_nat i) * len"
  "endMs (sprintBucket sts orig len t i ps pc) = endOfSprint orig len i"
  "scopeAtEnd (sprintBucket sts orig len t i ps pc) = scopeAtEndOf sts (endOfSprint orig len i)"
  "cumDoneEnd (sprintBucket sts orig len t i ps pc) =
     Math_min2 (doneByEndRawOf sts (endOfSprint orig len i)) (scopeAtEndOf sts (endOfSprint orig len i))"
  "isClosed (sprintBucket sts orig len t i ps pc) = (endOfSprint orig len i \<le> t)"
  by (simp_all add: sprintBucket_def endOfSprint_def Let_def)

lemma sprintBucket_0: "sprintBucket sts orig len t 0 ps pc = bucketAt sts orig len t 0"
  by (simp add: bucketAt_def sprintBucket_def Let_def)

lemma sprintBucket_Suc:
  assumes "ps = scopeAtEnd (bucketAt sts orig len t i)"
      and "pc = cumDoneEnd (bucketAt sts orig len t i)"
  shows "sprintBucket sts orig len t (Suc i) ps pc = bucketAt sts orig len t (Suc i)"
  using assms by (simp add: bucketAt_def)

lemma sprintLoop_shape:
  assumes run: "sprintLoop sts orig len h t i ps pc acc = Some r"
      and prev: "0 < i \<longrightarrow> ps = scopeAtEnd (bucketAt sts orig len t (i - 1)) \<and>
                         pc = cumDoneEnd (bucketAt sts orig len t (i - 1))"
  shows "\<exists>m\<ge>i. r = acc @ map (bucketAt sts orig len t) [i..<m] \<and>
           h < orig + Fin (of_nat m) * len \<and>
           (\<forall>k. i \<le> k \<and> k < m \<longrightarrow> \<not> h < orig + Fin (of_nat k) * len)"
proof -
  let ?P = "\<lambda>sts orig len h t i ps pc acc r.
      (0 < i \<longrightarrow> ps = scopeAtEnd (bucketAt sts orig len t (i - 1)) \<and>
                 pc = cumDoneEnd (bucketAt sts orig len t (i - 1))) \<longrightarrow>
      (\<exists>m\<ge>i. r = acc @ map (bucketAt sts orig len t) [i..<m] \<and>
           h < orig + Fin (of_nat m) * len \<and>
           (\<forall>k. i \<le> k \<and> k < m \<longrightarrow> \<not> h < orig + Fin (of_nat k) * len))"
  have "?P sts orig len h t i ps pc acc r"
  proof (rule sprintLoop.raw_induct [where P = ?P, OF _ run])
    fix loop sts orig len h t i ps pc acc r
    assume IH: "\<And>sts orig len h t i ps pc acc y.
        loop sts orig len h t i ps pc acc = Some y \<Longrightarrow> ?P sts orig len h t i ps pc acc y"
      and body: "(if h < orig + Fin (of_nat i) * len then Some acc
        else let s = sprintBucket sts orig len t i ps pc
             in loop sts orig len h t (Suc i) (scopeAtEnd s) (cumDoneEnd s) (acc @ [s])) = Some r"
    show "?P sts orig len h t i ps pc acc r"
    proof (intro impI)
      assume pv: "0 < i \<longrightarrow> ps = scopeAtEnd (bucketAt sts orig len t (i - 1)) \<and>
                         pc = cumDoneEnd (bucketAt sts orig len t (i - 1))"
      show "\<exists>m\<ge>i. r = acc @ map (bucketAt sts orig len t) [i..<m] \<and>
           h < orig + Fin (of_nat m) * len \<and>
           (\<forall>k. i \<le> k \<and> k < m \<longrightarrow> \<not> h < orig + Fin (of_nat k) * len)"
      proof (cases "h < orig + Fin (of_nat i) * len")
        case True
        with body have "r = acc" by simp
        with True show ?thesis by (intro exI [of _ i]) auto
      next
        case False
        have s_eq: "sprintBucket sts orig len t i ps pc = bucketAt sts orig len t i"
        proof (cases i)
          case 0
          then show ?thesis by (simp add: sprintBucket_0)
        next
          case (Suc j)
          with pv show ?thesis by (simp add: sprintBucket_Suc)
        qed
        from False body have call: "loop sts orig len h t (Suc i)
            (scopeAtEnd (bucketAt sts orig len t i)) (cumDoneEnd (bucketAt sts orig len t i))
            (acc @ [bucketAt sts orig len t i]) = Some r"
          by (simp add: Let_def s_eq)
        from IH [OF call] obtain m where m: "Suc i \<le> m"
          "r = (acc @ [bucketAt sts orig len t i]) @ map (bucketAt sts orig len t) [Suc i..<m]"
          "h < orig + Fin (of_nat m) * len"
          "\<forall>k. Suc i \<le> k \<and> k < m \<longrightarrow> \<not> h < orig + Fin (of_nat k) * len"
          by auto
        from m(1) have upt: "[i..<m] = i # [Suc i..<m]"
          by (simp add: upt_conv_Cons)
        have all: "\<forall>k. i \<le> k \<and> k < m \<longrightarrow> \<not> h < orig + Fin (of_nat k) * len"
        proof (intro allI impI)
          fix k assume k: "i \<le> k \<and> k < m"
          show "\<not> h < orig + Fin (of_nat k) * len"
          proof (cases "k = i")
            case True
            with False show ?thesis by simp
          next
            case False
            with k m(4) show ?thesis by auto
          qed
        qed
        from m(1) m(2) m(3) all upt show ?thesis
          by (intro exI [of _ m]) simp
      qed
    qed
  qed
  with prev show ?thesis by blast
qed

section \<open>The model that is built\<close>

lemma buildBurnupModel_unfold:
  "buildBurnupModel P inp =
     (if \<not> isFinite (parseISODate P (devCompletionISO inp)) then
        Some (emptyModel (sprintLenDaysOf inp) (parseISODate P (sprintStartISO inp))
                (parseISODate P (devCompletionISO inp)) (todayMsOf P inp))
      else (case originOf P inp of
              None \<Rightarrow> None
            | Some orig \<Rightarrow>
                (case sprintsOf P inp orig of
                   None \<Rightarrow> None
                 | Some sps \<Rightarrow>
                     Some (assembleModel (sprintLenDaysOf inp) (sprintLenDaysOf inp * DAY_MS) orig
                             (parseISODate P (devCompletionISO inp)) (todayMsOf P inp)
                             (sprintFTEOf inp) sps))))"
  by (simp add: buildBurnupModel_def Let_def sprintLenDaysOf_def todayMsOf_def sprintFTEOf_def
      normalisedStories_def originOf_def sprintsOf_def split: option.splits)

lemma sprints_emptyModel [simp]: "sprints (emptyModel a b c d) = []"
  by (simp add: emptyModel_def Let_def)

lemma assembleModel_fields [simp]:
  "sprints (assembleModel ld lm orig td t f sps) = sps"
  "sprintLengthDays (assembleModel ld lm orig td t f sps) = ld"
  "originMs (assembleModel ld lm orig td t f sps) = orig"
  "targetDateMs (assembleModel ld lm orig td t f sps) = td"
  "todayMs (assembleModel ld lm orig td t f sps) = t"
  "latestScope (assembleModel ld lm orig td t f sps) = (if sps \<noteq> [] then scopeAtEnd (last sps) else Fin 0)"
  "targetScope (assembleModel ld lm orig td t f sps) = computeScopeAtDate sps td"
  "totalDoneStories (assembleModel ld lm orig td t f sps) = (if sps \<noteq> [] then cumDoneEnd (last sps) else Fin 0)"
  "projection (assembleModel ld lm orig td t f sps) =
     computeProjection sps lm f (if sps \<noteq> [] then scopeAtEnd (last sps) else Fin 0)
       (computeScopeAtDate sps td) td"
  by (simp_all add: assembleModel_def Let_def split: prod.splits)

lemma buildBurnupModel_cases:
  assumes "buildBurnupModel P inp = Some m"
  obtains (invalid) "\<not> isFinite (parseISODate P (devCompletionISO inp))"
      "m = emptyModel (sprintLenDaysOf inp) (parseISODate P (sprintStartISO inp))
                (parseISODate P (devCompletionISO inp)) (todayMsOf P inp)"
  | (built) orig sps where "isFinite (parseISODate P (devCompletionISO inp))"
      "originOf P inp = Some orig" "sprintsOf P inp orig = Some sps"
      "m = assembleModel (sprintLenDaysOf inp) (sprintLenDaysOf inp * DAY_MS) orig
             (parseISODate P (devCompletionISO inp)) (todayMsOf P inp) (sprintFTEOf inp) sps"
  using assms unfolding buildBurnupModel_unfold
  by (auto split: if_splits option.splits)

lemma chosenSprint_find: "chosenSprint sps d = find (\<lambda>s. d \<le> endMs s) sps"
  by (induction sps) simp_all


section \<open>Counting scope and done\<close>

lemma Math_min2_Fin [simp]: "Math_min2 (Fin a) (Fin b) = Fin (min a b)"
  by (auto simp: Math_min2_def)

lemma Math_max2_Fin [simp]: "Math_max2 (Fin a) (Fin b) = Fin (max a b)"
  by (auto simp: Math_max2_def)

lemma length_filter_mono:
  "(\<And>x. x \<in> set xs \<Longrightarrow> P x \<Longrightarrow> Q x) \<Longrightarrow> length (filter P xs) \<le> length (filter Q xs)"
  by (induction xs) auto

lemma loop_bounds_finite:
  assumes exit: "h < orig + Fin (of_nat m) * len"
      and stay: "\<not> h < orig + Fin (of_nat k) * len"
      and k: "1 \<le> k" "k < m"
  shows "\<exists>ov lv. orig = Fin ov \<and> len = Fin lv \<and> 0 < lv"
proof -
  from k have pos: "0 < (of_nat k :: rat)" "0 < (of_nat m :: rat)" by simp_all
  show ?thesis
  proof (cases len)
    case (Fin lv)
    show ?thesis
    proof (cases orig)
      case (Fin ov)
      note o = this
      show ?thesis
      proof (cases h)
        case (Fin hv)
        with exit stay o \<open>len = Fin lv\<close>
        have "hv < ov + of_nat m * lv" "ov + of_nat k * lv \<le> hv" by simp_all
        then have lt: "of_nat k * lv < of_nat m * lv" by simp
        have "0 < lv"
        proof (rule ccontr)
          assume "\<not> 0 < lv"
          then have "lv \<le> 0" by simp
          moreover from k have "(of_nat k :: rat) \<le> of_nat m" by simp
          ultimately have "of_nat m * lv \<le> of_nat k * lv" by (rule mult_right_mono_neg [rotated])
          with lt show False by simp
        qed
        with o \<open>len = Fin lv\<close> show ?thesis by simp
      next
        case NaN with exit show ?thesis by simp
      next
        case NegInf
        with exit stay o \<open>len = Fin lv\<close> show ?thesis by simp
      next
        case PosInf with exit o \<open>len = Fin lv\<close> show ?thesis by simp
      qed
    next
      case NaN with exit \<open>len = Fin lv\<close> show ?thesis by simp
    next
      case NegInf with exit \<open>len = Fin lv\<close> show ?thesis by (cases h) simp_all
    next
      case PosInf with exit stay \<open>len = Fin lv\<close> show ?thesis by (cases h) simp_all
    qed
  next
    case NaN with exit show ?thesis by simp
  next
    case NegInf
    with exit pos show ?thesis by (cases orig; cases h) (simp_all add: ofSign_def)
  next
    case PosInf
    with exit stay pos show ?thesis by (cases orig; cases h) (simp_all add: ofSign_def)
  qed
qed

lemma scopeAtEndOf_mono:
  assumes "x \<le> y"
  shows "scopeAtEndOf sts (Fin x) \<le> scopeAtEndOf sts (Fin y)"
  using assms
  by (auto simp: scopeAtEndOf_def intro!: length_filter_mono intro: less_Fin_mono)

lemma doneByEndRawOf_mono:
  assumes "x \<le> y"
  shows "doneByEndRawOf sts (Fin x) \<le> doneByEndRawOf sts (Fin y)"
  using assms
  by (auto simp: doneByEndRawOf_def intro!: length_filter_mono intro: less_Fin_mono)

lemma counts_are_Fin:
  "\<exists>n. scopeAtEndOf sts e = Fin (of_nat n)" "\<exists>n. doneByEndRawOf sts e = Fin (of_nat n)"
  by (simp_all add: scopeAtEndOf_def doneByEndRawOf_def)

lemma cumDone_le_scope:
  "Math_min2 (doneByEndRawOf sts e) (scopeAtEndOf sts e) \<le> scopeAtEndOf sts e"
  by (simp add: scopeAtEndOf_def doneByEndRawOf_def)

lemma cumDone_mono:
  assumes "x \<le> y"
  shows "Math_min2 (doneByEndRawOf sts (Fin x)) (scopeAtEndOf sts (Fin x))
         \<le> Math_min2 (doneByEndRawOf sts (Fin y)) (scopeAtEndOf sts (Fin y))"
proof -
  obtain a b c d where eqs: "doneByEndRawOf sts (Fin x) = Fin (of_nat a)"
      "scopeAtEndOf sts (Fin x) = Fin (of_nat b)"
      "doneByEndRawOf sts (Fin y) = Fin (of_nat c)"
      "scopeAtEndOf sts (Fin y) = Fin (of_nat d)"
    using counts_are_Fin by metis
  from doneByEndRawOf_mono [OF assms, of sts] scopeAtEndOf_mono [OF assms, of sts] eqs
  have "a \<le> c" "b \<le> d" by simp_all
  then have "(min (of_nat a) (of_nat b) :: rat) \<le> min (of_nat c) (of_nat d)"
    by (simp add: min_le_iff_disj)
  with eqs show ?thesis by simp
qed

lemma built_sprints_shape:
  assumes "sprintsOf P inp orig = Some sps"
  shows "\<exists>m. sps = map (bucketAt (normalisedStories P inp) orig (sprintLenDaysOf inp * DAY_MS) (todayMsOf P inp)) [0..<m] \<and>
             (1 < m \<longrightarrow> (\<exists>ov lv. orig = Fin ov \<and> sprintLenDaysOf inp * DAY_MS = Fin lv \<and> 0 < lv))"
proof -
  let ?h = "horizonOf (normalisedStories P inp) orig (todayMsOf P inp)
          (parseISODate P (devCompletionISO inp)) (sprintLenDaysOf inp * DAY_MS)"
  let ?len = "sprintLenDaysOf inp * DAY_MS"
  from assms have run: "sprintLoop (normalisedStories P inp) orig ?len ?h (todayMsOf P inp) 0 (Fin 0) (Fin 0) [] = Some sps"
    by (simp add: sprintsOf_def)
  from sprintLoop_shape [OF run] obtain m where m:
    "sps = map (bucketAt (normalisedStories P inp) orig ?len (todayMsOf P inp)) [0..<m]"
    "?h < orig + Fin (of_nat m) * ?len"
    "\<forall>k. k < m \<longrightarrow> \<not> ?h < orig + Fin (of_nat k) * ?len"
    by auto
  have "\<exists>ov lv. orig = Fin ov \<and> ?len = Fin lv \<and> 0 < lv" if "1 < m"
  proof -
    from that have "m - 1 < m" by simp
    with m(3) have "\<not> ?h < orig + Fin (of_nat (m - 1)) * ?len" by blast
    from loop_bounds_finite [OF m(2) this] that show ?thesis by simp
  qed
  with m(1) show ?thesis by blast
qed

section \<open>The loops of the projection\<close>

lemma findLastClosed_Some:
  assumes "findLastClosed sps n = Some k"
  shows "k < n \<and> isClosed (sps ! k) \<and> (\<forall>j. k < j \<and> j < n \<longrightarrow> \<not> isClosed (sps ! j))"
  using assms
proof (induction n)
  case 0
  then show ?case by simp
next
  case (Suc n)
  show ?case
  proof (cases "isClosed (sps ! n)")
    case True
    with Suc.prems have "k = n" by simp
    with True show ?thesis by auto
  next
    case False
    with Suc.prems have "findLastClosed sps n = Some k" by simp
    from Suc.IH [OF this] False show ?thesis
      by (auto simp: less_Suc_eq)
  qed
qed

lemma findLastClosed_None:
  assumes "findLastClosed sps n = None"
  shows "\<forall>j<n. \<not> isClosed (sps ! j)"
  using assms
  by (induction n) (auto simp: less_Suc_eq split: if_splits)

lemma findLastClosed_iff:
  "findLastClosed sps (length sps) = Some k \<longleftrightarrow> lastClosedAt sps k"
proof
  assume "findLastClosed sps (length sps) = Some k"
  from findLastClosed_Some [OF this] show "lastClosedAt sps k"
    by (simp add: lastClosedAt_def)
next
  assume a: "lastClosedAt sps k"
  show "findLastClosed sps (length sps) = Some k"
  proof (cases "findLastClosed sps (length sps)")
    case None
    from findLastClosed_None [OF this] a show ?thesis
      by (auto simp: lastClosedAt_def)
  next
    case (Some k')
    from findLastClosed_Some [OF this] a have "k' = k"
      by (metis lastClosedAt_def linorder_neqE_nat)
    with Some show ?thesis by simp
  qed
qed

lemma take_diff_Cons: "t < n \<Longrightarrow> take (n - t) (x # xs) = x # take (n - Suc t) xs"
proof -
  assume "t < n"
  then have "n - t = Suc (n - Suc t)" by simp
  then show ?thesis by (simp only: take_Suc_Cons)
qed

lemma nonZeroVelLoop_spec:
  assumes "n \<le> length sps" and "length acc < 2"
  shows "nonZeroVelLoop sps fte n t acc =
           acc @ map (\<lambda>s. doneThisSprint s / fte)
                   (take (2 - length acc)
                      (filter (\<lambda>s. Fin 0 < doneThisSprint s)
                         (take (LOOKBACK_CLOSED - t) (filter isClosed (rev (take n sps))))))"
  using assms
proof (induction n arbitrary: t acc)
  case 0
  then show ?case by simp
next
  case (Suc i)
  then have i: "i < length sps" "i \<le> length sps" by simp_all
  then have rv: "rev (take (Suc i) sps) = sps ! i # rev (take i sps)"
    by (simp add: take_Suc_conv_app_nth)
  show ?case
  proof (cases "t < LOOKBACK_CLOSED")
    case False
    then show ?thesis by simp
  next
    case True
    note t = this
    show ?thesis
    proof (cases "isClosed (sps ! i)")
      case False
      with t Suc.IH [OF i(2) Suc.prems(2)] show ?thesis by (simp add: rv)
    next
      case True
      note closed = this
      show ?thesis
      proof (cases "Fin 0 < doneThisSprint (sps ! i)")
        case False
        with t closed Suc.IH [OF i(2) Suc.prems(2), of "Suc t"] show ?thesis
          by (simp add: rv take_diff_Cons)
      next
        case True
        note pos = this
        show ?thesis
        proof (cases "length acc")
          case 0
          then have "length (acc @ [doneThisSprint (sps ! i) / fte]) < 2" by simp
          from Suc.IH [OF i(2) this, of "Suc t"] 0 t closed pos show ?thesis
            by (simp add: rv take_diff_Cons Let_def)
        next
          case (Suc l)
          with Suc.prems(2) have "length acc = 1" by simp
          with t closed pos show ?thesis
            by (simp add: rv take_diff_Cons Let_def)
        qed
      qed
    qed
  qed
qed

lemma nonZeroVelLoop_samples:
  assumes "k < length sps"
  shows "nonZeroVelLoop sps fte (Suc k) 0 [] = velocitySamples sps k fte"
  using nonZeroVelLoop_spec [of "Suc k" sps "[]" fte 0] assms
  by (simp add: velocitySamples_def closedBackFrom_def LOOKBACK_CLOSED_def)

lemma lastNClosedVals_spec:
  assumes "n \<le> length sps" and "length vals \<le> c"
  shows "lastNClosedVals sps n c vals =
           vals @ map doneThisSprint (take (c - length vals) (filter isClosed (rev (take n sps))))"
  using assms
proof (induction n arbitrary: vals)
  case 0
  then show ?case by simp
next
  case (Suc i)
  then have i: "i < length sps" "i \<le> length sps" by simp_all
  then have rv: "rev (take (Suc i) sps) = sps ! i # rev (take i sps)"
    by (simp add: take_Suc_conv_app_nth)
  show ?case
  proof (cases "length vals < c")
    case False
    with Suc.prems show ?thesis by simp
  next
    case True
    note lt = this
    show ?thesis
    proof (cases "isClosed (sps ! i)")
      case False
      with lt Suc.IH [OF i(2) Suc.prems(2)] show ?thesis by (simp add: rv)
    next
      case True
      from lt have "length (vals @ [doneThisSprint (sps ! i)]) \<le> c" by simp
      from Suc.IH [OF i(2) this] lt True show ?thesis
        by (simp add: rv take_diff_Cons)
    qed
  qed
qed

lemma avgStoriesLastNClosed_spec:
  assumes "k < length sps" and "isClosed (sps ! k)" and "0 < c"
  shows "avgStoriesLastNClosed sps k c =
           Some (averageOf (map doneThisSprint (take c (closedBackFrom sps k))))"
proof -
  from assms(1) have rv: "rev (take (Suc k) sps) = sps ! k # rev (take k sps)"
    by (simp add: take_Suc_conv_app_nth)
  from assms(1) have "lastNClosedVals sps (Suc k) c [] =
      map doneThisSprint (take c (closedBackFrom sps k))"
    using lastNClosedVals_spec [of "Suc k" sps "[]" c] by (simp add: closedBackFrom_def)
  moreover from assms(2,3) have "take c (closedBackFrom sps k) \<noteq> []"
    by (cases c) (simp_all add: closedBackFrom_def rv)
  ultimately show ?thesis
    by (simp add: avgStoriesLastNClosed_def Let_def)
qed

lemma averageOf_one: "averageOf [a] = a"
  by (cases a) (simp_all add: averageOf_def ofSign_def)

lemma averageOf_two: "averageOf [a, b] = (a + b) / Fin 2"
  by (cases a) (simp_all add: averageOf_def)

lemma velocitySamples_length: "length (velocitySamples sps k fte) \<le> 2"
  by (simp add: velocitySamples_def)

lemma lastClosedAt_facts:
  assumes "lastClosedAt sps k"
  shows "sps \<noteq> []" and "findLastClosed sps (length sps) = Some k" and "k < length sps"
    and "avgStoriesLastNClosed sps k 2 =
       Some (averageOf (map doneThisSprint (take 2 (closedBackFrom sps k))))"
proof -
  from assms show k: "k < length sps" and "findLastClosed sps (length sps) = Some k"
    by (simp_all add: findLastClosed_iff) (simp add: lastClosedAt_def)
  from k show "sps \<noteq> []" by auto
  from assms have "isClosed (sps ! k)" by (simp add: lastClosedAt_def)
  with k show "avgStoriesLastNClosed sps k 2 =
       Some (averageOf (map doneThisSprint (take 2 (closedBackFrom sps k))))"
    by (simp add: avgStoriesLastNClosed_spec)
qed

lemma lastClosedAt_samples:
  assumes "lastClosedAt sps k"
  shows "nonZeroVelLoop sps fte (Suc k) 0 [] = velocitySamples sps k fte"
  using assms by (intro nonZeroVelLoop_samples) (simp add: lastClosedAt_def)

lemma velocitySamples_empty:
  assumes "\<forall>s \<in> set (take 8 (closedBackFrom sps k)). \<not> Fin 0 < doneThisSprint s"
  shows "velocitySamples sps k fte = []"
  using assms by (simp add: velocitySamples_def filter_empty_conv)


section \<open>The forecast\<close>

lemma effectiveFTE_Fin:
  "effectiveFTE f = Fin (max (1 / 10) (case f of Fin x \<Rightarrow> x | _ \<Rightarrow> 0))"
  by (cases f) (simp_all add: effectiveFTE_def)

lemma effectiveFTE_positive:
  obtains x where "effectiveFTE f = Fin x" and "0 < x"
proof
  show "effectiveFTE f = Fin (max (1 / 10) (case f of Fin x \<Rightarrow> x | _ \<Rightarrow> 0))"
    by (rule effectiveFTE_Fin)
  show "0 < max (1 / 10) (case f of Fin x \<Rightarrow> x | _ \<Rightarrow> (0::rat))"
    by (simp add: less_max_iff_disj)
qed

lemma effectiveFTE_safe:
  "effectiveFTE (Math_max2 (Fin 0) (if isFinite f then f else Fin 0)) = effectiveFTE f"
  by (cases f) (auto simp: effectiveFTE_def max_def)

lemma recompute_fte:
  "Math_max2 (Fin (1 / 10))
     (if truthy (Math_max2 (Fin 0) (if isFinite f then f else Fin 0))
      then Math_max2 (Fin 0) (if isFinite f then f else Fin 0) else Fin 0) = effectiveFTE f"
  by (cases f) (auto simp: effectiveFTE_def truthy_def max_def)

lemma positive_product:
  assumes "Fin 0 < a * Fin x" and "0 < x"
  shows "\<not> a \<le> Fin 0"
  using assms by (cases a) (auto simp: zero_less_mult_iff ofSign_def)

lemma positive_not_le: "Fin 0 < (a :: number) \<Longrightarrow> \<not> a \<le> Fin 0"
  by (cases a) auto

lemma computeProjection_forecast:
  assumes a: "lastClosedAt sps k"
      and s: "velocitySamples sps k (effectiveFTE f) \<noteq> []"
      and pos: "Fin 0 < averageOf (velocitySamples sps k (effectiveFTE f)) * effectiveFTE f"
  shows "hasSignal (computeProjection sps len f latest target td) \<and>
         fromSprintIndex (computeProjection sps len f latest target td) = Some (Fin (of_nat k)) \<and>
         fromTimeMs (computeProjection sps len f latest target td) = Some (endMs (sps ! k)) \<and>
         fromDone (computeProjection sps len f latest target td) = Some (cumDoneEnd (sps ! k)) \<and>
         avgVelPerFTE (computeProjection sps len f latest target td) =
           Some (averageOf (velocitySamples sps k (effectiveFTE f))) \<and>
         projectedDonePerSprint (computeProjection sps len f latest target td) =
           Some (averageOf (velocitySamples sps k (effectiveFTE f)) * effectiveFTE f) \<and>
         (projectedCompletionMs (computeProjection sps len f latest target td),
          projectedCompletionEarlyMs (computeProjection sps len f latest target td),
          projectedCompletionLateMs (computeProjection sps len f latest target td)) =
           (case completionCone (endMs (sps ! k)) (Math_max2 (Fin 0) (latest - cumDoneEnd (sps ! k)))
                   (averageOf (velocitySamples sps k (effectiveFTE f)) * effectiveFTE f) len of
              (c, e, l) \<Rightarrow> (Some c, Some e, Some l))"
  unfolding computeProjection_def effectiveFTE_def [symmetric] Let_def completionCone_def
  using lastClosedAt_facts [OF a] lastClosedAt_samples [OF a, of "effectiveFTE f"] s pos
  by (simp del: nonZeroVelLoop.simps split: prod.splits)

lemma computeProjection_no_anchor:
  assumes "findLastClosed sps (length sps) = None"
  shows "computeProjection sps len f latest target td = nullProjection"
  by (simp add: computeProjection_def assms)

lemma computeProjection_velocity_cases:
  assumes "projectedDonePerSprint (computeProjection sps len f latest target td) = Some v \<or>
           hasSignal (computeProjection sps len f latest target td)"
  shows "\<exists>k. lastClosedAt sps k \<and> velocitySamples sps k (effectiveFTE f) \<noteq> [] \<and>
             Fin 0 < averageOf (velocitySamples sps k (effectiveFTE f)) * effectiveFTE f"
proof (cases "findLastClosed sps (length sps)")
  case None
  from assms show ?thesis
    unfolding computeProjection_no_anchor [OF None]
    by (simp add: nullProjection_def)
next
  case (Some k)
  then have a: "lastClosedAt sps k" by (simp add: findLastClosed_iff)
  note facts = lastClosedAt_facts [OF a] lastClosedAt_samples [OF a, of "effectiveFTE f"]
  have "velocitySamples sps k (effectiveFTE f) \<noteq> [] \<and>
        Fin 0 < averageOf (velocitySamples sps k (effectiveFTE f)) * effectiveFTE f"
    using assms facts
    unfolding computeProjection_def effectiveFTE_def [symmetric] Let_def
    by (simp del: nonZeroVelLoop.simps split: prod.splits if_splits)
  with a show ?thesis by blast
qed

lemma recompute_unfold:
  assumes "sprints m \<noteq> []" and "hasSignal (projection m)"
      and "fromSprintIndex (projection m) \<noteq> None"
      and "fromTimeMs (projection m) = Some t" and "fromDone (projection m) = Some d"
      and "avgVelPerFTE (projection m) = Some a"
      and pos: "Fin 0 < a * effectiveFTE f"
  shows "recomputeProjectionWithFTE m f =
     (case completionCone t (Math_max2 (Fin 0) (latestScope m - d)) (a * effectiveFTE f)
             (sprintLengthDays m * DAY_MS) of
        (c, e, l) \<Rightarrow>
          m \<lparr> projection :=
                (projection m) \<lparr> hasSignal := True,
                                 projectedDonePerSprint := Some (a * effectiveFTE f),
                                 projectedCompletionMs := Some c,
                                 projectedCompletionEarlyMs := Some e,
                                 projectedCompletionLateMs := Some l \<rparr>,
              isOnTrack :=
                (if isFinite (targetDateMs m) \<and>
                    isFinite (Math_round ((c - targetDateMs m) / DAY_MS))
                 then Some (Math_round ((c - targetDateMs m) / DAY_MS) \<le> Fin 0) else None),
              daysDeltaFromTarget :=
                (if isFinite (targetDateMs m)
                 then Some (Math_round ((c - targetDateMs m) / DAY_MS)) else None) \<rparr>)"
proof -
  obtain x where x: "effectiveFTE f = Fin x" "0 < x" by (rule effectiveFTE_positive)
  from pos x have na: "\<not> a \<le> Fin 0" by (simp add: positive_product)
  from pos have np: "\<not> a * effectiveFTE f \<le> Fin 0" by (rule positive_not_le)
  from assms(3) obtain y where y: "fromSprintIndex (projection m) = Some y" by auto
  show ?thesis
    unfolding recomputeProjectionWithFTE_def recompute_fte Let_def
    using assms(1,2,4-6) y na np
    by (simp add: completionCone_def Let_def split: prod.splits)
qed


lemma assembleModel_onTrack:
  "isOnTrack (assembleModel ld lm orig td t f sps) =
     (let p = computeProjection sps lm f (if sps \<noteq> [] then scopeAtEnd (last sps) else Fin 0)
                (computeScopeAtDate sps td) td
      in if hasSignal p \<and> projectedCompletionMs p \<noteq> None \<and>
            isFinite (Math_round ((the (projectedCompletionMs p) - td) / DAY_MS))
         then Some (Math_round ((the (projectedCompletionMs p) - td) / DAY_MS) \<le> Fin 0)
         else None)"
  "daysDeltaFromTarget (assembleModel ld lm orig td t f sps) =
     (let p = computeProjection sps lm f (if sps \<noteq> [] then scopeAtEnd (last sps) else Fin 0)
                (computeScopeAtDate sps td) td
      in if hasSignal p \<and> projectedCompletionMs p \<noteq> None
         then Some (Math_round ((the (projectedCompletionMs p) - td) / DAY_MS))
         else None)"
  by (simp_all add: assembleModel_def Let_def split: prod.splits)

lemma recompute_no_signal:
  assumes "sprints m = [] \<or> \<not> hasSignal (projection m)"
  shows "recomputeProjectionWithFTE m f = m"
  using assms
proof
  assume "sprints m = []"
  then show ?thesis by (simp add: recomputeProjectionWithFTE_def Let_def)
next
  assume "\<not> hasSignal (projection m)"
  then show ?thesis by (simp add: recomputeProjectionWithFTE_def Let_def)
qed

lemma recompute_built_model:
  assumes td: "isFinite td"
  shows "recomputeProjectionWithFTE
           (assembleModel ld (ld * DAY_MS) orig td t
              (Math_max2 (Fin 0) (if isFinite f then f else Fin 0)) sps) f =
         assembleModel ld (ld * DAY_MS) orig td t
           (Math_max2 (Fin 0) (if isFinite f then f else Fin 0)) sps"
proof -
  let ?f' = "Math_max2 (Fin 0) (if isFinite f then f else Fin 0)"
  let ?m = "assembleModel ld (ld * DAY_MS) orig td t ?f' sps"
  let ?latest = "if sps \<noteq> [] then scopeAtEnd (last sps) else Fin 0"
  let ?p = "computeProjection sps (ld * DAY_MS) ?f' ?latest (computeScopeAtDate sps td) td"
  have pm: "projection ?m = ?p" by simp
  show ?thesis
  proof (cases "hasSignal ?p")
    case False
    then show ?thesis by (intro recompute_no_signal) (simp only: pm, simp)
  next
    case True
    then have "projectedDonePerSprint ?p = Some undefined \<or> hasSignal ?p" by simp
    from computeProjection_velocity_cases [OF this] obtain k where k: "lastClosedAt sps k"
      "velocitySamples sps k (effectiveFTE f) \<noteq> []"
      "Fin 0 < averageOf (velocitySamples sps k (effectiveFTE f)) * effectiveFTE f"
      unfolding effectiveFTE_safe by blast
    let ?a = "averageOf (velocitySamples sps k (effectiveFTE f))"
    let ?t = "endMs (sps ! k)"
    let ?d = "cumDoneEnd (sps ! k)"
    have k': "velocitySamples sps k (effectiveFTE ?f') \<noteq> []"
      "Fin 0 < averageOf (velocitySamples sps k (effectiveFTE ?f')) * effectiveFTE ?f'"
      using k(2,3) unfolding effectiveFTE_safe by simp_all
    note fc = computeProjection_forecast [OF k(1) k', of "ld * DAY_MS" ?latest "computeScopeAtDate sps td" td,
        unfolded effectiveFTE_safe]
    obtain c e l where cone: "completionCone ?t (Math_max2 (Fin 0) (?latest - ?d)) (?a * effectiveFTE f)
        (ld * DAY_MS) = (c, e, l)"
      by (cases "completionCone ?t (Math_max2 (Fin 0) (?latest - ?d)) (?a * effectiveFTE f) (ld * DAY_MS)") auto
    from fc cone have fields: "hasSignal ?p" "fromSprintIndex ?p = Some (Fin (of_nat k))"
      "fromTimeMs ?p = Some ?t" "fromDone ?p = Some ?d" "avgVelPerFTE ?p = Some ?a"
      "projectedDonePerSprint ?p = Some (?a * effectiveFTE f)"
      "projectedCompletionMs ?p = Some c" "projectedCompletionEarlyMs ?p = Some e"
      "projectedCompletionLateMs ?p = Some l"
      by simp_all
    from lastClosedAt_facts(1) [OF k(1)] have ne: "sprints ?m \<noteq> []" by simp
    have r: "recomputeProjectionWithFTE ?m f =
       ?m \<lparr> projection :=
                (projection ?m) \<lparr> hasSignal := True,
                                 projectedDonePerSprint := Some (?a * effectiveFTE f),
                                 projectedCompletionMs := Some c,
                                 projectedCompletionEarlyMs := Some e,
                                 projectedCompletionLateMs := Some l \<rparr>,
              isOnTrack :=
                (if isFinite (targetDateMs ?m) \<and>
                    isFinite (Math_round ((c - targetDateMs ?m) / DAY_MS))
                 then Some (Math_round ((c - targetDateMs ?m) / DAY_MS) \<le> Fin 0) else None),
              daysDeltaFromTarget :=
                (if isFinite (targetDateMs ?m)
                 then Some (Math_round ((c - targetDateMs ?m) / DAY_MS)) else None) \<rparr>"
      using recompute_unfold [of ?m ?t ?d ?a f] ne fields k(3) cone
      by (simp only: pm assembleModel_fields) simp
    have p_same: "(projection ?m) \<lparr> hasSignal := True,
                                 projectedDonePerSprint := Some (?a * effectiveFTE f),
                                 projectedCompletionMs := Some c,
                                 projectedCompletionEarlyMs := Some e,
                                 projectedCompletionLateMs := Some l \<rparr> = projection ?m"
      unfolding pm using fields by (intro BurnupProjection.equality) simp_all
    have track: "isOnTrack ?m =
        (if isFinite (targetDateMs ?m) \<and> isFinite (Math_round ((c - targetDateMs ?m) / DAY_MS))
         then Some (Math_round ((c - targetDateMs ?m) / DAY_MS) \<le> Fin 0) else None)"
      "daysDeltaFromTarget ?m =
        (if isFinite (targetDateMs ?m) then Some (Math_round ((c - targetDateMs ?m) / DAY_MS)) else None)"
      using fields td by (simp_all add: assembleModel_onTrack Let_def)
    show ?thesis
      unfolding r p_same track [symmetric] by simp
  qed
qed

section \<open>Rounding to a double\<close>

lemma bitLength_lower:
  assumes "0 < k"
  shows "2 ^ (bitLength k - 1) \<le> k"
  using assms
proof (induction k rule: bitLength.induct)
  case (1 k)
  show ?case
  proof (cases "k = 1")
    case True
    then show ?thesis by (simp add: bitLength.simps [of 1] bitLength.simps [of 0])
  next
    case False
    with 1(2) have h: "0 < k div 2" by simp
    from 1(2) have "\<not> k \<le> 0" by simp
    from 1(1) [OF this h] have ih: "2 ^ (bitLength (k div 2) - 1) \<le> k div 2" .
    from h have "bitLength (k div 2) \<noteq> 0" by (simp add: bitLength.simps [of "k div 2"])
    then have "bitLength k - 1 = Suc (bitLength (k div 2) - 1)"
      using 1(2) by (simp add: bitLength.simps [of k])
    then have "(2::int) ^ (bitLength k - 1) = 2 * 2 ^ (bitLength (k div 2) - 1)" by simp
    also from ih have "\<dots> \<le> 2 * (k div 2)" by simp
    also have "\<dots> \<le> k" by simp
    finally show ?thesis .
  qed
qed

lemma bitLength_positive: "0 < k \<Longrightarrow> 0 < bitLength k"
  by (simp add: bitLength.simps [of k])

lemma roundTiesToEven_of_int [simp]: "roundTiesToEven (of_int j) = j"
  by (simp add: roundTiesToEven_def)

lemma toDouble_of_nat:
  assumes "n < 9007199254740992"
  shows "toDouble (of_nat n) = Fin (of_nat n)"
proof (cases "n = 0")
  case True
  then show ?thesis by (simp add: toDouble_def)
next
  case False
  then have pos: "0 < int n" by simp
  define b where "b = bitLength (int n)"
  from bitLength_positive [OF pos] have b1: "0 < b" by (simp add: b_def)
  from bitLength_lower [OF pos] have "(2::int) ^ (b - 1) \<le> int n" by (simp add: b_def)
  also from assms have "int n < 2 ^ 53" by simp
  finally have "(2::int) ^ (b - 1) < 2 ^ 53" .
  then have b53: "b - 1 < 53" by (rule power_less_imp_less_exp [rotated]) simp
  have e: "exponentOf (of_nat n) = int b - 1"
    using False by (simp add: exponentOf_def b_def)
  define j where "j = 52 - (b - 1)"
  from b1 b53 have u: "twoTo (max (int b - 1) (- 1022) - 52) = 1 / 2 ^ j"
    by (auto simp: twoTo_def j_def max_def nat_diff_distrib)
  have q: "(of_nat n :: rat) / (1 / 2 ^ j) = of_int (int n * 2 ^ j)" by simp
  from b53 have b54: "b \<le> 53" by arith
  from b1 b54 have small: "\<not> (1023 < max (int b - 1) (- 1022) \<or>
      (max (int b - 1) (- 1022) = 1023 \<and> \<bar>int n * 2 ^ j\<bar> = 9007199254740992))"
    by (simp add: max_def)
  from False show ?thesis
    unfolding toDouble_def Let_def e u q roundTiesToEven_of_int
    using small by simp
qed

lemma rounded_decrement:
  assumes "n < 9007199254740992"
  shows "rounded (Fin (of_nat (Suc n)) - Fin 1) = Fin (of_nat n)"
  by (simp add: toDouble_of_nat [OF assms])


section \<open>Subtracting working days\<close>

lemma mod7_cases: "(e::int) mod 7 = 0 \<or> e mod 7 = 1 \<or> e mod 7 = 2 \<or> e mod 7 = 3 \<or> e mod 7 = 4 \<or> e mod 7 = 5 \<or> e mod 7 = 6"
proof -
  have "0 \<le> e mod 7" "e mod 7 < 7" by simp_all
  then show ?thesis by arith
qed

lemma isWeekend_mod: "isWeekend e = (e mod 7 = 2 \<or> e mod 7 = 3)"
proof -
  have "(e + 4) mod 7 = (e mod 7 + 4) mod 7" by (simp add: mod_add_left_eq)
  with mod7_cases [of e] show ?thesis
    unfolding isWeekend_def by auto
qed

lemma mod7_pred: "((e::int) - 1) mod 7 = (if e mod 7 = 0 then 6 else e mod 7 - 1)"
proof -
  have "(e - 1) mod 7 = (e mod 7 - 1) mod 7" by (simp add: mod_diff_left_eq)
  with mod7_cases [of e] show ?thesis by auto
qed

lemma no_three_weekend_days:
  assumes "isWeekend (d - 1)" and "isWeekend (d - 2)"
  shows "\<not> isWeekend (d - 3)"
proof -
  have e2: "d - 2 = d - 1 - 1" and e3: "d - 3 = d - 1 - 1 - 1" by simp_all
  from assms show ?thesis
    unfolding isWeekend_mod e2 e3 mod7_pred [of "d - 1"] mod7_pred [of "d - 1 - 1"]
    using mod7_cases [of "d - 1"] by (auto split: if_splits)
qed

lemma previousWorkingDay_bounds:
  "d - 3 \<le> previousWorkingDay d \<and> previousWorkingDay d < d \<and> \<not> isWeekend (previousWorkingDay d)"
  using no_three_weekend_days [of d]
  by (auto simp: previousWorkingDay_def)

lemma previousWorkingDay_between:
  assumes "previousWorkingDay d < x" and "x < d"
  shows "isWeekend x"
proof (cases "isWeekend (d - 1)")
  case False
  with assms show ?thesis by (simp add: previousWorkingDay_def)
next
  case True
  note w1 = this
  show ?thesis
  proof (cases "isWeekend (d - 2)")
    case False
    with w1 assms have "x = d - 1" by (simp add: previousWorkingDay_def)
    with w1 show ?thesis by simp
  next
    case True
    with w1 assms have "x = d - 1 \<or> x = d - 2" by (auto simp: previousWorkingDay_def)
    with w1 True show ?thesis by auto
  qed
qed

lemma weekdays_since_previous:
  "{x. previousWorkingDay d \<le> x \<and> x < d \<and> \<not> isWeekend x} = {previousWorkingDay d}"
proof -
  have "x = previousWorkingDay d"
    if "previousWorkingDay d \<le> x" "x < d" "\<not> isWeekend x" for x
  proof (rule ccontr)
    assume "x \<noteq> previousWorkingDay d"
    with that(1) have "previousWorkingDay d < x" by simp
    from previousWorkingDay_between [OF this that(2)] that(3) show False by simp
  qed
  with previousWorkingDay_bounds [of d] show ?thesis by auto
qed

lemma workingDaysBefore_counts:
  assumes "0 < n"
  shows "\<not> isWeekend (workingDaysBefore n d) \<and> workingDaysBefore n d < d \<and>
         card {x. workingDaysBefore n d \<le> x \<and> x < d \<and> \<not> isWeekend x} = n"
  using assms
proof (induction n arbitrary: d)
  case 0
  then show ?case by simp
next
  case (Suc n)
  let ?p = "previousWorkingDay d"
  note pb = previousWorkingDay_bounds [of d]
  show ?case
  proof (cases "n = 0")
    case True
    with pb show ?thesis by (simp add: weekdays_since_previous)
  next
    case False
    then have "0 < n" by simp
    from Suc.IH [OF this, of ?p] have ih: "\<not> isWeekend (workingDaysBefore n ?p)"
      "workingDaysBefore n ?p < ?p"
      "card {x. workingDaysBefore n ?p \<le> x \<and> x < ?p \<and> \<not> isWeekend x} = n"
      by simp_all
    let ?r = "workingDaysBefore n ?p"
    have split: "{x. ?r \<le> x \<and> x < d \<and> \<not> isWeekend x} =
        {x. ?r \<le> x \<and> x < ?p \<and> \<not> isWeekend x} \<union> {x. ?p \<le> x \<and> x < d \<and> \<not> isWeekend x}"
      using ih(2) pb by auto
    have fin: "finite {x. ?r \<le> x \<and> x < ?p \<and> \<not> isWeekend x}"
      by (rule finite_subset [of _ "{?r..<?p}"]) auto
    have notin: "?p \<notin> {x. ?r \<le> x \<and> x < ?p \<and> \<not> isWeekend x}" by simp
    have "card {x. ?r \<le> x \<and> x < d \<and> \<not> isWeekend x} = Suc n"
      unfolding split weekdays_since_previous using fin notin ih(3) by simp
    with ih(1) ih(2) pb show ?thesis by simp
  qed
qed

lemma toInteger_of_int [simp]: "toInteger (of_int x) = x"
  by (simp add: toInteger_def)

lemma getUTCDay_msOfDay:
  assumes "validDay d"
  shows "getUTCDay (msOfDay d) = Fin (of_int ((d + 4) mod 7))"
proof -
  have eq: "of_int d * (86400000 :: rat) = of_int (d * 86400000)" by simp
  from assms have "\<bar>d * 86400000\<bar> \<le> 8640000000000000"
    by (simp add: validDay_def abs_le_iff)
  then have "\<bar>of_int (d * 86400000) :: rat\<bar> \<le> 8640000000000000"
    by (simp only: of_int_abs [symmetric] of_int_le_numeral_iff)
  then have range: "\<not> maxTimeValue < \<bar>of_int d * (86400000 :: rat)\<bar>"
    unfolding eq maxTimeValue_def by simp
  have "toInteger (of_int d * 86400000) = d * 86400000"
    unfolding eq by (rule toInteger_of_int)
  then have fl: "\<lfloor>of_int (toInteger (of_int d * 86400000)) / (86400000 :: rat)\<rfloor> = d"
    by simp
  show ?thesis
    unfolding msOfDay_def getUTCDay.simps using range by (simp only: fl if_False)
qed

lemma weekend_by_getUTCDay:
  assumes "validDay d"
  shows "(\<not> strictEq (getUTCDay (msOfDay d)) (Fin 0) \<and> \<not> strictEq (getUTCDay (msOfDay d)) (Fin 6))
           = (\<not> isWeekend d)"
  using assms by (simp add: getUTCDay_msOfDay strictEq_def isWeekend_def)

lemma msOfDay_minus_DAY: "msOfDay d - DAY_MS = msOfDay (d - 1)"
  by (simp add: msOfDay_def DAY_MS_value algebra_simps)

lemma subtractLoop_done: "subtractLoop ms (Fin 0) = Some ms"
  by (subst subtractLoop.simps) simp

lemma subtractLoop_weekday:
  assumes "validDay e" and "e = d - 1" and "\<not> isWeekend e" and "n < 9007199254740992"
  shows "subtractLoop (msOfDay d) (Fin (of_nat (Suc n))) = subtractLoop (msOfDay e) (Fin (of_nat n))"
proof -
  have pos: "Fin 0 < Fin (of_nat (Suc n))" by simp
  have dec: "rounded (Fin (of_nat (Suc n)) - Fin 1) = Fin (of_nat n)"
    by (rule rounded_decrement [OF assms(4)])
  from assms have wk: "\<not> strictEq (getUTCDay (msOfDay (d - 1))) (Fin 0) \<and>
      \<not> strictEq (getUTCDay (msOfDay (d - 1))) (Fin 6)"
    by (simp add: weekend_by_getUTCDay)
  show ?thesis
    by (subst subtractLoop.simps)
       (simp only: pos if_True Let_def msOfDay_minus_DAY wk dec assms(2) simp_thms)
qed

lemma subtractLoop_weekend:
  assumes "validDay e" and "e = d - 1" and "isWeekend e"
  shows "subtractLoop (msOfDay d) (Fin (of_nat (Suc n))) = subtractLoop (msOfDay e) (Fin (of_nat (Suc n)))"
proof -
  have pos: "Fin 0 < Fin (of_nat (Suc n))" by simp
  from assms have wk: "\<not> (\<not> strictEq (getUTCDay (msOfDay (d - 1))) (Fin 0) \<and>
      \<not> strictEq (getUTCDay (msOfDay (d - 1))) (Fin 6))"
    by (simp add: weekend_by_getUTCDay)
  show ?thesis
    by (subst subtractLoop.simps)
       (simp only: pos if_True if_False Let_def msOfDay_minus_DAY wk assms(2) simp_thms)
qed

lemma subtractLoop_one:
  assumes "validDay (d - 3)" and "validDay d" and b: "n < 9007199254740992"
  shows "subtractLoop (msOfDay d) (Fin (of_nat (Suc n))) =
           subtractLoop (msOfDay (previousWorkingDay d)) (Fin (of_nat n))"
proof -
  from assms have v: "validDay (d - 1)" "validDay (d - 2)" "validDay (d - 3)"
    by (simp_all add: validDay_def)
  show ?thesis
  proof (cases "isWeekend (d - 1)")
    case False
    then have "previousWorkingDay d = d - 1" by (simp add: previousWorkingDay_def)
    with subtractLoop_weekday [OF v(1) refl False b] show ?thesis by simp
  next
    case True
    note w1 = this
    note s1 = subtractLoop_weekend [OF v(1) _ w1, of d n, OF refl]
    show ?thesis
    proof (cases "isWeekend (d - 2)")
      case False
      with w1 have p: "previousWorkingDay d = d - 2" by (simp add: previousWorkingDay_def)
      have "subtractLoop (msOfDay (d - 1)) (Fin (of_nat (Suc n))) =
            subtractLoop (msOfDay (d - 2)) (Fin (of_nat n))"
        by (rule subtractLoop_weekday [OF v(2) _ False b]) simp
      with s1 show ?thesis unfolding p by (rule trans)
    next
      case True
      note w2 = this
      from w1 w2 have w3: "\<not> isWeekend (d - 3)"
        by (rule no_three_weekend_days)
      from w1 w2 have p: "previousWorkingDay d = d - 3" by (simp add: previousWorkingDay_def)
      have s2: "subtractLoop (msOfDay (d - 1)) (Fin (of_nat (Suc n))) =
            subtractLoop (msOfDay (d - 2)) (Fin (of_nat (Suc n)))"
        by (rule subtractLoop_weekend [OF v(2) _ w2]) simp
      have s3: "subtractLoop (msOfDay (d - 2)) (Fin (of_nat (Suc n))) =
            subtractLoop (msOfDay (d - 3)) (Fin (of_nat n))"
        by (rule subtractLoop_weekday [OF v(3) _ w3 b]) simp
      from s1 s2 s3 show ?thesis unfolding p by (simp only:)
    qed
  qed
qed

lemma workingDaysBefore_bounds: "d - 3 * int n \<le> workingDaysBefore n d \<and> workingDaysBefore n d \<le> d"
proof (induction n arbitrary: d)
  case 0
  show ?case by simp
next
  case (Suc n)
  from Suc.IH [of "previousWorkingDay d"] previousWorkingDay_bounds [of d]
  show ?case by simp
qed

lemma subtractLoop_workingDays:
  assumes "validDay (d - 3 * int n)" and "validDay d"
  shows "subtractLoop (msOfDay d) (Fin (of_nat n)) = Some (msOfDay (workingDaysBefore n d))"
  using assms
proof (induction n arbitrary: d)
  case 0
  show ?case by (simp add: subtractLoop_done)
next
  case (Suc n)
  from Suc.prems have v: "validDay (d - 3)" "validDay d"
    by (simp_all add: validDay_def)
  from Suc.prems previousWorkingDay_bounds [of d]
  have v': "validDay (previousWorkingDay d - 3 * int n)" "validDay (previousWorkingDay d)"
    by (simp_all add: validDay_def)
  from Suc.prems have b: "n < 9007199254740992"
    by (simp add: validDay_def)
  from subtractLoop_one [OF v b] Suc.IH [OF v'] show ?case by simp
qed

section \<open>The origin\<close>

lemma dayOf_msOfDay [simp]: "dayOf (msOfDay d) = d"
  by (simp add: msOfDay_def)

lemma epochDayFloorMs_Fin: "epochDayFloorMs (Fin x) = msOfDay \<lfloor>x / 86400000\<rfloor>"
  by (simp add: epochDayFloorMs_def DAY_MS_value msOfDay_def)

lemma epochDayFloorMs_msOfDay [simp]: "epochDayFloorMs (msOfDay d) = msOfDay d"
proof -
  have "epochDayFloorMs (Fin (of_int d * 86400000)) = msOfDay \<lfloor>(of_int d * 86400000 :: rat) / 86400000\<rfloor>"
    by (rule epochDayFloorMs_Fin)
  then show ?thesis by (simp add: msOfDay_def)
qed

lemma isFinite_msOfDay [simp]: "isFinite (msOfDay d)"
  by (simp add: msOfDay_def)

lemma parseJiraDate_aligned:
  assumes "isFinite (parseJiraDate P v)"
  shows "\<exists>d. parseJiraDate P v = msOfDay d"
proof (cases "Date_parse P v")
  case (Fin x)
  with assms show ?thesis
    by (auto simp: parseJiraDate_def Let_def epochDayFloorMs_Fin split: if_splits)
qed (use assms in \<open>auto simp: parseJiraDate_def Let_def split: if_splits\<close>)

lemma normaliseIssue_aligned:
  assumes "normaliseIssue P issue = Some s"
  shows "(\<exists>d. createdMs s = msOfDay d) \<and> (\<forall>r. resolvedMs s = Some r \<longrightarrow> (\<exists>d. r = msOfDay d))"
proof -
  from assms have fin: "isFinite (parseJiraDate P (created issue))"
    by (auto simp: normaliseIssue_def Let_def split: if_splits)
  from parseJiraDate_aligned [OF fin] obtain dc where dc: "parseJiraDate P (created issue) = msOfDay dc"
    by blast
  from assms dc have c: "createdMs s = msOfDay dc"
    by (auto simp: normaliseIssue_def Let_def split: if_splits)
  have "\<exists>d. r = msOfDay d" if r: "resolvedMs s = Some r" for r
  proof -
    from assms r dc have "r = msOfDay dc \<or>
        (\<exists>v. resolutiondate issue = Some v \<and> isFinite (parseJiraDate P v) \<and> r = parseJiraDate P v)"
      by (auto simp: normaliseIssue_def Let_def split: if_splits option.splits)
    with parseJiraDate_aligned show ?thesis by metis
  qed
  with c show ?thesis by blast
qed

lemma normalisedStories_aligned:
  assumes "s \<in> set (normalisedStories P inp)"
  shows "(\<exists>d. createdMs s = msOfDay d) \<and> (\<forall>r. resolvedMs s = Some r \<longrightarrow> (\<exists>d. r = msOfDay d))"
proof -
  from assms obtain issue where "normaliseIssue P issue = Some s"
    by (auto simp: normalisedStories_def List.map_filter_def)
  then show ?thesis by (rule normaliseIssue_aligned)
qed

lemma Math_min2_msOfDay: "Math_min2 (msOfDay a) (msOfDay b) = msOfDay (min a b)"
  by (simp add: msOfDay_def min_def)

lemma foldl_min_msOfDay:
  "foldl Math_min2 (msOfDay a) (map msOfDay ds) = msOfDay (Min (set (a # ds)))"
proof (induction ds arbitrary: a)
  case Nil
  show ?case by simp
next
  case (Cons d ds)
  have "Min (set (min a d # ds)) = Min (set (a # d # ds))"
    by (cases "ds = []") (simp_all add: min.assoc)
  with Cons.IH [of "min a d"] show ?case
    by (simp add: Math_min2_msOfDay)
qed

lemma Math_min_msOfDay:
  assumes "ds \<noteq> []"
  shows "Math_min (map msOfDay ds) = msOfDay (Min (set ds))"
proof -
  from assms obtain d ds' where ds: "ds = d # ds'" by (cases ds) auto
  have "Math_min2 PosInf (msOfDay d) = msOfDay d"
    by (simp add: Math_min2_def msOfDay_def)
  then show ?thesis
    unfolding ds Math_min_def by (simp add: foldl_min_msOfDay)
qed

lemma earliestDoneMs_aligned:
  assumes "validDoneOf (normalisedStories P inp) \<noteq> []"
  shows "Math_min (map (\<lambda>s. the (resolvedMs s)) (validDoneOf (normalisedStories P inp))) =
           msOfDay (earliestDoneDay (normalisedStories P inp))"
proof -
  let ?vd = "validDoneOf (normalisedStories P inp)"
  have "the (resolvedMs s) = msOfDay (dayOf (the (resolvedMs s)))" if "s \<in> set ?vd" for s
  proof -
    from that have "s \<in> set (normalisedStories P inp)" "resolvedMs s \<noteq> None"
      by (simp_all add: validDoneOf_def)
    with normalisedStories_aligned [of s P inp] obtain d where "resolvedMs s = Some (msOfDay d)"
      by auto
    then show ?thesis by simp
  qed
  then have eq: "map (\<lambda>s. the (resolvedMs s)) ?vd = map msOfDay (map (\<lambda>s. dayOf (the (resolvedMs s))) ?vd)"
    by simp
  from assms have ne: "map (\<lambda>s. dayOf (the (resolvedMs s))) ?vd \<noteq> []" by simp
  show ?thesis
    unfolding eq earliestDoneDay_def by (rule Math_min_msOfDay [OF ne])
qed

lemma workingDays_left: "Math_max2 (Fin 0) (Math_floor (Fin (of_nat n))) = Fin (of_nat n)"
  by (simp add: Math_max2_def)

lemma deriveOrigin_validDone:
  assumes vd: "validDoneOf sts \<noteq> []"
      and e: "Math_min (map (\<lambda>s. the (resolvedMs s)) (validDoneOf sts)) = msOfDay d"
      and count: "workingDaysCount l = Fin (of_nat n)"
      and range: "validDay (d - 3 * int n)" "validDay d"
  shows "deriveOrigin (Fin l) ui today sts = Some (msOfDay (workingDaysBefore n d))"
proof -
  from vd have ne: "sts \<noteq> []" by (auto simp: validDoneOf_def)
  have w: "subtractWorkingDaysUTC (msOfDay d)
        (Math_max2 (Fin 1) (Math_round (rounded (rounded (Fin l * Fin 5) / Fin 7)))) =
      Some (msOfDay (workingDaysBefore n d))"
    unfolding workingDaysCount_def [symmetric] count subtractWorkingDaysUTC_def workingDays_left
      epochDayFloorMs_msOfDay
    by (rule subtractLoop_workingDays [OF range])
  show ?thesis
    unfolding deriveOrigin_def Let_def validDoneOf_def [symmetric] e w
    using ne vd by (simp only: if_False if_True simp_thms)
qed


text \<open>
  The count follows the doubles of the code. For the double nearest to 6.3 the product is
  31.5 and the quotient 4.5, which \<^verbatim>\<open>Math.round\<close> takes to 5; the exact quotient lies
  below 4.5.
\<close>

lemma workingDaysCount_of_double:
  "workingDaysCount (7093169413108531 / 1125899906842624) = Fin 5"
  "rounded (Fin (7093169413108531 / 1125899906842624) * Fin 5) = Fin (63 / 2)"
  "rounded (Fin (63 / 2) / Fin 7) = Fin (9 / 2)"
  "Math_round (Fin (7093169413108531 / 1125899906842624) * Fin 5 / Fin 7) = Fin 4"
  by code_simp+

lemma workingDaysCount_positive:
  assumes "workingDaysCount l = Fin (of_nat n)"
  shows "0 < n"
proof -
  define b where "b = Math_round (rounded (rounded (Fin l * Fin 5) / Fin 7))"
  from assms have "Math_max2 (Fin 1) b = Fin (of_nat n)"
    by (simp add: workingDaysCount_def b_def)
  then have "(1::rat) \<le> of_nat n"
    by (cases b) (auto simp: Math_max2_def split: if_splits)
  then show ?thesis by (cases n) simp_all
qed


section \<open>Normalising an issue\<close>

text \<open>A no-break space after the status text is trimmed away like a space.\<close>

lemma trim_no_break_space: "trim (''Done'' @ [CHR 0xA0]) = ''Done''"
  by code_simp

lemma normaliseIssue_synthesises_done:
  assumes created: "created issue \<noteq> []" "parseJiraDate P (created issue) = Fin c" "c \<noteq> 0"
      and unresolved: "resolutiondate issue = None \<or> resolutiondate issue = Some [] \<or>
            (\<exists>r. resolutiondate issue = Some r \<and> \<not> isFinite (parseJiraDate P r))"
      and kept: "\<not> str_includes (toUpperCase (trim (case status issue of None \<Rightarrow> [] | Some s \<Rightarrow> s))) ''WITHDRAWN''"
            "\<not> str_includes (toUpperCase (trim (case status issue of None \<Rightarrow> [] | Some s \<Rightarrow> s))) ''CANCELLED''"
      and marked: "statusCategory issue = Some Done \<or>
            toUpperCase (trim (case status issue of None \<Rightarrow> [] | Some s \<Rightarrow> s)) = ''DONE''"
  shows "normaliseIssue P issue =
           Some \<lparr> createdMs = Fin c, resolvedMs = Some (Fin c), isDone = True, isCancelled = False \<rparr>"
  using assms
  by (auto simp: normaliseIssue_def Let_def truthyOpt_def truthy_def split: option.splits)

lemma synthesised_done_is_counted:
  assumes "s = \<lparr> createdMs = Fin c, resolvedMs = Some (Fin c), isDone = True, isCancelled = False \<rparr>"
      and "Fin c < endMs'"
  shows "doneByEndRawOf [s] endMs' = Fin 1" and "scopeAtEndOf [s] endMs' = Fin 1"
  using assms by (simp_all add: doneByEndRawOf_def scopeAtEndOf_def)

lemma done_prefix_does_not_synthesise:
  assumes "created issue \<noteq> []" and "isFinite (parseJiraDate P (created issue))"
      and "resolutiondate issue = None" and "statusCategory issue \<noteq> Some Done"
      and "toUpperCase (trim (case status issue of None \<Rightarrow> [] | Some s \<Rightarrow> s)) \<noteq> ''DONE''"
  shows "\<exists>s. normaliseIssue P issue = Some s \<and> resolvedMs s = None \<and> \<not> isDone s"
  using assms
  by (auto simp: normaliseIssue_def Let_def truthyOpt_def split: option.splits)


section \<open>A reference day that is not a number\<close>

lemma Math_max2_NaN [simp]: "Math_max2 NaN b = NaN" "Math_max2 a NaN = NaN"
  by (simp_all add: Math_max2_def)

lemma horizonOf_NaN_today: "horizonOf sts orig NaN td len = NaN"
  by (simp add: horizonOf_def Let_def Math_max_def)

lemma unparseable_today_never_returns:
  assumes "isFinite (parseISODate P (devCompletionISO inp))" and "todayMsOf P inp = NaN"
  shows "buildBurnupModel P inp = None"
  unfolding buildBurnupModel_unfold sprintsOf_def
  using assms
  by (simp add: horizonOf_NaN_today sprintLoop_NaN_horizon split: option.splits)

section \<open>The build returns when the reference day and the sprint length are finite\<close>

text \<open>
  The working-day loop returns when its counter starts at \<^verbatim>\<open>2^53\<close> or less, where
  \<^verbatim>\<open>left -= 1\<close> is exact; the sprint loop returns when its horizon is finite and the sprint
  length positive.
\<close>

lemma getUTCDay_invalid:
  assumes "\<not> validDay d"
  shows "getUTCDay (msOfDay d) = NaN"
proof -
  from assms have "8640000000000000 < \<bar>d * 86400000\<bar>"
    by (auto simp: validDay_def abs_if)
  then have "(8640000000000000 :: rat) < \<bar>of_int (d * 86400000)\<bar>"
    by (simp only: of_int_abs [symmetric] of_int_numeral_less_iff)
  then show ?thesis
    by (simp add: msOfDay_def maxTimeValue_def)
qed

lemma subtractLoop_invalid_day:
  assumes "\<not> validDay (d - 1)" and "n < 9007199254740992"
  shows "subtractLoop (msOfDay d) (Fin (of_nat (Suc n))) = subtractLoop (msOfDay (d - 1)) (Fin (of_nat n))"
proof -
  have pos: "Fin 0 < Fin (of_nat (Suc n))" by simp
  have dec: "rounded (Fin (of_nat (Suc n)) - Fin 1) = Fin (of_nat n)"
    by (rule rounded_decrement [OF assms(2)])
  have wk: "\<not> strictEq (getUTCDay (msOfDay (d - 1))) (Fin 0) \<and>
      \<not> strictEq (getUTCDay (msOfDay (d - 1))) (Fin 6)"
    by (simp add: getUTCDay_invalid [OF assms(1)] strictEq_def)
  show ?thesis
    by (subst subtractLoop.simps)
       (simp only: pos if_True Let_def msOfDay_minus_DAY wk dec simp_thms)
qed

lemma subtractLoop_progress:
  assumes b: "n < 9007199254740992"
  shows "\<exists>e. subtractLoop (msOfDay d) (Fin (of_nat (Suc n))) = subtractLoop (msOfDay e) (Fin (of_nat n))"
proof -
  have one: "(\<exists>e. subtractLoop (msOfDay d) (Fin (of_nat (Suc n))) = subtractLoop (msOfDay e) (Fin (of_nat n))) \<or>
      subtractLoop (msOfDay d) (Fin (of_nat (Suc n))) = subtractLoop (msOfDay (d - 1)) (Fin (of_nat (Suc n))) \<and>
      validDay (d - 1) \<and> isWeekend (d - 1)" for d
  proof (cases "validDay (d - 1)")
    case False
    from subtractLoop_invalid_day [OF this b] show ?thesis by blast
  next
    case True
    show ?thesis
    proof (cases "isWeekend (d - 1)")
      case False
      from subtractLoop_weekday [OF True refl False b] show ?thesis by blast
    next
      case w: True
      from subtractLoop_weekend [OF True refl w] True w show ?thesis by blast
    qed
  qed
  from one [of d] show ?thesis
  proof
    assume "\<exists>e. subtractLoop (msOfDay d) (Fin (of_nat (Suc n))) = subtractLoop (msOfDay e) (Fin (of_nat n))"
    then show ?thesis .
  next
    assume "subtractLoop (msOfDay d) (Fin (of_nat (Suc n))) = subtractLoop (msOfDay (d - 1)) (Fin (of_nat (Suc n))) \<and>
      validDay (d - 1) \<and> isWeekend (d - 1)"
    then have s1: "subtractLoop (msOfDay d) (Fin (of_nat (Suc n))) = subtractLoop (msOfDay (d - 1)) (Fin (of_nat (Suc n)))"
      and w1: "isWeekend (d - 1)" by simp_all
    from one [of "d - 1"] show ?thesis
    proof
      assume "\<exists>e. subtractLoop (msOfDay (d - 1)) (Fin (of_nat (Suc n))) = subtractLoop (msOfDay e) (Fin (of_nat n))"
      then obtain e where "subtractLoop (msOfDay (d - 1)) (Fin (of_nat (Suc n))) = subtractLoop (msOfDay e) (Fin (of_nat n))"
        by blast
      with s1 show ?thesis by (intro exI [of _ e]) (simp only:)
    next
      assume "subtractLoop (msOfDay (d - 1)) (Fin (of_nat (Suc n))) =
          subtractLoop (msOfDay (d - 1 - 1)) (Fin (of_nat (Suc n))) \<and>
        validDay (d - 1 - 1) \<and> isWeekend (d - 1 - 1)"
      then have s2: "subtractLoop (msOfDay (d - 1)) (Fin (of_nat (Suc n))) =
          subtractLoop (msOfDay (d - 2)) (Fin (of_nat (Suc n)))"
        and w2: "isWeekend (d - 2)" by simp_all
      from no_three_weekend_days [OF w1 w2] have w3: "\<not> isWeekend (d - 3)" .
      from one [of "d - 2"] w3 obtain e where
        "subtractLoop (msOfDay (d - 2)) (Fin (of_nat (Suc n))) = subtractLoop (msOfDay e) (Fin (of_nat n))"
        by auto
      with s1 s2 show ?thesis by (intro exI [of _ e]) (simp only:)
    qed
  qed
qed

lemma subtractLoop_returns:
  assumes "n \<le> 9007199254740992"
  shows "\<exists>e. subtractLoop (msOfDay d) (Fin (of_nat n)) = Some (msOfDay e)"
  using assms
proof (induction n arbitrary: d)
  case 0
  have "subtractLoop (msOfDay d) (Fin (of_nat 0)) = Some (msOfDay d)"
    by (simp add: subtractLoop_done)
  then show ?case by blast
next
  case (Suc n)
  from Suc.prems have b: "n < 9007199254740992" "n \<le> 9007199254740992" by simp_all
  from subtractLoop_progress [OF b(1), of d] obtain e where
    e: "subtractLoop (msOfDay d) (Fin (of_nat (Suc n))) = subtractLoop (msOfDay e) (Fin (of_nat n))"
    by blast
  from Suc.IH [OF b(2), of e] obtain e' where "subtractLoop (msOfDay e) (Fin (of_nat n)) = Some (msOfDay e')"
    by blast
  with e show ?case by (intro exI [of _ e']) (simp only:)
qed

text \<open>
  Above \<^verbatim>\<open>2^53\<close> the counter may stay where it is: \<^verbatim>\<open>9007199254740996 - 1\<close> is
  \<^verbatim>\<open>9007199254740996\<close> again, and the loop does not return.
\<close>

lemma subtractLoop_counter_not_stuck:
  assumes "subtractLoop ms left = Some r"
  shows "left \<noteq> Fin 9007199254740996"
proof (rule subtractLoop.raw_induct [where P = "\<lambda>_ left _. left \<noteq> Fin 9007199254740996", OF _ assms])
  fix loop ms left r
  assume IH: "\<And>ms left y. loop ms left = Some y \<Longrightarrow> left \<noteq> Fin 9007199254740996"
    and body: "(if Fin 0 < left then
        (let ms' = ms - DAY_MS;
             dow = getUTCDay ms'
         in loop ms'
              (if \<not> strictEq dow (Fin 0) \<and> \<not> strictEq dow (Fin 6)
               then rounded (left - Fin 1) else left))
      else Some ms) = Some r"
  show "left \<noteq> Fin 9007199254740996"
  proof
    assume l: "left = Fin 9007199254740996"
    have stay: "rounded (Fin 9007199254740996 - Fin 1) = Fin 9007199254740996"
      by code_simp
    have pos: "Fin 0 < Fin 9007199254740996" by simp
    from body have "loop (ms - DAY_MS) (Fin 9007199254740996) = Some r"
      unfolding l Let_def stay by (simp only: pos if_True if_cancel)
    from IH [OF this] show False by simp
  qed
qed

lemma subtractLoop_stuck_counter: "subtractLoop ms (Fin 9007199254740996) = None"
  using subtractLoop_counter_not_stuck [of ms "Fin 9007199254740996"]
  by (cases "subtractLoop ms (Fin 9007199254740996)") auto

lemma sprintLoop_returns:
  assumes "0 < lv"
  shows "\<exists>r. sprintLoop sts (Fin ov) (Fin lv) (Fin hv) t i ps pc acc = Some r"
proof (induction "nat (\<lfloor>(hv - ov) / lv\<rfloor> + 1) - i" arbitrary: i ps pc acc)
  case 0
  then have "\<lfloor>(hv - ov) / lv\<rfloor> + 1 \<le> int i" by simp
  then have "(of_int (\<lfloor>(hv - ov) / lv\<rfloor> + 1) :: rat) \<le> of_int (int i)"
    by (simp only: of_int_le_iff)
  moreover have "(hv - ov) / lv < of_int (\<lfloor>(hv - ov) / lv\<rfloor> + 1)"
    by (rule floor_correct [THEN conjunct2])
  ultimately have "(hv - ov) / lv < of_nat i" by simp
  with assms have "hv - ov < of_nat i * lv" by (simp add: pos_divide_less_eq)
  then have "Fin hv < Fin ov + Fin (of_nat i) * Fin lv" by simp
  then show ?case by (subst sprintLoop.simps) simp
next
  case (Suc k)
  then have k: "k = nat (\<lfloor>(hv - ov) / lv\<rfloor> + 1) - Suc i" by simp
  show ?case
  proof (cases "Fin hv < Fin ov + Fin (of_nat i) * Fin lv")
    case True
    then show ?thesis by (subst sprintLoop.simps) simp
  next
    case False
    from Suc.hyps(1) [OF k] obtain r where
      "sprintLoop sts (Fin ov) (Fin lv) (Fin hv) t (Suc i)
         (scopeAtEnd (sprintBucket sts (Fin ov) (Fin lv) t i ps pc))
         (cumDoneEnd (sprintBucket sts (Fin ov) (Fin lv) t i ps pc))
         (acc @ [sprintBucket sts (Fin ov) (Fin lv) t i ps pc]) = Some r"
      by blast
    with False show ?thesis
      by (subst sprintLoop.simps) (simp only: if_False Let_def, blast)
  qed
qed

lemma isFinite_iff: "isFinite a \<longleftrightarrow> (\<exists>x. a = Fin x)"
  by (cases a) simp_all

lemma foldl_max_finite:
  assumes "isFinite a" and "\<forall>x \<in> set xs. isFinite x"
  shows "isFinite (foldl Math_max2 a xs)"
  using assms
proof (induction xs arbitrary: a)
  case Nil
  then show ?case by simp
next
  case (Cons x xs)
  from Cons.prems have "isFinite (Math_max2 a x)"
    by (auto simp: isFinite_iff)
  with Cons show ?case by simp
qed

lemma foldl_min_finite:
  assumes "isFinite a" and "\<forall>x \<in> set xs. isFinite x"
  shows "isFinite (foldl Math_min2 a xs)"
  using assms
proof (induction xs arbitrary: a)
  case Nil
  then show ?case by simp
next
  case (Cons x xs)
  from Cons.prems have "isFinite (Math_min2 a x)"
    by (auto simp: isFinite_iff)
  with Cons show ?case by simp
qed

lemma Math_max_finite:
  assumes "xs \<noteq> []" and "\<forall>x \<in> set xs. isFinite x"
  shows "isFinite (Math_max xs)"
proof -
  from assms obtain x xs' where xs: "xs = x # xs'" by (cases xs) auto
  with assms(2) obtain v where v: "x = Fin v" by (auto simp: isFinite_iff)
  have "Math_max2 NegInf (Fin v) = Fin v" by (simp add: Math_max2_def)
  with assms(2) show ?thesis
    unfolding Math_max_def xs v by (simp add: foldl_max_finite)
qed

lemma Math_min_finite:
  assumes "xs \<noteq> []" and "\<forall>x \<in> set xs. isFinite x"
  shows "isFinite (Math_min xs)"
proof -
  from assms obtain x xs' where xs: "xs = x # xs'" by (cases xs) auto
  with assms(2) obtain v where v: "x = Fin v" by (auto simp: isFinite_iff)
  have "Math_min2 PosInf (Fin v) = Fin v" by (simp add: Math_min2_def)
  with assms(2) show ?thesis
    unfolding Math_min_def xs v by (simp add: foldl_min_finite)
qed

lemma normalisedStories_finite:
  assumes "s \<in> set (normalisedStories P inp)"
  shows "isFinite (createdMs s)" and "resolvedMs s \<noteq> None \<Longrightarrow> isFinite (the (resolvedMs s))"
  using normalisedStories_aligned [OF assms] by auto

lemma subtractWorkingDaysUTC_returns:
  assumes "n \<le> 9007199254740992"
  shows "\<exists>x. subtractWorkingDaysUTC (Fin e) (Fin (of_nat n)) = Some (Fin x)"
proof -
  from subtractLoop_returns [OF assms, of "\<lfloor>e / 86400000\<rfloor>"]
  show ?thesis
    unfolding subtractWorkingDaysUTC_def workingDays_left epochDayFloorMs_Fin
    by (auto simp: msOfDay_def)
qed

lemma deriveOrigin_returns:
  assumes today: "isFinite today"
      and sts: "\<forall>s \<in> set sts. isFinite (createdMs s) \<and> (resolvedMs s \<noteq> None \<longrightarrow> isFinite (the (resolvedMs s)))"
      and count: "workingDaysCount l = Fin (of_nat w)" "w \<le> 9007199254740992"
  shows "\<exists>x. deriveOrigin (Fin l) ui today sts = Some (Fin x)"
proof (cases "sts = []")
  case True
  with today show ?thesis
    by (auto simp: deriveOrigin_def isFinite_iff)
next
  case False
  note ne = this
  show ?thesis
  proof (cases "validDoneOf sts = []")
    case True
    from ne sts have "isFinite (Math_min (map createdMs sts))"
      by (intro Math_min_finite) auto
    then obtain c where c: "Math_min (map createdMs sts) = Fin c" by (auto simp: isFinite_iff)
    show ?thesis
      unfolding deriveOrigin_def Let_def validDoneOf_def [symmetric] c
      using ne True by (auto simp: isFinite_iff)
  next
    case False
    from sts have "\<forall>x \<in> set (map (\<lambda>s. the (resolvedMs s)) (validDoneOf sts)). isFinite x"
      by (auto simp: validDoneOf_def)
    with False have "isFinite (Math_min (map (\<lambda>s. the (resolvedMs s)) (validDoneOf sts)))"
      by (intro Math_min_finite) auto
    then obtain e where e: "Math_min (map (\<lambda>s. the (resolvedMs s)) (validDoneOf sts)) = Fin e"
      by (auto simp: isFinite_iff)
    from subtractWorkingDaysUTC_returns [OF count(2), of e] obtain x where
      x: "subtractWorkingDaysUTC (Fin e) (Fin (of_nat w)) = Some (Fin x)"
      by blast
    show ?thesis
      unfolding deriveOrigin_def Let_def validDoneOf_def [symmetric] workingDaysCount_def [symmetric]
        count(1) e x
      using ne False by simp
  qed
qed

lemma horizonOf_finite:
  assumes "isFinite orig" and "isFinite today" and "isFinite td"
      and sts: "\<forall>s \<in> set sts. isFinite (createdMs s) \<and> (resolvedMs s \<noteq> None \<longrightarrow> isFinite (the (resolvedMs s)))"
  shows "isFinite (horizonOf sts orig today td (Fin lv))"
proof -
  let ?created = "if sts \<noteq> [] then Math_max (map createdMs sts) else orig"
  let ?arr = "map (\<lambda>s. the (resolvedMs s)) (filter (\<lambda>s. resolvedMs s \<noteq> None) sts)"
  let ?last = "if ?arr \<noteq> [] then Math_max2 ?created (Math_max ?arr) else ?created"
  from sts assms(1) have c: "isFinite ?created"
    by (auto intro!: Math_max_finite)
  from sts have "?arr \<noteq> [] \<Longrightarrow> isFinite (Math_max ?arr)"
    by (intro Math_max_finite) auto
  with c have l: "isFinite ?last"
    by (auto simp: isFinite_iff)
  from l assms(2,3) have "isFinite (Math_max [today, td, ?last])"
    by (intro Math_max_finite) auto
  then show ?thesis
    unfolding horizonOf_def Let_def by (auto simp: isFinite_iff)
qed

lemma build_returns_for_finite_today:
  assumes td: "isFinite (parseISODate P (devCompletionISO inp))"
      and today: "isFinite (todayMsOf P inp)"
      and len: "sprintLenDaysOf inp = Fin l" "1 \<le> l"
      and count: "workingDaysCount l = Fin (of_nat w)" "w \<le> 9007199254740992"
  shows "\<exists>m n. buildBurnupModel P inp = Some m \<and> length (sprints m) = n \<and>
           isFinite (originMs m) \<and>
           isFinite (horizonOf (normalisedStories P inp) (originMs m) (todayMsOf P inp)
                       (parseISODate P (devCompletionISO inp)) (Fin l * DAY_MS)) \<and>
           horizonOf (normalisedStories P inp) (originMs m) (todayMsOf P inp)
               (parseISODate P (devCompletionISO inp)) (Fin l * DAY_MS)
             < originMs m + Fin (of_nat n) * (Fin l * DAY_MS) \<and>
           (\<forall>k<n. startMs (sprints m ! k) = originMs m + Fin (of_nat k) * (Fin l * DAY_MS) \<and>
                   \<not> horizonOf (normalisedStories P inp) (originMs m) (todayMsOf P inp)
                        (parseISODate P (devCompletionISO inp)) (Fin l * DAY_MS)
                      < startMs (sprints m ! k))"
proof -
  let ?sts = "normalisedStories P inp"
  have sts: "\<forall>s \<in> set ?sts. isFinite (createdMs s) \<and> (resolvedMs s \<noteq> None \<longrightarrow> isFinite (the (resolvedMs s)))"
    using normalisedStories_finite by blast
  from deriveOrigin_returns [OF today sts count, of "parseISODate P (sprintStartISO inp)"]
  obtain x where x: "deriveOrigin (Fin l) (parseISODate P (sprintStartISO inp)) (todayMsOf P inp) ?sts = Some (Fin x)"
    by blast
  define orig where "orig = msOfDay \<lfloor>x / 86400000\<rfloor>"
  from x have o: "originOf P inp = Some orig"
    by (simp add: originOf_def len(1) epochDayFloorMs_Fin orig_def)
  have ofin: "isFinite orig" by (simp add: orig_def)
  have lm: "Fin l * DAY_MS = Fin (l * 86400000)" by (simp add: DAY_MS_value)
  from len(2) have lpos: "0 < l * 86400000" by simp
  from horizonOf_finite [OF ofin today td sts, of "l * 86400000"]
  obtain hv where hv: "horizonOf ?sts orig (todayMsOf P inp) (parseISODate P (devCompletionISO inp)) (Fin (l * 86400000)) = Fin hv"
    by (auto simp: isFinite_iff)
  obtain ov where ov: "orig = Fin ov" by (simp add: orig_def msOfDay_def)
  from sprintLoop_returns [OF lpos, of ?sts ov hv "todayMsOf P inp" 0 "Fin 0" "Fin 0" "[]"]
  obtain sps where sps: "sprintsOf P inp orig = Some sps"
    by (auto simp: sprintsOf_def len(1) lm hv [unfolded ov] ov)
  then have run: "sprintLoop ?sts orig (Fin (l * 86400000)) (Fin hv) (todayMsOf P inp) 0 (Fin 0) (Fin 0) [] = Some sps"
    by (simp add: sprintsOf_def len(1) lm hv)
  from sprintLoop_shape [OF run] obtain n where n:
    "sps = map (bucketAt ?sts orig (Fin (l * 86400000)) (todayMsOf P inp)) [0..<n]"
    "Fin hv < orig + Fin (of_nat n) * Fin (l * 86400000)"
    "\<forall>k. k < n \<longrightarrow> \<not> Fin hv < orig + Fin (of_nat k) * Fin (l * 86400000)"
    by auto
  let ?m = "assembleModel (sprintLenDaysOf inp) (sprintLenDaysOf inp * DAY_MS) orig
              (parseISODate P (devCompletionISO inp)) (todayMsOf P inp) (sprintFTEOf inp) sps"
  from td o sps have b: "buildBurnupModel P inp = Some ?m"
    by (simp add: buildBurnupModel_unfold)
  have "startMs (sprints ?m ! k) = orig + Fin (of_nat k) * Fin (l * 86400000)" if "k < n" for k
    using that n(1) by (simp add: bucketAt_def)
  with n ofin hv b show ?thesis
    unfolding lm by (intro exI [of _ ?m] exI [of _ n]) simp
qed

section \<open>The claims\<close>

subsection \<open>C5: an invalid target date\<close>

text \<open>
  C5. If the target date string does not parse to a finite timestamp, \<^verbatim>\<open>buildBurnupModel\<close>
  returns (it neither throws nor loops), and what it returns is the empty model: no
  sprints, \<^verbatim>\<open>targetScope = latestScope = totalDoneStories = 0\<close>, \<^verbatim>\<open>hasAnyDone = false\<close>, a
  projection with \<^verbatim>\<open>hasSignal = false\<close> and every other field \<^verbatim>\<open>null\<close>, and
  \<^verbatim>\<open>isOnTrack = null\<close>.
\<close>

theorem invalid_target_gives_empty_model:
  assumes "\<not> isFinite (parseISODate P (devCompletionISO inp))"
  shows "\<exists>m. buildBurnupModel P inp = Some m \<and> sprints m = [] \<and>
           targetScope m = Fin 0 \<and> latestScope m = Fin 0 \<and> totalDoneStories m = Fin 0 \<and>
           hasAnyDone m = False \<and>
           projection m =
             \<lparr> hasSignal = False, fromSprintIndex = None, fromTimeMs = None, fromDone = None,
               projectedDonePerSprint = None, avgVelPerFTE = None, projectedCompletionMs = None,
               projectedCompletionEarlyMs = None, projectedCompletionLateMs = None,
               requiredFTEToHitTarget = None, suggestedMaxFTE = None,
               remainingStoriesFromAnchor = None, sprintsRemainingToTarget = None,
               requiredStoriesPerSprintToHitTarget = None, recentStoriesPerSprint = None \<rparr> \<and>
           isOnTrack m = None"
  using assms by (simp add: buildBurnupModel_def emptyModel_def nullProjection_def Let_def)

text \<open>The target \<^verbatim>\<open>"soon"\<close> is no date: the model built for it is the empty one.\<close>

theorem invalid_target_witness:
  "\<not> isFinite (parseISODate examplePlatform (devCompletionISO badTargetInput)) \<and>
   (\<exists>m. buildBurnupModel examplePlatform badTargetInput = Some m \<and> sprints m = [] \<and>
           targetScope m = Fin 0 \<and> latestScope m = Fin 0 \<and> totalDoneStories m = Fin 0 \<and>
           hasAnyDone m = False \<and>
           projection m =
             \<lparr> hasSignal = False, fromSprintIndex = None, fromTimeMs = None, fromDone = None,
               projectedDonePerSprint = None, avgVelPerFTE = None, projectedCompletionMs = None,
               projectedCompletionEarlyMs = None, projectedCompletionLateMs = None,
               requiredFTEToHitTarget = None, suggestedMaxFTE = None,
               remainingStoriesFromAnchor = None, sprintsRemainingToTarget = None,
               requiredStoriesPerSprintToHitTarget = None, recentStoriesPerSprint = None \<rparr> \<and>
           isOnTrack m = None)"
proof -
  have h: "\<not> isFinite (parseISODate examplePlatform (devCompletionISO badTargetInput))"
    by code_simp
  from h invalid_target_gives_empty_model [OF h] show ?thesis by (rule conjI)
qed

subsection \<open>C8: latest scope and target scope\<close>

text \<open>
  C8. In every built model with at least one sprint, \<^verbatim>\<open>latestScope\<close> is the \<^verbatim>\<open>scopeAtEnd\<close> of
  the last sprint, and \<^verbatim>\<open>targetScope\<close> is the \<^verbatim>\<open>scopeAtEnd\<close> of the first sprint whose \<^verbatim>\<open>endMs\<close>
  is at or after the target date, or of the last sprint when no sprint ends that late.
\<close>

theorem latest_and_target_scope:
  assumes "buildBurnupModel P inp = Some m" and "sprints m \<noteq> []"
  shows "latestScope m = scopeAtEnd (last (sprints m)) \<and>
         targetScope m =
           (case find (\<lambda>s. targetDateMs m \<le> endMs s) (sprints m) of
              Some s \<Rightarrow> scopeAtEnd s
            | None \<Rightarrow> scopeAtEnd (last (sprints m)))"
  using assms(1)
proof (cases rule: buildBurnupModel_cases)
  case invalid
  with assms(2) show ?thesis by simp
next
  case (built orig sps)
  with assms(2) show ?thesis
    by (simp add: computeScopeAtDate_def chosenSprint_find split: option.splits)
qed


text \<open>
  Three stories, the third created after the target date 2025-02-01: the target scope
  is that of sprint 1 (ending 2025-02-03), the latest scope counts all three.
\<close>

theorem latest_and_target_scope_witness:
  "\<exists>m. buildBurnupModel examplePlatform threeStoryInput = Some m \<and> sprints m \<noteq> [] \<and>
       latestScope m = scopeAtEnd (last (sprints m)) \<and> latestScope m = Fin 3 \<and>
       find (\<lambda>s. targetDateMs m \<le> endMs s) (sprints m) = Some (sprints m ! 1) \<and>
       targetScope m = scopeAtEnd (sprints m ! 1) \<and> targetScope m = Fin 2"
proof -
  have "buildBurnupModel examplePlatform threeStoryInput \<noteq> None"
    by code_simp
  then obtain m where m: "buildBurnupModel examplePlatform threeStoryInput = Some m" by blast
  have "map_option (\<lambda>m. (sprints m \<noteq> [], scopeAtEnd (last (sprints m)), scopeAtEnd (sprints m ! 1),
          find (\<lambda>s. targetDateMs m \<le> endMs s) (sprints m) = Some (sprints m ! 1)))
          (buildBurnupModel examplePlatform threeStoryInput) = Some (True, Fin 3, Fin 2, True)"
    by code_simp
  with m have vals: "sprints m \<noteq> []" "scopeAtEnd (last (sprints m)) = Fin 3"
    "scopeAtEnd (sprints m ! 1) = Fin 2"
    "find (\<lambda>s. targetDateMs m \<le> endMs s) (sprints m) = Some (sprints m ! 1)"
    by simp_all
  from latest_and_target_scope [OF m vals(1)] m vals show ?thesis by simp
qed


subsection \<open>C1: cumulative done is clamped and never decreases\<close>

text \<open>
  C1. In the sprint sequence of every model that \<^verbatim>\<open>buildBurnupModel\<close> returns, each sprint's
  \<^verbatim>\<open>cumDoneEnd\<close> is \<^verbatim>\<open>Math.min(doneByEndRaw, scopeAtEnd)\<close>, where both counts are taken over the
  normalised stories at the sprint's \<^verbatim>\<open>endMs\<close>; so \<^verbatim>\<open>cumDoneEnd <= scopeAtEnd\<close> at every index,
  and \<^verbatim>\<open>cumDoneEnd\<close> at index \<open>i \<ge> 1\<close> is at least \<^verbatim>\<open>cumDoneEnd\<close> at index \<open>i - 1\<close>.
\<close>

theorem cumulative_done_clamped_and_monotone:
  assumes "buildBurnupModel P inp = Some m" and "i < length (sprints m)"
  shows "cumDoneEnd (sprints m ! i) =
           Math_min2 (doneByEndRawOf (normalisedStories P inp) (endMs (sprints m ! i)))
                     (scopeAtEnd (sprints m ! i)) \<and>
         scopeAtEnd (sprints m ! i) = scopeAtEndOf (normalisedStories P inp) (endMs (sprints m ! i)) \<and>
         cumDoneEnd (sprints m ! i) \<le> scopeAtEnd (sprints m ! i) \<and>
         (1 \<le> i \<longrightarrow> cumDoneEnd (sprints m ! (i - 1)) \<le> cumDoneEnd (sprints m ! i))"
  using assms(1)
proof (cases rule: buildBurnupModel_cases)
  case invalid
  with assms(2) show ?thesis by simp
next
  case (built orig sps)
  let ?sts = "normalisedStories P inp"
  let ?len = "sprintLenDaysOf inp * DAY_MS"
  let ?b = "bucketAt ?sts orig ?len (todayMsOf P inp)"
  from built(4) have sp: "sprints m = sps" by simp
  from built_sprints_shape [OF built(3)] obtain n where n:
    "sps = map ?b [0..<n]"
    "1 < n \<longrightarrow> (\<exists>ov lv. orig = Fin ov \<and> ?len = Fin lv \<and> 0 < lv)"
    by blast
  from assms(2) sp n(1) have i: "i < n" by simp
  with n(1) sp have at: "sprints m ! i = ?b i" by simp
  have first: "cumDoneEnd (?b i) = Math_min2 (doneByEndRawOf ?sts (endMs (?b i))) (scopeAtEnd (?b i))"
    "scopeAtEnd (?b i) = scopeAtEndOf ?sts (endMs (?b i))"
    "cumDoneEnd (?b i) \<le> scopeAtEnd (?b i)"
    by (simp_all add: bucketAt_def cumDone_le_scope)
  have mono: "cumDoneEnd (sprints m ! (i - 1)) \<le> cumDoneEnd (sprints m ! i)" if "1 \<le> i"
  proof -
    from that i have "1 < n" by simp
    with n(2) obtain ov lv where fin: "orig = Fin ov" "?len = Fin lv" "0 < lv" by blast
    from that i n(1) sp have prev: "sprints m ! (i - 1) = ?b (i - 1)" by simp
    from that have "of_nat (i - 1) * lv \<le> of_nat i * lv"
      using fin(3) by (simp add: mult_right_mono)
    then have le: "ov + of_nat (i - 1) * lv + lv \<le> ov + of_nat i * lv + lv" by simp
    show ?thesis
      unfolding prev at
      using cumDone_mono [OF le, of ?sts]
      by (simp add: bucketAt_def endOfSprint_def fin)
  qed
  from first mono show ?thesis unfolding at by blast
qed

text \<open>
  Two stories, one resolved on 2025-01-20: sprint 0 ends that day with nothing done,
  sprint 1 has the one story done out of two.
\<close>

theorem cumulative_done_witness:
  "\<exists>m. buildBurnupModel examplePlatform twoStoryInput = Some m \<and> length (sprints m) = 9 \<and>
       cumDoneEnd (sprints m ! 0) = Fin 0 \<and> scopeAtEnd (sprints m ! 0) = Fin 2 \<and>
       cumDoneEnd (sprints m ! 1) = Fin 1 \<and> scopeAtEnd (sprints m ! 1) = Fin 2 \<and>
       cumDoneEnd (sprints m ! 1) =
         Math_min2 (doneByEndRawOf (normalisedStories examplePlatform twoStoryInput) (endMs (sprints m ! 1)))
                   (scopeAtEnd (sprints m ! 1)) \<and>
       cumDoneEnd (sprints m ! 1) \<le> scopeAtEnd (sprints m ! 1) \<and>
       cumDoneEnd (sprints m ! 0) \<le> cumDoneEnd (sprints m ! 1)"
proof -
  have some: "buildBurnupModel examplePlatform twoStoryInput \<noteq> None"
    by code_simp
  then obtain m where m: "buildBurnupModel examplePlatform twoStoryInput = Some m" by blast
  have "map_option (\<lambda>m. (length (sprints m), cumDoneEnd (sprints m ! 0), scopeAtEnd (sprints m ! 0),
          cumDoneEnd (sprints m ! 1), scopeAtEnd (sprints m ! 1)))
          (buildBurnupModel examplePlatform twoStoryInput) = Some (9, Fin 0, Fin 2, Fin 1, Fin 2)"
    by code_simp
  with m have vals: "length (sprints m) = 9" "cumDoneEnd (sprints m ! 0) = Fin 0"
    "scopeAtEnd (sprints m ! 0) = Fin 2" "cumDoneEnd (sprints m ! 1) = Fin 1"
    "scopeAtEnd (sprints m ! 1) = Fin 2"
    by simp_all
  from vals(1) have "1 < length (sprints m)" by simp
  from cumulative_done_clamped_and_monotone [OF m this] m vals show ?thesis by simp
qed


subsection \<open>C2: the velocity-per-FTE signal\<close>

text \<open>
  C2. In \<^verbatim>\<open>computeProjection\<close>, with \<open>k\<close> the last closed sprint, the samples are the values
  \<^verbatim>\<open>doneThisSprint / fte\<close> collected by walking backward from \<open>k\<close> over at most 8 closed
  sprints, taking the closed sprints with \<^verbatim>\<open>doneThisSprint > 0\<close> and stopping at two samples
  (\<open>velocitySamples\<close>). There are at most two of them, and \<^verbatim>\<open>avgVelPerFTE\<close> is their arithmetic
  mean: \<^verbatim>\<open>null\<close> when there is none, \<open>a\<close> for the one sample \<open>a\<close>, and \<open>(a + b) / 2\<close> for the two
  samples \<open>a\<close> and \<open>b\<close>. \<^verbatim>\<open>projectedDonePerSprint\<close> is that mean times the FTE when the product
  is positive. In particular, three closed sprints with \<^verbatim>\<open>doneThisSprint\<close> 4, 0, 6 and an FTE
  of 2 give the samples 6/2 and 4/2, \<^verbatim>\<open>avgVelPerFTE = (6/2 + 4/2)/2 = 2.5\<close> and
  \<^verbatim>\<open>projectedDonePerSprint = 5\<close>.
\<close>

theorem velocity_signal:
  "(lastClosedAt sps k \<longrightarrow>
      length (velocitySamples sps k (effectiveFTE f)) \<le> 2 \<and>
      (velocitySamples sps k (effectiveFTE f) = [] \<longrightarrow>
         avgVelPerFTE (computeProjection sps len f latest target td) = None \<and>
         projectedDonePerSprint (computeProjection sps len f latest target td) = None) \<and>
      (\<forall>a. velocitySamples sps k (effectiveFTE f) = [a] \<longrightarrow>
         avgVelPerFTE (computeProjection sps len f latest target td) = Some a \<and>
         projectedDonePerSprint (computeProjection sps len f latest target td) =
           (if Fin 0 < a * effectiveFTE f then Some (a * effectiveFTE f) else None)) \<and>
      (\<forall>a b. velocitySamples sps k (effectiveFTE f) = [a, b] \<longrightarrow>
         avgVelPerFTE (computeProjection sps len f latest target td) = Some ((a + b) / Fin 2) \<and>
         projectedDonePerSprint (computeProjection sps len f latest target td) =
           (if Fin 0 < (a + b) / Fin 2 * effectiveFTE f
            then Some ((a + b) / Fin 2 * effectiveFTE f) else None))) \<and>
   (\<forall>s1 s2 s3.
      isClosed s1 \<and> isClosed s2 \<and> isClosed s3 \<and>
      doneThisSprint s1 = Fin 4 \<and> doneThisSprint s2 = Fin 0 \<and> doneThisSprint s3 = Fin 6 \<longrightarrow>
      velocitySamples [s1, s2, s3] 2 (effectiveFTE (Fin 2)) = [Fin (6 / 2), Fin (4 / 2)] \<and>
      avgVelPerFTE (computeProjection [s1, s2, s3] len (Fin 2) latest target td) = Some (Fin (5 / 2)) \<and>
      projectedDonePerSprint (computeProjection [s1, s2, s3] len (Fin 2) latest target td) = Some (Fin 5))"
proof -
  have general: "avgVelPerFTE (computeProjection sps len f latest target td) =
        (if velocitySamples sps k (effectiveFTE f) = [] then None
         else Some (averageOf (velocitySamples sps k (effectiveFTE f)))) \<and>
      projectedDonePerSprint (computeProjection sps len f latest target td) =
        (if velocitySamples sps k (effectiveFTE f) \<noteq> [] \<and>
            Fin 0 < averageOf (velocitySamples sps k (effectiveFTE f)) * effectiveFTE f
         then Some (averageOf (velocitySamples sps k (effectiveFTE f)) * effectiveFTE f)
         else None)"
    if a: "lastClosedAt sps k" for sps k f len latest target td
  proof -
    note an = lastClosedAt_facts [OF a] lastClosedAt_samples [OF a, of "effectiveFTE f"]
    show ?thesis
      unfolding computeProjection_def effectiveFTE_def [symmetric] Let_def
      using an by (simp del: nonZeroVelLoop.simps split: prod.splits)
  qed
  have cases: "length (velocitySamples sps k (effectiveFTE f)) \<le> 2 \<and>
      (velocitySamples sps k (effectiveFTE f) = [] \<longrightarrow>
         avgVelPerFTE (computeProjection sps len f latest target td) = None \<and>
         projectedDonePerSprint (computeProjection sps len f latest target td) = None) \<and>
      (\<forall>a. velocitySamples sps k (effectiveFTE f) = [a] \<longrightarrow>
         avgVelPerFTE (computeProjection sps len f latest target td) = Some a \<and>
         projectedDonePerSprint (computeProjection sps len f latest target td) =
           (if Fin 0 < a * effectiveFTE f then Some (a * effectiveFTE f) else None)) \<and>
      (\<forall>a b. velocitySamples sps k (effectiveFTE f) = [a, b] \<longrightarrow>
         avgVelPerFTE (computeProjection sps len f latest target td) = Some ((a + b) / Fin 2) \<and>
         projectedDonePerSprint (computeProjection sps len f latest target td) =
           (if Fin 0 < (a + b) / Fin 2 * effectiveFTE f
            then Some ((a + b) / Fin 2 * effectiveFTE f) else None))"
    if a: "lastClosedAt sps k"
  proof (intro conjI allI impI)
    show "length (velocitySamples sps k (effectiveFTE f)) \<le> 2"
      by (rule velocitySamples_length)
  next
    assume "velocitySamples sps k (effectiveFTE f) = []"
    with general [OF a, where f = f and len = len and latest = latest and target = target and td = td]
    show "avgVelPerFTE (computeProjection sps len f latest target td) = None"
      and "projectedDonePerSprint (computeProjection sps len f latest target td) = None"
      by simp_all
  next
    fix x assume "velocitySamples sps k (effectiveFTE f) = [x]"
    with general [OF a, where f = f and len = len and latest = latest and target = target and td = td]
    show "avgVelPerFTE (computeProjection sps len f latest target td) = Some x"
      and "projectedDonePerSprint (computeProjection sps len f latest target td) =
           (if Fin 0 < x * effectiveFTE f then Some (x * effectiveFTE f) else None)"
      by (simp_all add: averageOf_one)
  next
    fix x y assume "velocitySamples sps k (effectiveFTE f) = [x, y]"
    with general [OF a, where f = f and len = len and latest = latest and target = target and td = td]
    show "avgVelPerFTE (computeProjection sps len f latest target td) = Some ((x + y) / Fin 2)"
      and "projectedDonePerSprint (computeProjection sps len f latest target td) =
           (if Fin 0 < (x + y) / Fin 2 * effectiveFTE f
            then Some ((x + y) / Fin 2 * effectiveFTE f) else None)"
      by (simp_all add: averageOf_two)
  qed
  have example: "velocitySamples [s1, s2, s3] 2 (effectiveFTE (Fin 2)) = [Fin (6 / 2), Fin (4 / 2)] \<and>
      avgVelPerFTE (computeProjection [s1, s2, s3] len (Fin 2) latest target td) = Some (Fin (5 / 2)) \<and>
      projectedDonePerSprint (computeProjection [s1, s2, s3] len (Fin 2) latest target td) = Some (Fin 5)"
    if c: "isClosed s1 \<and> isClosed s2 \<and> isClosed s3 \<and>
      doneThisSprint s1 = Fin 4 \<and> doneThisSprint s2 = Fin 0 \<and> doneThisSprint s3 = Fin 6"
    for s1 s2 s3
  proof -
    from c have a: "lastClosedAt [s1, s2, s3] 2"
      by (simp add: lastClosedAt_def)
    have fte: "effectiveFTE (Fin 2) = Fin 2"
      by (simp add: effectiveFTE_def)
    from c have samples: "velocitySamples [s1, s2, s3] 2 (Fin 2) = [Fin 3, Fin 2]"
      by (simp add: velocitySamples_def closedBackFrom_def numeral_2_eq_2 numeral_3_eq_3)
    have avg: "averageOf [Fin 3, Fin 2] = Fin (5 / 2)"
      by (simp add: averageOf_def)
    from general [OF a, where f = "Fin 2" and len = len and latest = latest and target = target and td = td] show ?thesis
      by (simp add: fte samples avg)
  qed
  from cases example show ?thesis by blast
qed

text \<open>The same three sprints with their other fields filled in: the samples are 3 and 2.\<close>

theorem velocity_signal_witness:
  "lastClosedAt sprints406 2 \<and>
   velocitySamples sprints406 2 (effectiveFTE (Fin 2)) = [Fin 3, Fin 2] \<and>
   avgVelPerFTE (computeProjection sprints406 (Fin 1209600000) (Fin 2) (Fin 20) (Fin 20)
                   (Fin 1745971200000)) = Some (Fin (5 / 2)) \<and>
   projectedDonePerSprint (computeProjection sprints406 (Fin 1209600000) (Fin 2) (Fin 20) (Fin 20)
                   (Fin 1745971200000)) = Some (Fin 5)"
proof -
  have a: "lastClosedAt sprints406 2"
    unfolding findLastClosed_iff [symmetric] by code_simp
  have s: "velocitySamples sprints406 2 (effectiveFTE (Fin 2)) = [Fin 3, Fin 2]"
    by code_simp
  have v: "(Fin 3 + Fin 2) / Fin 2 = Fin (5 / 2)" "Fin 0 < Fin (5 / 2) * effectiveFTE (Fin 2)"
    "Fin (5 / 2) * effectiveFTE (Fin 2) = Fin 5"
    by code_simp+
  from velocity_signal [THEN conjunct1, rule_format, OF a, of "Fin 2" "Fin 1209600000" "Fin 20" "Fin 20" "Fin 1745971200000",
      THEN conjunct2, THEN conjunct2, THEN conjunct2, rule_format, OF s]
  show ?thesis
    using a s by (simp add: v)
qed


subsection \<open>C6: an anchor without a velocity sample\<close>

text \<open>
  C6 says that, when a last closed sprint exists but no closed sprint with
  \<^verbatim>\<open>doneThisSprint > 0\<close> lies within the 8-closed-sprint look-back, \<^verbatim>\<open>computeProjection\<close> returns
  \<^verbatim>\<open>hasSignal = false\<close> and still populates, among others, \<^verbatim>\<open>sprintsRemainingToTarget\<close> and
  \<^verbatim>\<open>requiredStoriesPerSprintToHitTarget\<close>. That part fails: the code sets these two only
  under its guard \<^verbatim>\<open>targetDateMs > fromTimeMs\<close>. Here the single closed sprint ends on
  2025-01-20 with nothing done and the target date is 2025-01-15: the anchor fields are set,
  the two target fields are \<^verbatim>\<open>null\<close>.
\<close>

theorem no_signal_target_fields_counterexample:
  "findLastClosed idleSprints (length idleSprints) = Some 0 \<and>
   doneThisSprint (idleSprints ! 0) = Fin 0 \<and>
   hasSignal (computeProjection idleSprints (Fin 1209600000) (Fin 1) (Fin 3) (Fin 3)
                (Fin 1736899200000)) = False \<and>
   fromSprintIndex (computeProjection idleSprints (Fin 1209600000) (Fin 1) (Fin 3) (Fin 3)
                (Fin 1736899200000)) = Some (Fin 0) \<and>
   sprintsRemainingToTarget (computeProjection idleSprints (Fin 1209600000) (Fin 1) (Fin 3) (Fin 3)
                (Fin 1736899200000)) = None \<and>
   requiredStoriesPerSprintToHitTarget (computeProjection idleSprints (Fin 1209600000) (Fin 1)
                (Fin 3) (Fin 3) (Fin 1736899200000)) = None"
  by code_simp

text \<open>
  C6, amended. With \<open>k\<close> the last closed sprint and no closed sprint with
  \<^verbatim>\<open>doneThisSprint > 0\<close> among the first 8 closed sprints walking backward from \<open>k\<close>,
  \<^verbatim>\<open>computeProjection\<close> returns \<^verbatim>\<open>hasSignal = false\<close>; \<^verbatim>\<open>fromSprintIndex\<close>, \<^verbatim>\<open>fromTimeMs\<close>, \<^verbatim>\<open>fromDone\<close>,
  \<^verbatim>\<open>remainingStoriesFromAnchor\<close> and \<^verbatim>\<open>recentStoriesPerSprint\<close> are set (to \<open>k\<close>, the anchor's
  \<^verbatim>\<open>endMs\<close> and \<^verbatim>\<open>cumDoneEnd\<close>, \<^verbatim>\<open>max(0, latestScope - fromDone)\<close>, and the mean of
  \<^verbatim>\<open>doneThisSprint\<close> over the last two closed sprints); every forecast field is \<^verbatim>\<open>null\<close>; and
  \<^verbatim>\<open>sprintsRemainingToTarget\<close> and \<^verbatim>\<open>requiredStoriesPerSprintToHitTarget\<close> are set exactly when
  the target date is finite, later than the anchor time, and
  \<^verbatim>\<open>(targetDateMs - fromTimeMs) / sprintLenMs > 0\<close>, and are \<^verbatim>\<open>null\<close> otherwise.
\<close>

theorem no_signal_partial_fill:
  assumes "lastClosedAt sps k"
      and "\<forall>s \<in> set (take 8 (closedBackFrom sps k)). \<not> Fin 0 < doneThisSprint s"
  shows "computeProjection sps len f latest target td =
     \<lparr> hasSignal = False,
       fromSprintIndex = Some (Fin (of_nat k)),
       fromTimeMs = Some (endMs (sps ! k)),
       fromDone = Some (cumDoneEnd (sps ! k)),
       projectedDonePerSprint = None, avgVelPerFTE = None,
       projectedCompletionMs = None, projectedCompletionEarlyMs = None,
       projectedCompletionLateMs = None,
       requiredFTEToHitTarget = None, suggestedMaxFTE = None,
       remainingStoriesFromAnchor = Some (Math_max2 (Fin 0) (latest - cumDoneEnd (sps ! k))),
       sprintsRemainingToTarget =
         (if isFinite td \<and> endMs (sps ! k) < td \<and> Fin 0 < (td - endMs (sps ! k)) / len
          then Some (Math_ceil ((td - endMs (sps ! k)) / len)) else None),
       requiredStoriesPerSprintToHitTarget =
         (if isFinite td \<and> endMs (sps ! k) < td \<and> Fin 0 < (td - endMs (sps ! k)) / len
          then Some (if Fin 0 < Math_max2 (Fin 0) (target - cumDoneEnd (sps ! k))
                     then Math_max2 (Fin 0) (target - cumDoneEnd (sps ! k)) /
                          ((td - endMs (sps ! k)) / len)
                     else Fin 0)
          else None),
       recentStoriesPerSprint =
         Some (averageOf (map doneThisSprint (take 2 (closedBackFrom sps k)))) \<rparr>"
  unfolding computeProjection_def effectiveFTE_def [symmetric] Let_def
  using lastClosedAt_facts [OF assms(1)] lastClosedAt_samples [OF assms(1), of "effectiveFTE f"]
    velocitySamples_empty [OF assms(2), of "effectiveFTE f"]
  by (simp del: nonZeroVelLoop.simps)

text \<open>The same idle sprint with the target on 2025-02-17, two sprint lengths after the anchor.\<close>

theorem no_signal_partial_fill_witness:
  "computeProjection idleSprints (Fin 1209600000) (Fin 1) (Fin 3) (Fin 3) (Fin 1739750400000) =
     \<lparr> hasSignal = False,
       fromSprintIndex = Some (Fin 0),
       fromTimeMs = Some (Fin 1737331200000),
       fromDone = Some (Fin 0),
       projectedDonePerSprint = None, avgVelPerFTE = None,
       projectedCompletionMs = None, projectedCompletionEarlyMs = None,
       projectedCompletionLateMs = None,
       requiredFTEToHitTarget = None, suggestedMaxFTE = None,
       remainingStoriesFromAnchor = Some (Fin 3),
       sprintsRemainingToTarget = Some (Fin 2),
       requiredStoriesPerSprintToHitTarget = Some (Fin (3 / 2)),
       recentStoriesPerSprint = Some (Fin 0) \<rparr>"
proof -
  have a: "lastClosedAt idleSprints 0"
    unfolding findLastClosed_iff [symmetric] by code_simp
  have b: "\<forall>s \<in> set (take 8 (closedBackFrom idleSprints 0)). \<not> Fin 0 < doneThisSprint s"
    by code_simp
  have vals: "of_nat (0::nat) = (0::rat)"
    "endMs (idleSprints ! 0) = Fin 1737331200000"
    "cumDoneEnd (idleSprints ! 0) = Fin 0"
    "averageOf (map doneThisSprint (take 2 (closedBackFrom idleSprints 0))) = Fin 0"
    by code_simp+
  show ?thesis
    unfolding no_signal_partial_fill [OF a b] vals
    by simp
qed


subsection \<open>C7: nothing remaining at the anchor\<close>

text \<open>
  C7. Whenever the projection has a positive projected velocity and the remaining work
  from the anchor, \<^verbatim>\<open>max(0, latestScope - fromDone)\<close>, is \<^verbatim>\<open>=== 0\<close>, the three projected
  completion timestamps (central, early, late) equal the anchor time \<^verbatim>\<open>fromTimeMs\<close>: in
  \<^verbatim>\<open>computeProjection\<close> (first conjunct), and in \<^verbatim>\<open>recomputeProjectionWithFTE\<close> when it
  recomputes, that is for a model with sprints, a signal, an anchor and a velocity per FTE
  (second conjunct).
\<close>

theorem remaining_zero_completes_at_anchor:
  "(projectedDonePerSprint (computeProjection sps len f latest target td) = Some v \<and>
    fromDone (computeProjection sps len f latest target td) = Some d \<and>
    strictEq (Math_max2 (Fin 0) (latest - d)) (Fin 0) \<longrightarrow>
      Fin 0 < v \<and>
      (\<exists>t. fromTimeMs (computeProjection sps len f latest target td) = Some t \<and>
           projectedCompletionMs (computeProjection sps len f latest target td) = Some t \<and>
           projectedCompletionEarlyMs (computeProjection sps len f latest target td) = Some t \<and>
           projectedCompletionLateMs (computeProjection sps len f latest target td) = Some t)) \<and>
   (sprints m \<noteq> [] \<and> hasSignal (projection m) \<and> fromSprintIndex (projection m) \<noteq> None \<and>
    fromTimeMs (projection m) = Some t' \<and> fromDone (projection m) = Some d' \<and>
    avgVelPerFTE (projection m) = Some a \<and> Fin 0 < a * effectiveFTE g \<and>
    strictEq (Math_max2 (Fin 0) (latestScope m - d')) (Fin 0) \<longrightarrow>
      projectedDonePerSprint (projection (recomputeProjectionWithFTE m g)) = Some (a * effectiveFTE g) \<and>
      fromTimeMs (projection (recomputeProjectionWithFTE m g)) = Some t' \<and>
      projectedCompletionMs (projection (recomputeProjectionWithFTE m g)) = Some t' \<and>
      projectedCompletionEarlyMs (projection (recomputeProjectionWithFTE m g)) = Some t' \<and>
      projectedCompletionLateMs (projection (recomputeProjectionWithFTE m g)) = Some t')"
proof (intro conjI impI)
  let ?p = "computeProjection sps len f latest target td"
  assume h: "projectedDonePerSprint ?p = Some v \<and> fromDone ?p = Some d \<and>
    strictEq (Math_max2 (Fin 0) (latest - d)) (Fin 0)"
  then have "projectedDonePerSprint ?p = Some v \<or> hasSignal ?p" by simp
  from computeProjection_velocity_cases [OF this] obtain k where k: "lastClosedAt sps k"
    "velocitySamples sps k (effectiveFTE f) \<noteq> []"
    "Fin 0 < averageOf (velocitySamples sps k (effectiveFTE f)) * effectiveFTE f"
    by blast
  note fc = computeProjection_forecast [OF k, of len latest target td]
  from fc h have d: "d = cumDoneEnd (sps ! k)" by simp
  from fc h k(3) show "Fin 0 < v" by simp
  from fc h show "\<exists>t. fromTimeMs ?p = Some t \<and> projectedCompletionMs ?p = Some t \<and>
           projectedCompletionEarlyMs ?p = Some t \<and> projectedCompletionLateMs ?p = Some t"
    unfolding d by (simp add: completionCone_def)
next
  assume h: "sprints m \<noteq> [] \<and> hasSignal (projection m) \<and> fromSprintIndex (projection m) \<noteq> None \<and>
    fromTimeMs (projection m) = Some t' \<and> fromDone (projection m) = Some d' \<and>
    avgVelPerFTE (projection m) = Some a \<and> Fin 0 < a * effectiveFTE g \<and>
    strictEq (Math_max2 (Fin 0) (latestScope m - d')) (Fin 0)"
  then have r: "recomputeProjectionWithFTE m g =
     (case completionCone t' (Math_max2 (Fin 0) (latestScope m - d')) (a * effectiveFTE g)
             (sprintLengthDays m * DAY_MS) of
        (c, e, l) \<Rightarrow>
          m \<lparr> projection :=
                (projection m) \<lparr> hasSignal := True,
                                 projectedDonePerSprint := Some (a * effectiveFTE g),
                                 projectedCompletionMs := Some c,
                                 projectedCompletionEarlyMs := Some e,
                                 projectedCompletionLateMs := Some l \<rparr>,
              isOnTrack :=
                (if isFinite (targetDateMs m) \<and>
                    isFinite (Math_round ((c - targetDateMs m) / DAY_MS))
                 then Some (Math_round ((c - targetDateMs m) / DAY_MS) \<le> Fin 0) else None),
              daysDeltaFromTarget :=
                (if isFinite (targetDateMs m)
                 then Some (Math_round ((c - targetDateMs m) / DAY_MS)) else None) \<rparr>)"
    by (intro recompute_unfold) simp_all
  from h have cone: "completionCone t' (Math_max2 (Fin 0) (latestScope m - d')) (a * effectiveFTE g)
             (sprintLengthDays m * DAY_MS) = (t', t', t')"
    by (simp add: completionCone_def)
  from h show "projectedDonePerSprint (projection (recomputeProjectionWithFTE m g)) = Some (a * effectiveFTE g)"
    "fromTimeMs (projection (recomputeProjectionWithFTE m g)) = Some t'"
    "projectedCompletionMs (projection (recomputeProjectionWithFTE m g)) = Some t'"
    "projectedCompletionEarlyMs (projection (recomputeProjectionWithFTE m g)) = Some t'"
    "projectedCompletionLateMs (projection (recomputeProjectionWithFTE m g)) = Some t'"
    unfolding r cone by simp_all
qed
text \<open>
  One closed sprint that completed all ten stories, and the model built from one story
  resolved on 2025-01-20, re-parameterized with an FTE of 3.
\<close>

theorem remaining_zero_witness:
  "projectedDonePerSprint (computeProjection finishedSprints (Fin 1209600000) (Fin 2) (Fin 10) (Fin 10)
      (Fin 1745971200000)) = Some (Fin 10) \<and>
   fromDone (computeProjection finishedSprints (Fin 1209600000) (Fin 2) (Fin 10) (Fin 10)
      (Fin 1745971200000)) = Some (Fin 10) \<and>
   fromTimeMs (computeProjection finishedSprints (Fin 1209600000) (Fin 2) (Fin 10) (Fin 10)
      (Fin 1745971200000)) = Some (Fin 1737331200000) \<and>
   projectedCompletionMs (computeProjection finishedSprints (Fin 1209600000) (Fin 2) (Fin 10) (Fin 10)
      (Fin 1745971200000)) = Some (Fin 1737331200000) \<and>
   projectedCompletionEarlyMs (computeProjection finishedSprints (Fin 1209600000) (Fin 2) (Fin 10) (Fin 10)
      (Fin 1745971200000)) = Some (Fin 1737331200000) \<and>
   projectedCompletionLateMs (computeProjection finishedSprints (Fin 1209600000) (Fin 2) (Fin 10) (Fin 10)
      (Fin 1745971200000)) = Some (Fin 1737331200000) \<and>
   (\<exists>m. buildBurnupModel examplePlatform oneDoneInput = Some m \<and>
        fromTimeMs (projection m) = Some (Fin 1738540800000) \<and>
        fromDone (projection m) = Some (Fin 1) \<and> latestScope m = Fin 1 \<and>
        projectedDonePerSprint (projection (recomputeProjectionWithFTE m (Fin 3))) = Some (Fin 3) \<and>
        projectedCompletionMs (projection (recomputeProjectionWithFTE m (Fin 3))) = Some (Fin 1738540800000) \<and>
        projectedCompletionEarlyMs (projection (recomputeProjectionWithFTE m (Fin 3))) = Some (Fin 1738540800000) \<and>
        projectedCompletionLateMs (projection (recomputeProjectionWithFTE m (Fin 3))) = Some (Fin 1738540800000))"
proof -
  let ?p = "computeProjection finishedSprints (Fin 1209600000) (Fin 2) (Fin 10) (Fin 10)
      (Fin 1745971200000)"
  have pv: "projectedDonePerSprint ?p = Some (Fin 10)" "fromDone ?p = Some (Fin 10)"
    "fromTimeMs ?p = Some (Fin 1737331200000)"
    "strictEq (Math_max2 (Fin 0) (Fin 10 - Fin 10)) (Fin 0)"
    by code_simp+
  have "buildBurnupModel examplePlatform oneDoneInput \<noteq> None"
    by code_simp
  then obtain m where m: "buildBurnupModel examplePlatform oneDoneInput = Some m" by blast
  have "map_option (\<lambda>m. (sprints m \<noteq> [], hasSignal (projection m), fromSprintIndex (projection m) \<noteq> None,
          fromTimeMs (projection m), fromDone (projection m), avgVelPerFTE (projection m), latestScope m))
          (buildBurnupModel examplePlatform oneDoneInput) =
        Some (True, True, True, Some (Fin 1738540800000), Some (Fin 1), Some (Fin 1), Fin 1)"
    by code_simp
  with m have mv: "sprints m \<noteq> []" "hasSignal (projection m)" "fromSprintIndex (projection m) \<noteq> None"
    "fromTimeMs (projection m) = Some (Fin 1738540800000)" "fromDone (projection m) = Some (Fin 1)"
    "avgVelPerFTE (projection m) = Some (Fin 1)" "latestScope m = Fin 1"
    by simp_all
  have gv: "Fin 0 < Fin 1 * effectiveFTE (Fin 3)" "Fin 1 * effectiveFTE (Fin 3) = Fin 3"
    "strictEq (Math_max2 (Fin 0) (Fin 1 - Fin 1)) (Fin 0)"
    by code_simp+
  note inst = remaining_zero_completes_at_anchor [where sps = finishedSprints and len = "Fin 1209600000"
      and f = "Fin 2" and latest = "Fin 10" and target = "Fin 10" and td = "Fin 1745971200000"
      and v = "Fin 10" and d = "Fin 10" and m = m and t' = "Fin 1738540800000" and d' = "Fin 1"
      and a = "Fin 1" and g = "Fin 3"]
  from inst pv mv gv m show ?thesis by (simp del: minus_Fin)
qed


subsection \<open>C4: re-parameterizing with the same FTE\<close>

text \<open>
  C4. For every model \<open>m\<close> that \<^verbatim>\<open>buildBurnupModel\<close> returns and the FTE value it was built
  with, \<^verbatim>\<open>recomputeProjectionWithFTE\<close> returns a model whose \<^verbatim>\<open>projectedDonePerSprint\<close>,
  \<^verbatim>\<open>projectedCompletionMs\<close>, \<^verbatim>\<open>projectedCompletionEarlyMs\<close> and \<^verbatim>\<open>projectedCompletionLateMs\<close> are
  those of \<open>m\<close>; indeed it returns \<open>m\<close> itself. The two functions apply the same operations
  to the same operands in the same order, and the proof uses of the arithmetic only that
  a positive product with a positive factor has a positive other factor, so the equality
  does not depend on how a quotient is rounded.
\<close>

theorem recompute_same_fte_identity:
  assumes "buildBurnupModel P inp = Some m"
  shows "recomputeProjectionWithFTE m (sprintFTE inp) = m \<and>
         projectedDonePerSprint (projection (recomputeProjectionWithFTE m (sprintFTE inp))) =
           projectedDonePerSprint (projection m) \<and>
         projectedCompletionMs (projection (recomputeProjectionWithFTE m (sprintFTE inp))) =
           projectedCompletionMs (projection m) \<and>
         projectedCompletionEarlyMs (projection (recomputeProjectionWithFTE m (sprintFTE inp))) =
           projectedCompletionEarlyMs (projection m) \<and>
         projectedCompletionLateMs (projection (recomputeProjectionWithFTE m (sprintFTE inp))) =
           projectedCompletionLateMs (projection m)"
proof -
  have "recomputeProjectionWithFTE m (sprintFTE inp) = m"
    using assms
  proof (cases rule: buildBurnupModel_cases)
    case invalid
    then show ?thesis by (intro recompute_no_signal) simp
  next
    case (built orig sps)
    from built(1) show ?thesis
      unfolding built(4) sprintFTEOf_def by (rule recompute_built_model)
  qed
  then show ?thesis by simp
qed
text \<open>
  Two stories, one of them done, built with an FTE of 1: one story remains, the central
  projection is one sprint after the anchor, and re-parameterizing with 1 changes nothing.
\<close>

theorem recompute_same_fte_witness:
  "\<exists>m. buildBurnupModel examplePlatform twoStoryInput = Some m \<and>
       hasSignal (projection m) \<and>
       projectedDonePerSprint (projection m) = Some (Fin 1) \<and>
       projectedCompletionMs (projection m) = Some (Fin 1739750400000) \<and>
       projectedCompletionEarlyMs (projection m) = Some (Fin 1739548800000) \<and>
       projectedCompletionLateMs (projection m) = Some (Fin 1740052800000) \<and>
       recomputeProjectionWithFTE m (Fin 1) = m \<and>
       projectedDonePerSprint (projection (recomputeProjectionWithFTE m (Fin 1))) = Some (Fin 1) \<and>
       projectedCompletionMs (projection (recomputeProjectionWithFTE m (Fin 1))) = Some (Fin 1739750400000) \<and>
       projectedCompletionEarlyMs (projection (recomputeProjectionWithFTE m (Fin 1))) = Some (Fin 1739548800000) \<and>
       projectedCompletionLateMs (projection (recomputeProjectionWithFTE m (Fin 1))) = Some (Fin 1740052800000)"
proof -
  have "buildBurnupModel examplePlatform twoStoryInput \<noteq> None"
    by code_simp
  then obtain m where m: "buildBurnupModel examplePlatform twoStoryInput = Some m" by blast
  have "map_option (\<lambda>m. (hasSignal (projection m), projectedDonePerSprint (projection m),
          projectedCompletionMs (projection m), projectedCompletionEarlyMs (projection m),
          projectedCompletionLateMs (projection m)))
          (buildBurnupModel examplePlatform twoStoryInput) =
        Some (True, Some (Fin 1), Some (Fin 1739750400000), Some (Fin 1739548800000),
              Some (Fin 1740052800000))"
    by code_simp
  with m have vals: "hasSignal (projection m)" "projectedDonePerSprint (projection m) = Some (Fin 1)"
    "projectedCompletionMs (projection m) = Some (Fin 1739750400000)"
    "projectedCompletionEarlyMs (projection m) = Some (Fin 1739548800000)"
    "projectedCompletionLateMs (projection m) = Some (Fin 1740052800000)"
    by simp_all
  have fte: "sprintFTE twoStoryInput = Fin 1"
    by (simp add: twoStoryInput_def)
  from recompute_same_fte_identity [OF m] have "recomputeProjectionWithFTE m (Fin 1) = m"
    unfolding fte by simp
  with m vals show ?thesis by simp
qed


subsection \<open>C3: the origin derived from the earliest done story\<close>

text \<open>
  C3 says that whenever a normalised story is done, not cancelled and has a resolution
  date, the origin of the model is the earliest such resolution day minus
  \<^verbatim>\<open>max(1, round(sprintLengthDays * 5/7))\<close> working days. That holds only when the target
  date parses: otherwise the build returns the empty model before it looks at a story,
  and the origin is the sprint start entered in the UI (or today). Below, the story is
  resolved on 2025-01-20 and the sprint length is 14, the target date is \<^verbatim>\<open>"soon"\<close> and the
  UI start 2025-02-03 (day 20122): the origin is 2025-02-03, not 2025-01-06.
\<close>

theorem origin_with_unparseable_target_counterexample:
  "validDoneOf (normalisedStories examplePlatform oneDoneNoTargetInput) \<noteq> [] \<and>
   earliestDoneDay (normalisedStories examplePlatform oneDoneNoTargetInput) = 20108 \<and>
   sprintLenDaysOf oneDoneNoTargetInput = Fin 14 \<and>
   workingDaysCount 14 = Fin 10 \<and>
   workingDaysBefore 10 20108 = 20094 \<and>
   map_option originMs (buildBurnupModel examplePlatform oneDoneNoTargetInput) = Some (msOfDay 20122) \<and>
   msOfDay 20122 = Date_UTC (Fin 2025) (Fin 1) (Fin 3) \<and>
   msOfDay 20094 = Date_UTC (Fin 2025) (Fin 0) (Fin 6) \<and>
   msOfDay 20122 \<noteq> msOfDay 20094"
  by (intro conjI; code_simp)

text \<open>
  C3, with the condition added. When the target date parses and at least one normalised
  story is done, not cancelled and has a resolution date, the origin of the model is the
  earliest such resolution day minus \<open>n\<close> working days, \<open>n\<close> being
  \<^verbatim>\<open>max(1, round(sprintLengthDays * 5/7))\<close> as the code computes it in doubles
  (\<open>workingDaysCount\<close>): the origin is a Monday-to-Friday day, exactly \<open>n\<close> Monday-to-Friday
  days lie from it up to (not including) the earliest resolution day, and it is aligned to
  the epoch day. For a sprint length of 14, \<open>n\<close> is 10. The sprint length is a finite number
  with a finite count \<open>n\<close>, and the days from \<open>3n\<close> days before the earliest resolution day
  up to that day are days a \<^verbatim>\<open>Date\<close> can hold. When the target date does not parse, the
  origin is the sprint start entered in the UI if that parses, and today otherwise.
\<close>

theorem origin_from_earliest_done:
  assumes "buildBurnupModel P inp = Some m"
  shows "(isFinite (parseISODate P (devCompletionISO inp)) \<and>
          validDoneOf (normalisedStories P inp) \<noteq> [] \<and>
          sprintLenDaysOf inp = Fin l \<and>
          workingDaysCount l = Fin (of_nat n) \<and>
          validDay (earliestDoneDay (normalisedStories P inp) - 3 * int n) \<and>
          validDay (earliestDoneDay (normalisedStories P inp)) \<longrightarrow>
            originMs m = msOfDay (workingDaysBefore n (earliestDoneDay (normalisedStories P inp))) \<and>
            epochDayFloorMs (originMs m) = originMs m \<and>
            \<not> isWeekend (workingDaysBefore n (earliestDoneDay (normalisedStories P inp))) \<and>
            card {x. workingDaysBefore n (earliestDoneDay (normalisedStories P inp)) \<le> x \<and>
                     x < earliestDoneDay (normalisedStories P inp) \<and> \<not> isWeekend x} = n) \<and>
         (\<not> isFinite (parseISODate P (devCompletionISO inp)) \<longrightarrow>
            originMs m = (if isFinite (parseISODate P (sprintStartISO inp))
                          then parseISODate P (sprintStartISO inp) else todayMsOf P inp)) \<and>
         workingDaysCount 14 = Fin 10"
proof (intro conjI impI)
  assume h: "isFinite (parseISODate P (devCompletionISO inp)) \<and>
          validDoneOf (normalisedStories P inp) \<noteq> [] \<and>
          sprintLenDaysOf inp = Fin l \<and>
          workingDaysCount l = Fin (of_nat n) \<and>
          validDay (earliestDoneDay (normalisedStories P inp) - 3 * int n) \<and>
          validDay (earliestDoneDay (normalisedStories P inp))"
  let ?e = "earliestDoneDay (normalisedStories P inp)"
  from h have td: "isFinite (parseISODate P (devCompletionISO inp))"
    and vd: "validDoneOf (normalisedStories P inp) \<noteq> []"
    and len: "sprintLenDaysOf inp = Fin l"
    and count: "workingDaysCount l = Fin (of_nat n)"
    and range: "validDay (?e - 3 * int n)" "validDay ?e"
    by simp_all
  from count have pos: "0 < n" by (rule workingDaysCount_positive)
  from deriveOrigin_validDone [OF vd earliestDoneMs_aligned [OF vd] count range]
  have orig: "originOf P inp = Some (msOfDay (workingDaysBefore n ?e))"
    by (simp add: originOf_def len)
  from assms have o: "originMs m = msOfDay (workingDaysBefore n ?e)"
  proof (cases rule: buildBurnupModel_cases)
    case invalid
    with td show ?thesis by simp
  next
    case (built orig' sps)
    with orig show ?thesis by simp
  qed
  from o show "originMs m = msOfDay (workingDaysBefore n ?e)" .
  from o show "epochDayFloorMs (originMs m) = originMs m" by simp
  from workingDaysBefore_counts [OF pos, of ?e]
  show "\<not> isWeekend (workingDaysBefore n ?e)"
    and "card {x. workingDaysBefore n ?e \<le> x \<and> x < ?e \<and> \<not> isWeekend x} = n"
    by simp_all
next
  assume bad: "\<not> isFinite (parseISODate P (devCompletionISO inp))"
  from assms show "originMs m = (if isFinite (parseISODate P (sprintStartISO inp))
                          then parseISODate P (sprintStartISO inp) else todayMsOf P inp)"
  proof (cases rule: buildBurnupModel_cases)
    case invalid
    then show ?thesis by (simp add: emptyModel_def Let_def)
  next
    case (built orig' sps)
    with bad show ?thesis by simp
  qed
next
  show "workingDaysCount 14 = Fin 10" by code_simp
qed

text \<open>
  The earliest done story was resolved on Monday 2025-01-20 (day 20108): ten working days
  earlier is Monday 2025-01-06 (day 20094), the origin of the model. With the target date
  that does not parse, the origin is the UI start, 2025-02-03 (day 20122).
\<close>

theorem origin_from_earliest_done_witness:
  "(\<exists>m. buildBurnupModel examplePlatform oneDoneInput = Some m \<and>
       isFinite (parseISODate examplePlatform (devCompletionISO oneDoneInput)) \<and>
       earliestDoneDay (normalisedStories examplePlatform oneDoneInput) = 20108 \<and>
       msOfDay 20108 = Date_UTC (Fin 2025) (Fin 0) (Fin 20) \<and>
       getUTCDay (msOfDay 20108) = Fin 1 \<and>
       workingDaysCount 14 = Fin 10 \<and>
       workingDaysBefore 10 20108 = 20094 \<and>
       originMs m = msOfDay 20094 \<and>
       msOfDay 20094 = Date_UTC (Fin 2025) (Fin 0) (Fin 6) \<and>
       getUTCDay (msOfDay 20094) = Fin 1) \<and>
   (\<exists>m. buildBurnupModel examplePlatform oneDoneNoTargetInput = Some m \<and>
       parseISODate examplePlatform (devCompletionISO oneDoneNoTargetInput) = NaN \<and>
       parseISODate examplePlatform (sprintStartISO oneDoneNoTargetInput) = msOfDay 20122 \<and>
       originMs m = msOfDay 20122)"
proof
  have "buildBurnupModel examplePlatform oneDoneInput \<noteq> None"
    by code_simp
  then obtain m where m: "buildBurnupModel examplePlatform oneDoneInput = Some m" by blast
  have td: "isFinite (parseISODate examplePlatform (devCompletionISO oneDoneInput))"
    by code_simp
  have vd: "validDoneOf (normalisedStories examplePlatform oneDoneInput) \<noteq> []"
    by code_simp
  have len: "sprintLenDaysOf oneDoneInput = Fin 14"
    by code_simp
  have e: "earliestDoneDay (normalisedStories examplePlatform oneDoneInput) = 20108"
    by code_simp
  have n: "workingDaysCount 14 = Fin (of_nat 10)"
    by code_simp
  have n': "workingDaysCount 14 = Fin 10"
    by code_simp
  have r: "validDay (20108 - 3 * int 10)" "validDay 20108"
    by code_simp+
  have vals: "msOfDay 20108 = Date_UTC (Fin 2025) (Fin 0) (Fin 20)" "getUTCDay (msOfDay 20108) = Fin 1"
    "workingDaysBefore 10 20108 = 20094" "msOfDay 20094 = Date_UTC (Fin 2025) (Fin 0) (Fin 6)"
    "getUTCDay (msOfDay 20094) = Fin 1"
    by code_simp+
  from origin_from_earliest_done [OF m, where l = 14 and n = 10, THEN conjunct1] td vd len n r
  have "originMs m = msOfDay (workingDaysBefore 10 20108)"
    unfolding e by simp
  with m td e n' vals show "\<exists>m. buildBurnupModel examplePlatform oneDoneInput = Some m \<and>
       isFinite (parseISODate examplePlatform (devCompletionISO oneDoneInput)) \<and>
       earliestDoneDay (normalisedStories examplePlatform oneDoneInput) = 20108 \<and>
       msOfDay 20108 = Date_UTC (Fin 2025) (Fin 0) (Fin 20) \<and>
       getUTCDay (msOfDay 20108) = Fin 1 \<and>
       workingDaysCount 14 = Fin 10 \<and>
       workingDaysBefore 10 20108 = 20094 \<and>
       originMs m = msOfDay 20094 \<and>
       msOfDay 20094 = Date_UTC (Fin 2025) (Fin 0) (Fin 6) \<and>
       getUTCDay (msOfDay 20094) = Fin 1"
    by simp
next
  have "buildBurnupModel examplePlatform oneDoneNoTargetInput \<noteq> None"
    by code_simp
  then obtain m where m: "buildBurnupModel examplePlatform oneDoneNoTargetInput = Some m" by blast
  have td: "parseISODate examplePlatform (devCompletionISO oneDoneNoTargetInput) = NaN"
    by code_simp
  have ui: "parseISODate examplePlatform (sprintStartISO oneDoneNoTargetInput) = msOfDay 20122"
    by code_simp
  from origin_from_earliest_done [OF m, where l = 14 and n = 10, THEN conjunct2, THEN conjunct1]
  have "originMs m = msOfDay 20122"
    unfolding td ui by simp
  with m td ui show "\<exists>m. buildBurnupModel examplePlatform oneDoneNoTargetInput = Some m \<and>
       parseISODate examplePlatform (devCompletionISO oneDoneNoTargetInput) = NaN \<and>
       parseISODate examplePlatform (sprintStartISO oneDoneNoTargetInput) = msOfDay 20122 \<and>
       originMs m = msOfDay 20122"
    by simp
qed


subsection \<open>C9: a done story without a resolution date\<close>

text \<open>
  C9 says that every raw issue with a parseable creation date, no usable resolution date,
  a status that is not withdrawn or cancelled, and the status category Done (or the status
  text DONE) gets \<^verbatim>\<open>resolvedMs = createdMs\<close> and is marked done. The code does so for every
  creation day but one (\<open>normaliseIssue_synthesises_done\<close>): it tests the synthesised
  timestamp with \<^verbatim>\<open>!!resolvedMs\<close>, and the timestamp of 1970-01-01 is \<^verbatim>\<open>0\<close>. The story below
  gets its resolution date and is not marked done.
\<close>

theorem epoch_day_issue_not_marked_done:
  "normaliseIssue examplePlatform epochIssue =
     Some \<lparr> createdMs = Fin 0, resolvedMs = Some (Fin 0), isDone = False, isCancelled = False \<rparr>"
  by code_simp


subsection \<open>C10: termination of the build\<close>

text \<open>
  C10 says that \<^verbatim>\<open>buildBurnupModel\<close> terminates for every input whose target date is valid
  and whose sprint length is at least one day. The horizon of the sprint loop is
  \<^verbatim>\<open>Math.max(todayMs, targetDateMs, lastStoryMs) + 6 * sprintLenMs\<close>; when \<^verbatim>\<open>todayISO\<close> is given
  and does not parse, \<^verbatim>\<open>todayMs\<close> and with it the horizon are \<^verbatim>\<open>NaN\<close>, \<^verbatim>\<open>startMs > horizonMs\<close> is
  never true and the loop never leaves (\<open>unparseable_today_never_returns\<close>). Here the
  target date is 2025-06-01, the sprint length the default 14, and \<^verbatim>\<open>todayISO\<close> is
  \<^verbatim>\<open>"2025/03/01"\<close>: the build does not return. When the reference day is a finite number
  as well, the sprint length at least one day and the count of working days to go back
  at most \<^verbatim>\<open>2^53\<close>, the build does return, with finitely many sprints, each starting no later
  than the horizon, and the first omitted window starting after it
  (\<open>build_returns_for_finite_today\<close>).
\<close>

theorem unparseable_today_build_diverges:
  "buildBurnupModel examplePlatform badTodayInput = None"
proof -
  have a: "isFinite (parseISODate examplePlatform (devCompletionISO badTodayInput))"
    "todayMsOf examplePlatform badTodayInput = NaN"
    by code_simp+
  from unparseable_today_never_returns [OF a] show ?thesis .
qed

end
